(* ===== verification/Prelude.thy ===== *)
theory Prelude
  imports Complex_Main "HOL-Library.Word" "HOL-Library.Finite_Map" "HOL-Library.Signed_Division"
    "HOL-Library.List_Lexorder" "HOL-Library.Char_ord"
begin

text \<open>
  What every theory of the development shares: the fact collections, the names of the model's types,
  Go's \<open>time.Time\<close> as far as the code uses it, string maps with their sorted keys, and generic
  lemmas.
\<close>

section \<open>Fact collections\<close>

named_theorems inv_intro \<open>invariants kept by the operations\<close>
named_theorems frame \<open>fields an operation leaves alone\<close>

section \<open>Types of the model\<close>

text \<open>
  Go strings are byte sequences, which is what \<open>string\<close> (a list of 8-bit characters) is. A Go map
  with string keys is a finite map.
\<close>

type_synonym symbol = string
type_synonym 'v dict = "(string, 'v) fmap"

text \<open>\<open>sort.Strings\<close> over the keys of a map: Go compares strings byte by byte.\<close>

definition sorted_keys :: "'v dict \<Rightarrow> string list" where
  "sorted_keys m = sorted_list_of_fset (fmdom m)"

text \<open>The keys in one of the orders Go may iterate them in.\<close>

definition iteration_order :: "'v dict \<Rightarrow> symbol list \<Rightarrow> bool" where
  "iteration_order m order \<longleftrightarrow> distinct order \<and> fset_of_list order = fmdom m"

section \<open>Time\<close>

text \<open>
  A \<open>time.Time\<close> is the number of nanoseconds since Go's zero time (0001-01-01 00:00 UTC); the zero
  time itself is \<open>0\<close>. \<open>Truncate(24h)\<close> rounds down to a multiple of a day since the zero time, and
  \<open>Duration\<close>s are numbers of nanoseconds.
\<close>

type_synonym gotime = int
type_synonym duration = int

definition hour_ns :: duration where
  "hour_ns = 3600 * 1000000000"

definition day_ns :: duration where
  "day_ns = 24 * hour_ns"

definition truncate_day :: "gotime \<Rightarrow> gotime" where
  "truncate_day t = t - t mod day_ns"

definition is_zero_time :: "gotime \<Rightarrow> bool" where
  "is_zero_time t \<longleftrightarrow> t = 0"

section \<open>Decimal digits\<close>

text \<open>The decimal form of a natural number, as \<open>strconv.FormatUint\<close> and the \<open>%d\<close> verb print it.\<close>

definition digit_char :: "nat \<Rightarrow> char" where
  "digit_char d = char_of (48 + d)"

definition digit_val :: "char \<Rightarrow> nat" where
  "digit_val c = of_char c - 48"

definition is_digit_char :: "char \<Rightarrow> bool" where
  "is_digit_char c \<longleftrightarrow> 48 \<le> (of_char c :: nat) \<and> (of_char c :: nat) \<le> 57"

fun itoa :: "nat \<Rightarrow> string" where
  "itoa n = (if n < 10 then [digit_char n] else itoa (n div 10) @ [digit_char (n mod 10)])"

declare itoa.simps [simp del]

definition digits_val :: "string \<Rightarrow> nat" where
  "digits_val s = foldl (\<lambda>acc c. 10 * acc + digit_val c) 0 s"

section \<open>Dates\<close>

text \<open>\<open>Format("2006-01-02")\<close>: the civil date of a day, counted in years that start in March.\<close>

definition civil_date :: "gotime \<Rightarrow> int \<times> int \<times> int" where
  "civil_date t =
     (let z = t div day_ns + 306;
          era = z div 146097; doe = z mod 146097;
          yoe = (doe - doe div 1460 + doe div 36524 - doe div 146096) div 365;
          doy = doe - (365 * yoe + yoe div 4 - yoe div 100);
          mp = (5 * doy + 2) div 153;
          d = doy - (153 * mp + 2) div 5 + 1;
          m = (if mp < 10 then mp + 3 else mp - 9)
      in (yoe + era * 400 + (if m \<le> 2 then 1 else 0), m, d))"

definition pad_int :: "nat \<Rightarrow> int \<Rightarrow> string" where
  "pad_int w n = (let s = itoa (nat n) in replicate (w - length s) CHR ''0'' @ s)"

definition format_date :: "gotime \<Rightarrow> string" where
  "format_date t = (let (y, m, d) = civil_date t in pad_int 4 y @ ''-'' @ pad_int 2 m @ ''-'' @ pad_int 2 d)"

section \<open>Generic lemmas\<close>

lemma day_ns_pos [simp]: "0 < day_ns"
  by (simp add: day_ns_def hour_ns_def)

lemma truncate_day_le: "truncate_day t \<le> t"
  by (simp add: truncate_day_def)

lemma truncate_day_gt: "t < truncate_day t + day_ns"
  by (simp add: truncate_day_def)

lemma truncate_day_idem [simp]: "truncate_day (truncate_day t) = truncate_day t"
  by (simp add: truncate_day_def mod_diff_left_eq [symmetric])

lemma truncate_day_mono: "s \<le> t \<Longrightarrow> truncate_day s \<le> truncate_day t"
proof -
  assume "s \<le> t"
  then have "s div day_ns \<le> t div day_ns" by (simp add: zdiv_mono1)
  then show ?thesis by (simp add: truncate_day_def minus_mod_eq_div_mult)
qed

lemma set_sorted_keys [simp]: "set (sorted_keys m) = fset (fmdom m)"
  by (simp add: sorted_keys_def sorted_list_of_fset.rep_eq)

lemma distinct_sorted_keys [simp]: "distinct (sorted_keys m)"
  by (simp add: sorted_keys_def sorted_list_of_fset.rep_eq)

lemma sorted_sorted_keys: "sorted (sorted_keys m)"
  by (simp add: sorted_keys_def sorted_list_of_fset.rep_eq)

lemma fmlookup_dom_iff': "x |\<in>| fmdom m \<longleftrightarrow> (\<exists>v. fmlookup m x = Some v)"
  by (auto simp: fmlookup_dom_iff)

lemma digit_char_props: "d < 10 \<Longrightarrow> digit_val (digit_char d) = d \<and> is_digit_char (digit_char d)"
  by (simp add: digit_val_def digit_char_def is_digit_char_def)

lemma digits_val_snoc: "digits_val (s @ [c]) = 10 * digits_val s + digit_val c"
  by (simp add: digits_val_def)

lemma digits_val_zeros: "digits_val (replicate k CHR ''0'' @ s) = digits_val s"
  by (induction k) (simp_all add: digits_val_def digit_val_def)

lemma digits_val_itoa [simp]: "digits_val (itoa n) = n"
proof (induction n rule: itoa.induct)
  case (1 n)
  show ?case
  proof (cases "n < 10")
    case True
    then show ?thesis by (simp add: itoa.simps [of n] digits_val_def digit_char_props)
  next
    case False
    with 1 show ?thesis by (simp add: itoa.simps [of n] digits_val_snoc digit_char_props)
  qed
qed

text \<open>Evaluation of \<open>itoa\<close> on integers, which divide by their binary digits.\<close>

function itoa_int :: "int \<Rightarrow> string" where
  "itoa_int n =
     (if n < 10 then [digit_char (nat n)] else itoa_int (n div 10) @ [digit_char (nat (n mod 10))])"
  by auto
termination by (relation "measure nat") auto

declare itoa_int.simps [simp del]

lemma itoa_nat [code_unfold]: "itoa (nat n) = itoa_int (max 0 n)"
proof (induction n rule: itoa_int.induct)
  case (1 n)
  show ?case
  proof (cases "n < 10")
    case True
    then show ?thesis by (cases "0 \<le> n") (auto simp: itoa.simps [of "nat n"] itoa.simps [of 0] itoa_int.simps)
  next
    case False
    with 1 show ?thesis
      by (simp add: itoa.simps [of "nat n"] itoa_int.simps [of n] nat_div_distrib nat_mod_distrib nat_less_iff)
  qed
qed

lemma itoa_code [code]: "itoa n = itoa_int (int n)"
  using itoa_nat [of "int n"] by simp

lemma itoa_inj: "itoa m = itoa n \<longleftrightarrow> m = n"
  by (metis digits_val_itoa)

lemma itoa_digits: "\<forall>c \<in> set (itoa n). is_digit_char c" "itoa n \<noteq> []"
proof (induction n rule: itoa.induct)
  case (1 n)
  have d: "is_digit_char (digit_char (n mod 10))" "n < 10 \<Longrightarrow> is_digit_char (digit_char n)"
    by (simp_all add: digit_char_props)
  { case 1
    with d "1.IH"(1) show ?case by (cases "n < 10") (auto simp: itoa.simps [of n])
  next
    case 2
    show ?case by (simp add: itoa.simps [of n])
  }
qed

end
