(* ===== verification/Float64.thy ===== *)
theory Float64
  imports Prelude "HOL-Library.Log_Nat"
begin

text \<open>
  Go's \<open>float64\<close> (IEEE 754 binary64, round to nearest, ties to even), executable over the
  rationals, for the components whose money and quantity fields have that type. A finite value is
  kept as the rational it denotes; \<open>rnd_rat\<close> rounds a rational to the binary64 grid (53 bits of
  precision, least exponent \<open>-1074\<close>) and \<open>f64_of\<close> adds overflow to the infinities and the sign of
  a zero result. The arithmetic is that of a target without fused multiply-add (amd64).

  The order and sign facts the components use are proved once in the locale \<open>rounding\<close> from three
  laws (monotone, odd, idempotent) and obtained for \<open>rnd_rat\<close> by interpretation.
\<close>

section \<open>Rounding a rational to 53 bits\<close>

text \<open>The integer \<open>e\<close> with \<open>2\<^sup>e \<le> x < 2\<^sup>e\<^sup>+\<^sup>1\<close>, for a positive \<open>x\<close>.\<close>

definition ilog2 :: "rat \<Rightarrow> int" where
  "ilog2 x =
     (let (p, q) = quotient_of x;
          k = bitlen p - bitlen q
      in if 2 powi k \<le> x then k else k - 1)"

definition roundeven :: "rat \<Rightarrow> int" where
  "roundeven y =
     (let n = \<lfloor>y\<rfloor>; f = y - of_int n
      in if f < 1/2 then n else if 1/2 < f then n + 1 else if even n then n else n + 1)"

definition rexp :: "rat \<Rightarrow> int" where
  "rexp x = max (ilog2 \<bar>x\<bar> - 52) (- 1074)"

definition rnd_rat :: "rat \<Rightarrow> rat" where
  "rnd_rat x = (if x = 0 then 0 else of_int (roundeven (x / 2 powi rexp x)) * 2 powi rexp x)"

text \<open>
  The same rounding on integers, mantissa and exponent apart, from numerator and denominator: this
  is what is evaluated (\<open>f64_frac_code\<close> below).
\<close>

definition irnd :: "int \<Rightarrow> int \<Rightarrow> int" where
  "irnd p q =
     (let n = p div q; d = 2 * (p mod q)
      in if d < q then n else if q < d then n + 1 else if even n then n else n + 1)"

definition frac_parts :: "int \<Rightarrow> int \<Rightarrow> int \<times> int" where
  "frac_parts p q =
     (let a = \<bar>p\<bar>;
          k = bitlen a - bitlen q;
          l = (if (if 0 \<le> k then q * 2 ^ nat k \<le> a else q \<le> a * 2 ^ nat (- k)) then k else k - 1);
          e = max (l - 52) (- 1074)
      in (if 0 \<le> e then irnd p (q * 2 ^ nat e) else irnd (p * 2 ^ nat (- e)) q, e))"

text \<open>A dyadic fraction, kept as a numerator and an exponent so that its lowest terms are cheap.\<close>

definition dyad :: "int \<Rightarrow> int \<Rightarrow> rat" where
  "dyad m k = of_int m / 2 ^ nat k"

function strip2 :: "int \<Rightarrow> int \<Rightarrow> int \<times> int" where
  "strip2 m k = (if k \<le> 0 \<or> odd m then (m, k) else strip2 (m div 2) (k - 1))"
  by auto
termination by (relation "measure (nat \<circ> snd)") auto

declare strip2.simps [simp del]

section \<open>The type and its operations\<close>

text \<open>
  \<open>Fin r\<close> is the finite number \<open>r\<close> (with \<open>Fin 0\<close> the positive zero), \<open>MZero\<close> the negative zero.
\<close>

datatype f64 = NaN | PInf | NInf | MZero | Fin rat

fun valof :: "f64 \<Rightarrow> rat" where
  "valof (Fin r) = r"
| "valof _ = 0"

definition is_inf :: "f64 \<Rightarrow> bool" where
  "is_inf a \<longleftrightarrow> a = PInf \<or> a = NInf"

definition is_fin :: "f64 \<Rightarrow> bool" where
  "is_fin a \<longleftrightarrow> a \<noteq> NaN \<and> a \<noteq> PInf \<and> a \<noteq> NInf"

definition is_zero :: "f64 \<Rightarrow> bool" where
  "is_zero a \<longleftrightarrow> is_fin a \<and> valof a = 0"

fun neg_bit :: "f64 \<Rightarrow> bool" where
  "neg_bit NInf = True"
| "neg_bit MZero = True"
| "neg_bit (Fin r) = (r < 0)"
| "neg_bit _ = False"

text \<open>The least power of two above the finite range, \<open>2\<^sup>1\<^sup>0\<^sup>2\<^sup>4\<close>, as a literal so that it need not be computed.\<close>

definition overflow_bound :: rat where
  "overflow_bound =
     179769313486231590772930519078902473361797697894230657273430081157732675805500963132708477322407536021120113879871393357658789768814416622492847430639474124377767893424865485276302219601246094119453082952085005768838150682342462881473913110540827237163350510684586298239947245938479716304835356329624224137216"

definition f64_of :: "bool \<Rightarrow> rat \<Rightarrow> f64" where
  "f64_of neg x =
     (let r = rnd_rat x
      in if overflow_bound \<le> r then PInf
         else if r \<le> - overflow_bound then NInf
         else if r = 0 then (if neg then MZero else Fin 0)
         else Fin r)"

text \<open>The conversion of an exact value (a Go constant, an integer) to \<open>float64\<close>.\<close>

definition rnd :: "rat \<Rightarrow> f64" where
  "rnd x = f64_of (x < 0) x"

definition fint :: "int \<Rightarrow> f64" where
  "fint n = rnd (of_int n)"

fun fneg :: "f64 \<Rightarrow> f64" where
  "fneg NaN = NaN"
| "fneg PInf = NInf"
| "fneg NInf = PInf"
| "fneg MZero = Fin 0"
| "fneg (Fin r) = (if r = 0 then MZero else Fin (- r))"

definition fadd :: "f64 \<Rightarrow> f64 \<Rightarrow> f64" where
  "fadd a b =
     (if a = NaN \<or> b = NaN then NaN
      else if is_inf a \<and> is_inf b \<and> a \<noteq> b then NaN
      else if is_inf a then a
      else if is_inf b then b
      else if a = MZero \<and> b = MZero then MZero
      else rnd (valof a + valof b))"

definition fsub :: "f64 \<Rightarrow> f64 \<Rightarrow> f64" where
  "fsub a b = fadd a (fneg b)"

definition fmul :: "f64 \<Rightarrow> f64 \<Rightarrow> f64" where
  "fmul a b =
     (let s = (neg_bit a \<noteq> neg_bit b)
      in if a = NaN \<or> b = NaN then NaN
         else if is_inf a \<or> is_inf b
         then (if is_zero a \<or> is_zero b then NaN else if s then NInf else PInf)
         else f64_of s (valof a * valof b))"

definition fdiv :: "f64 \<Rightarrow> f64 \<Rightarrow> f64" where
  "fdiv a b =
     (let s = (neg_bit a \<noteq> neg_bit b)
      in if a = NaN \<or> b = NaN then NaN
         else if is_inf a \<and> is_inf b \<or> is_zero a \<and> is_zero b then NaN
         else if is_inf a \<or> is_zero b then (if s then NInf else PInf)
         else if is_inf b then (if s then MZero else Fin 0)
         else f64_of s (valof a / valof b))"

text \<open>
  Comparisons: every comparison with a NaN is false, the two zeros are equal. \<open>rank\<close> places the
  infinities around the finite values.
\<close>

fun rank :: "f64 \<Rightarrow> int" where
  "rank NInf = - 1"
| "rank PInf = 1"
| "rank _ = 0"

definition flt :: "f64 \<Rightarrow> f64 \<Rightarrow> bool" where
  "flt a b \<longleftrightarrow> a \<noteq> NaN \<and> b \<noteq> NaN \<and> (rank a < rank b \<or> rank a = rank b \<and> valof a < valof b)"

definition fle :: "f64 \<Rightarrow> f64 \<Rightarrow> bool" where
  "fle a b \<longleftrightarrow> a \<noteq> NaN \<and> b \<noteq> NaN \<and> (rank a < rank b \<or> rank a = rank b \<and> valof a \<le> valof b)"

definition feq :: "f64 \<Rightarrow> f64 \<Rightarrow> bool" where
  "feq a b \<longleftrightarrow> a \<noteq> NaN \<and> b \<noteq> NaN \<and> rank a = rank b \<and> valof a = valof b"

text \<open>\<open>math.Abs\<close>, the built-in \<open>min\<close> and \<open>max\<close>, and \<open>math.Max\<close> (which prefers \<open>+Inf\<close> to a NaN).\<close>

fun fabs :: "f64 \<Rightarrow> f64" where
  "fabs NInf = PInf"
| "fabs MZero = Fin 0"
| "fabs (Fin r) = Fin \<bar>r\<bar>"
| "fabs a = a"

definition fmin :: "f64 \<Rightarrow> f64 \<Rightarrow> f64" where
  "fmin a b =
     (if a = NaN \<or> b = NaN then NaN
      else if flt a b then a else if flt b a then b
      else if a = MZero then a else b)"

definition fmax :: "f64 \<Rightarrow> f64 \<Rightarrow> f64" where
  "fmax a b =
     (if a = NaN \<or> b = NaN then NaN
      else if flt a b then b else if flt b a then a
      else if a = MZero then b else a)"

definition math_Max :: "f64 \<Rightarrow> f64 \<Rightarrow> f64" where
  "math_Max a b = (if a = PInf \<or> b = PInf then PInf else fmax a b)"

text \<open>The invariant of the type: a finite value is on the binary64 grid and below the overflow bound.\<close>

definition f64_wf :: "f64 \<Rightarrow> bool" where
  "f64_wf a \<longleftrightarrow> rnd_rat (valof a) = valof a \<and> \<bar>valof a\<bar> < overflow_bound"

section \<open>Properties of the rounding\<close>

lemma bitlen_powi_bounds:
  assumes "0 < p"
  shows "(2::rat) powi (bitlen p - 1) \<le> of_int p \<and> of_int p < (2::rat) powi bitlen p"
proof -
  have b1: "1 \<le> bitlen p"
    using assms bitlen_nonneg [of p] bitlen_eq_zero_iff [of p] by linarith
  have "of_int (2 ^ nat (bitlen p - 1)) \<le> (of_int p :: rat)"
    "(of_int p :: rat) < of_int (2 ^ nat (bitlen p))"
    using bitlen_bounds [OF assms] by (simp_all only: of_int_le_iff of_int_less_iff)
  then show ?thesis using b1 by (simp add: power_int_def)
qed

lemma frac_log_bounds:
  assumes p: "0 < p" and q: "0 < q" and x: "x = (of_int p / of_int q :: rat)"
  defines "k \<equiv> bitlen p - bitlen q"
  shows "2 powi (k - 1) \<le> x \<and> x < 2 powi (k + 1)"
proof -
  note pb = bitlen_powi_bounds [OF p] and qb = bitlen_powi_bounds [OF q]
  have q': "(0::rat) < of_int q" using q by simp
  have "x < 2 powi bitlen p / 2 powi (bitlen q - 1)"
    unfolding x using pb qb q' p by (intro frac_less) (auto simp: zero_less_power_int)
  also have "\<dots> = 2 powi (k + 1)"
    by (simp add: k_def algebra_simps flip: power_int_diff)
  finally have hi: "x < 2 powi (k + 1)" .
  have "2 powi (k - 1) = 2 powi (bitlen p - 1) / (2::rat) powi bitlen q"
    by (simp add: k_def algebra_simps flip: power_int_diff)
  also have "\<dots> \<le> x"
    unfolding x using pb qb q' p by (intro frac_le) (auto simp: less_imp_le)
  finally show ?thesis using hi by simp
qed

lemma ilog2_bounds:
  assumes "0 < x"
  shows "2 powi ilog2 x \<le> x \<and> x < 2 powi (ilog2 x + 1)"
proof -
  obtain p q where pq: "quotient_of x = (p, q)" by (cases "quotient_of x")
  have q: "0 < q" using quotient_of_denom_pos [OF pq] .
  have x: "x = of_int p / of_int q" by (rule quotient_of_div [OF pq])
  have p: "0 < p" using assms q by (simp add: x zero_less_divide_iff)
  show ?thesis using frac_log_bounds [OF p q x] by (auto simp: ilog2_def pq Let_def)
qed

lemma powi_mono2: "a \<le> b \<Longrightarrow> (2::rat) powi a \<le> 2 powi b"
  by (rule power_int_increasing) auto

lemma powi_less_cancel: "(2::rat) powi a < 2 powi b \<Longrightarrow> a < b"
  using powi_mono2 [of b a] by linarith

lemma powi_pos2 [simp]: "(0::rat) < 2 powi a"
  by (simp add: zero_less_power_int)

lemma ilog2_mono: "0 < x \<Longrightarrow> x \<le> y \<Longrightarrow> ilog2 x \<le> ilog2 y"
  using ilog2_bounds [of x] ilog2_bounds [of y] powi_less_cancel [of "ilog2 x" "ilog2 y + 1"]
  by linarith

lemma roundeven_of_int [simp]: "roundeven (of_int n) = n"
  by (simp add: roundeven_def)

lemma roundeven_near: "\<bar>of_int (roundeven y) - y\<bar> \<le> 1/2"
  using floor_correct [of y] by (auto simp: roundeven_def Let_def abs_if; linarith)

lemma roundeven_cases: "roundeven y = \<lfloor>y\<rfloor> \<or> roundeven y = \<lfloor>y\<rfloor> + 1"
  by (simp add: roundeven_def Let_def)

lemma roundeven_mono:
  assumes "x \<le> y"
  shows "roundeven x \<le> roundeven y"
proof (cases "\<lfloor>x\<rfloor> = \<lfloor>y\<rfloor>")
  case True
  then show ?thesis using assms by (auto simp: roundeven_def Let_def)
next
  case False
  then have "\<lfloor>x\<rfloor> + 1 \<le> \<lfloor>y\<rfloor>" using floor_mono [OF assms] by linarith
  then show ?thesis using roundeven_cases [of x] roundeven_cases [of y] by linarith
qed

lemma roundeven_minus [simp]: "roundeven (- y) = - roundeven y"
proof (cases "y \<in> \<int>")
  case True
  then obtain n where "y = of_int n" by (auto elim: Ints_cases)
  then show ?thesis by (metis of_int_minus roundeven_of_int)
next
  case False
  then have "\<lfloor>- y\<rfloor> = - \<lfloor>y\<rfloor> - 1"
    by (simp add: floor_minus ceiling_altdef) (metis Ints_of_int)
  then show ?thesis by (auto simp: roundeven_def Let_def)
qed

lemma rnd_rat_0 [simp]: "rnd_rat 0 = 0"
  by (simp add: rnd_rat_def)

lemma rnd_rat_minus [simp]: "rnd_rat (- x) = - rnd_rat x"
  by (simp add: rnd_rat_def rexp_def)

lemma powi_grid:
  assumes "a \<le> b"
  shows "(2::rat) powi b = of_int (2 ^ nat (b - a)) * 2 powi a"
proof -
  have "(2::rat) powi b = 2 powi (b - a) * 2 powi a"
    by (subst power_int_add [symmetric]) simp_all
  then show ?thesis using assms by (simp add: power_int_def [of _ "b - a"])
qed

text \<open>Rounding never jumps over a point of its own grid.\<close>

lemma rnd_rat_le_grid:
  assumes "x \<le> of_int m * 2 powi e" and "rexp x \<le> e"
  shows "rnd_rat x \<le> of_int m * 2 powi e"
proof (cases "x = 0")
  case True
  then show ?thesis using assms by simp
next
  case False
  define k :: int where "k = 2 ^ nat (e - rexp x)"
  have k: "(2::rat) powi e = of_int k * 2 powi rexp x"
    unfolding k_def by (rule powi_grid [OF assms(2)])
  have "x / 2 powi rexp x \<le> of_int (m * k)"
    using assms(1) by (simp add: k pos_divide_le_eq mult.assoc)
  then have "roundeven (x / 2 powi rexp x) \<le> m * k"
    using roundeven_mono roundeven_of_int by metis
  then have "of_int (roundeven (x / 2 powi rexp x)) * 2 powi rexp x \<le> of_int (m * k) * (2::rat) powi rexp x"
    by (intro mult_right_mono) (simp_all only: of_int_le_iff, simp add: less_imp_le)
  then show ?thesis using False by (simp add: rnd_rat_def k mult.assoc)
qed

lemma rexp_minus [simp]: "rexp (- x) = rexp x"
  by (simp add: rexp_def)

lemma rnd_rat_ge_grid:
  assumes "of_int m * 2 powi e \<le> x" and "rexp x \<le> e"
  shows "of_int m * 2 powi e \<le> rnd_rat x"
  using rnd_rat_le_grid [of "- x" "- m" e] assms by simp

lemma rnd_rat_mono_pos:
  assumes "0 < x" and "x \<le> y"
  shows "rnd_rat x \<le> rnd_rat y"
proof -
  have il: "ilog2 x \<le> ilog2 y" by (rule ilog2_mono [OF assms])
  then have ex: "rexp x \<le> rexp y" using assms by (simp add: rexp_def)
  show ?thesis
  proof (cases "rexp x = rexp y")
    case True
    have "roundeven (x / 2 powi rexp y) \<le> roundeven (y / 2 powi rexp y)"
      using assms by (intro roundeven_mono divide_right_mono) simp_all
    then show ?thesis using assms True by (simp add: rnd_rat_def)
  next
    case False
    then have ey: "rexp y = ilog2 y - 52" and l: "ilog2 x < ilog2 y"
      using ex assms by (auto simp: rexp_def max_def split: if_splits)
    have "x \<le> of_int 1 * 2 powi ilog2 y"
      using ilog2_bounds [of x] powi_mono2 [of "ilog2 x + 1" "ilog2 y"] assms l by simp
    then have 1: "rnd_rat x \<le> of_int 1 * 2 powi ilog2 y"
      using ex ey by (intro rnd_rat_le_grid) simp_all
    have "of_int 1 * 2 powi ilog2 y \<le> y"
      using ilog2_bounds [of y] assms by simp
    then have "of_int 1 * 2 powi ilog2 y \<le> rnd_rat y"
      using ey by (intro rnd_rat_ge_grid) simp_all
    with 1 show ?thesis by (rule order_trans)
  qed
qed

lemma rnd_rat_nonneg: "0 \<le> x \<Longrightarrow> 0 \<le> rnd_rat x"
  using rnd_rat_ge_grid [of 0 "rexp x" x] by simp

lemma rnd_rat_mono:
  assumes "x \<le> y"
  shows "rnd_rat x \<le> rnd_rat y"
proof -
  consider "0 < x" | "x \<le> 0" "0 \<le> y" | "y < 0" by linarith
  then show ?thesis
  proof cases
    case 1
    then show ?thesis using assms by (rule rnd_rat_mono_pos)
  next
    case 2
    then show ?thesis using rnd_rat_nonneg [of y] rnd_rat_nonneg [of "- x"] by simp
  next
    case 3
    then show ?thesis using rnd_rat_mono_pos [of "- y" "- x"] assms by simp
  qed
qed

lemma rnd_rat_exact:
  assumes "r = of_int m * 2 powi e" and "\<bar>m\<bar> < 2 ^ 53" and "- 1074 \<le> e"
  shows "rnd_rat r = r"
proof (cases "r = 0")
  case False
  then have m: "0 < \<bar>m\<bar>" using assms by auto
  have "\<bar>r\<bar> < 2 ^ 53 * 2 powi e"
  proof -
    have "(of_int \<bar>m\<bar> :: rat) < of_int (2 ^ 53)" using assms(2) by (simp only: of_int_less_iff)
    then show ?thesis using assms(1) by (simp add: abs_mult)
  qed
  also have "\<dots> = 2 powi (53 + e)"
    by (simp add: power_int_add)
  finally have "2 powi ilog2 \<bar>r\<bar> < (2::rat) powi (53 + e)"
    using ilog2_bounds [of "\<bar>r\<bar>"] False by simp
  then have "rexp r \<le> e"
    using powi_less_cancel [of "ilog2 \<bar>r\<bar>" "53 + e"] assms(3) by (simp add: rexp_def)
  then show ?thesis
    using rnd_rat_le_grid [of r m e] rnd_rat_ge_grid [of m e r] assms(1) by simp
qed simp

lemma rnd_rat_idem [simp]: "rnd_rat (rnd_rat x) = rnd_rat x"
proof (cases "x = 0")
  case False
  define e where "e = rexp x"
  define m where "m = roundeven (x / 2 powi e)"
  have r: "rnd_rat x = of_int m * 2 powi e"
    using False by (simp add: rnd_rat_def m_def e_def)
  have e: "- 1074 \<le> e" "ilog2 \<bar>x\<bar> + 1 \<le> e + 53" by (simp_all add: e_def rexp_def)
  have "\<bar>x\<bar> < 2 powi (ilog2 \<bar>x\<bar> + 1)" using ilog2_bounds [of "\<bar>x\<bar>"] False by simp
  also have "\<dots> \<le> 2 powi (e + 53)" by (rule powi_mono2 [OF e(2)])
  also have "\<dots> = 2 ^ 53 * 2 powi e" by (simp add: power_int_add)
  finally have "\<bar>x / 2 powi e\<bar> \<le> of_int (2 ^ 53)" by (simp add: pos_divide_le_eq)
  then have "x / 2 powi e \<le> of_int (2 ^ 53)" "of_int (- (2 ^ 53)) \<le> x / 2 powi e"
    by (simp_all only: abs_le_iff of_int_minus minus_le_iff)
  then have m: "\<bar>m\<bar> \<le> 2 ^ 53"
    using roundeven_mono roundeven_of_int unfolding m_def by (metis abs_le_iff minus_le_iff)
  show ?thesis
  proof (cases "\<bar>m\<bar> < 2 ^ 53")
    case True
    then show ?thesis using rnd_rat_exact [OF r _ e(1)] by simp
  next
    case False
    then have "m = sgn m * 2 * 2 ^ 52" using m by (auto simp: sgn_if abs_if split: if_splits)
    then have "rnd_rat x = of_int (sgn m * 2 ^ 52) * 2 powi (e + 1)"
      using r by (simp add: power_int_add)
    then show ?thesis
      by (rule rnd_rat_exact) (use e(1) in \<open>simp_all add: sgn_if\<close>)
  qed
qed simp

lemma rnd_rat_of_int: "\<bar>n\<bar> \<le> 2 ^ 53 \<Longrightarrow> rnd_rat (of_int n) = of_int n"
proof (cases "\<bar>n\<bar> = 2 ^ 53")
  case True
  then have n: "n = sgn n * 2 * 2 ^ 52" by (auto simp: sgn_if abs_if split: if_splits)
  show ?thesis
    by (rule rnd_rat_exact [of _ "sgn n * 2 ^ 52" 1]) (subst n, simp_all add: sgn_if)
next
  case False
  assume "\<bar>n\<bar> \<le> 2 ^ 53"
  with False show ?thesis by (intro rnd_rat_exact [of _ n 0]) simp_all
qed

lemma irnd_roundeven:
  assumes "0 < q"
  shows "roundeven (of_int p / of_int q) = irnd p q"
proof -
  have f: "\<lfloor>rat_of_int p / of_int q\<rfloor> = p div q"
    by (rule floor_divide_of_int_eq)
  have "rat_of_int p = of_int (p div q) * of_int q + of_int (p mod q)"
    by (metis div_mult_mod_eq of_int_add of_int_mult)
  then have r: "rat_of_int p / of_int q - of_int (p div q) = of_int (p mod q) / of_int q"
    using assms by (simp add: field_simps)
  have "rat_of_int (2 * (p mod q)) < of_int q \<longleftrightarrow> 2 * (p mod q) < q"
    "rat_of_int q < of_int (2 * (p mod q)) \<longleftrightarrow> q < 2 * (p mod q)"
    by (simp_all only: of_int_less_iff)
  then have "of_int (p mod q) / of_int q < (1/2::rat) \<longleftrightarrow> 2 * (p mod q) < q"
    "(1/2::rat) < of_int (p mod q) / of_int q \<longleftrightarrow> q < 2 * (p mod q)"
    using assms by (simp_all add: pos_divide_less_eq pos_less_divide_eq mult.commute)
  then show ?thesis unfolding roundeven_def irnd_def Let_def f r by simp
qed

lemma powi_int: "(2::rat) powi k = (if 0 \<le> k then of_int (2 ^ nat k) else 1 / of_int (2 ^ nat (- k)))"
  by (simp add: power_int_def field_simps)

lemma ilog2_unique: "0 < x \<Longrightarrow> 2 powi l \<le> x \<Longrightarrow> x < 2 powi (l + 1) \<Longrightarrow> ilog2 x = l"
  using ilog2_bounds [of x] powi_less_cancel [of l "ilog2 x + 1"] powi_less_cancel [of "ilog2 x" "l + 1"]
  by (fastforce dest: order.strict_trans1)

lemma frac_parts_eq:
  assumes p: "p \<noteq> 0" and q: "0 < q" and x: "x = (of_int p / of_int q :: rat)"
  shows "frac_parts p q = (roundeven (x / 2 powi rexp x), rexp x)"
proof -
  define k where "k = bitlen \<bar>p\<bar> - bitlen q"
  have le: "2 powi k \<le> \<bar>x\<bar> \<longleftrightarrow> (if 0 \<le> k then q * 2 ^ nat k \<le> \<bar>p\<bar> else q \<le> \<bar>p\<bar> * 2 ^ nat (- k))"
  proof -
    have "rat_of_int (q * 2 ^ nat k) \<le> of_int \<bar>p\<bar> \<longleftrightarrow> q * 2 ^ nat k \<le> \<bar>p\<bar>"
      "rat_of_int q \<le> of_int (\<bar>p\<bar> * 2 ^ nat (- k)) \<longleftrightarrow> q \<le> \<bar>p\<bar> * 2 ^ nat (- k)"
      by (simp_all only: of_int_le_iff)
    then show ?thesis
      using q by (auto simp: x powi_int pos_le_divide_eq pos_divide_le_eq mult.commute)
  qed
  have ax: "\<bar>x\<bar> = of_int \<bar>p\<bar> / of_int q" "0 < \<bar>x\<bar>" using p q by (auto simp: x)
  have b: "2 powi (k - 1) \<le> \<bar>x\<bar> \<and> \<bar>x\<bar> < 2 powi (k + 1)"
    unfolding k_def using p q ax(1) by (intro frac_log_bounds) auto
  have il: "ilog2 \<bar>x\<bar> = (if 2 powi k \<le> \<bar>x\<bar> then k else k - 1)"
    by (rule ilog2_unique [OF ax(2)]) (use b in auto)
  have e: "rexp x = max ((if (if 0 \<le> k then q * 2 ^ nat k \<le> \<bar>p\<bar> else q \<le> \<bar>p\<bar> * 2 ^ nat (- k))
      then k else k - 1) - 52) (- 1074)"
    by (simp only: rexp_def il le)
  have r: "roundeven (x / 2 powi e) = (if 0 \<le> e then irnd p (q * 2 ^ nat e) else irnd (p * 2 ^ nat (- e)) q)" for e
    using q irnd_roundeven [of "q * 2 ^ nat e" p] irnd_roundeven [of q "p * 2 ^ nat (- e)"]
    by (simp add: powi_int [of e] x)
  show ?thesis
    unfolding frac_parts_def r e k_def Let_def ..
qed

section \<open>What a rounding function promises\<close>

locale rounding =
  fixes r :: "rat \<Rightarrow> rat"
  assumes mono: "x \<le> y \<Longrightarrow> r x \<le> r y"
    and odd: "r (- x) = - r x"
    and idem: "r (r x) = r x"
begin

lemma zero: "r 0 = 0"
  using odd [of 0] by simp

lemma nonneg: "0 \<le> x \<Longrightarrow> 0 \<le> r x"
  using mono [of 0 x] by (simp add: zero)

lemma nonpos: "x \<le> 0 \<Longrightarrow> r x \<le> 0"
  using mono [of x 0] by (simp add: zero)

lemma diff_nonneg: "y \<le> x \<Longrightarrow> 0 \<le> r (x - y)"
  by (rule nonneg) simp

lemma le_fixed: "x \<le> y \<Longrightarrow> r y = y \<Longrightarrow> r x \<le> y"
  using mono [of x y] by simp

lemma ge_fixed: "y \<le> x \<Longrightarrow> r y = y \<Longrightarrow> y \<le> r x"
  using mono [of y x] by simp

end

interpretation r64: rounding rnd_rat
  by unfold_locales (simp_all add: rnd_rat_mono)

section \<open>Properties of the operations\<close>

lemma is_fin_simps [simp]:
  "\<not> is_fin NaN" "\<not> is_fin PInf" "\<not> is_fin NInf" "is_fin MZero" "is_fin (Fin r)"
  by (simp_all add: is_fin_def)

lemma is_inf_simps [simp]:
  "\<not> is_inf NaN" "is_inf PInf" "is_inf NInf" "\<not> is_inf MZero" "\<not> is_inf (Fin r)"
  by (simp_all add: is_inf_def)

lemma is_zero_simps [simp]:
  "\<not> is_zero NaN" "\<not> is_zero PInf" "\<not> is_zero NInf" "is_zero MZero" "is_zero (Fin r) \<longleftrightarrow> r = 0"
  by (simp_all add: is_zero_def)

lemma fle_NaN [simp]: "\<not> fle NaN b" "\<not> fle a NaN"
  by (simp_all add: fle_def)

lemma flt_NaN [simp]: "\<not> flt NaN b" "\<not> flt a NaN"
  by (simp_all add: flt_def)

lemma fle_refl: "a \<noteq> NaN \<Longrightarrow> fle a a"
  by (simp add: fle_def)

lemma fle_trans: "fle a b \<Longrightarrow> fle b c \<Longrightarrow> fle a c"
  by (auto simp: fle_def)

lemma flt_fle_trans: "flt a b \<Longrightarrow> fle b c \<Longrightarrow> flt a c"
  by (auto simp: fle_def flt_def)

lemma fle_flt_trans: "fle a b \<Longrightarrow> flt b c \<Longrightarrow> flt a c"
  by (auto simp: fle_def flt_def)

lemma flt_imp_fle: "flt a b \<Longrightarrow> fle a b"
  by (auto simp: fle_def flt_def)

lemma not_flt_iff: "a \<noteq> NaN \<Longrightarrow> b \<noteq> NaN \<Longrightarrow> \<not> flt a b \<longleftrightarrow> fle b a"
  by (auto simp: fle_def flt_def)

lemma not_fle_iff: "a \<noteq> NaN \<Longrightarrow> b \<noteq> NaN \<Longrightarrow> \<not> fle a b \<longleftrightarrow> flt b a"
  by (auto simp: fle_def flt_def)

lemma rank_fin [simp]: "is_fin a \<Longrightarrow> rank a = 0"
  by (cases a) auto

lemma fle_fin: "is_fin a \<Longrightarrow> is_fin b \<Longrightarrow> fle a b \<longleftrightarrow> valof a \<le> valof b"
  by (auto simp: fle_def is_fin_def)

lemma flt_fin: "is_fin a \<Longrightarrow> is_fin b \<Longrightarrow> flt a b \<longleftrightarrow> valof a < valof b"
  by (auto simp: flt_def is_fin_def)

lemma is_fin_not_NaN: "is_fin a \<Longrightarrow> a \<noteq> NaN"
  by auto

lemma f64_of_not_NaN [simp]: "f64_of s x \<noteq> NaN"
  by (simp add: f64_of_def Let_def)

lemma rnd_not_NaN [simp]: "rnd x \<noteq> NaN"
  by (simp add: rnd_def)

lemma overflow_bound_eq: "overflow_bound = 2 ^ 1024"
  by (simp add: overflow_bound_def)

lemma overflow_bound_pos [simp]: "0 < overflow_bound"
  by (simp add: overflow_bound_def)

lemma overflow_bound_not_nonpos [simp]: "\<not> overflow_bound \<le> 0"
  by (simp add: not_le)

lemma rnd_0 [simp]: "rnd 0 = Fin 0"
  by (simp add: rnd_def f64_of_def not_le)

lemma bitlen_overflow:
  assumes "m \<noteq> 0"
  shows "overflow_bound \<le> of_int \<bar>m\<bar> * 2 powi e \<longleftrightarrow> 1024 < bitlen \<bar>m\<bar> + e"
proof -
  have ob: "overflow_bound = 2 powi 1024"
    by (simp add: overflow_bound_eq)
  have b: "2 powi (bitlen \<bar>m\<bar> - 1 + e) \<le> (of_int \<bar>m\<bar> * 2 powi e :: rat)"
    "of_int \<bar>m\<bar> * 2 powi e < (2 powi (bitlen \<bar>m\<bar> + e) :: rat)"
    using bitlen_powi_bounds [of "\<bar>m\<bar>"] assms by (simp_all add: power_int_add)
  show ?thesis
  proof
    assume "overflow_bound \<le> of_int \<bar>m\<bar> * 2 powi e"
    with b(2) show "1024 < bitlen \<bar>m\<bar> + e" unfolding ob by (intro powi_less_cancel) linarith
  next
    assume "1024 < bitlen \<bar>m\<bar> + e"
    then have "(2::rat) powi 1024 \<le> 2 powi (bitlen \<bar>m\<bar> - 1 + e)" by (intro powi_mono2) simp
    with b(1) show "overflow_bound \<le> of_int \<bar>m\<bar> * 2 powi e" unfolding ob by linarith
  qed
qed

lemma overflow_bound_iff:
  "overflow_bound \<le> v \<longleftrightarrow> 0 < v \<and> overflow_bound \<le> \<bar>v\<bar>"
  "v \<le> - overflow_bound \<longleftrightarrow> v < 0 \<and> overflow_bound \<le> \<bar>v\<bar>"
  using overflow_bound_pos by linarith+

text \<open>
  Evaluation. The rounding of a fraction that need not be in lowest terms, by its parts; the operations
  below hand it their numerators and denominators without cancelling.
\<close>

definition f64_frac :: "bool \<Rightarrow> int \<Rightarrow> int \<Rightarrow> f64" where
  "f64_frac s p q = f64_of s (of_int p / of_int q)"

definition mk_fin :: "int \<Rightarrow> int \<Rightarrow> f64" where
  "mk_fin m e = (if 0 \<le> e then Fin (of_int (m * 2 ^ nat e))
     else let (m', k) = strip2 m (- e) in if k \<le> 0 then Fin (of_int m') else Fin (dyad m' k))"

lemma strip2_dyad:
  "strip2 m k = (m', k') \<Longrightarrow> 0 \<le> k \<Longrightarrow> dyad m k = dyad m' k' \<and> 0 \<le> k' \<and> (k' = 0 \<or> odd m')"
proof (induction m k rule: strip2.induct)
  case (1 m k)
  show ?case
  proof (cases "k \<le> 0 \<or> odd m")
    case True
    with 1(2,3) show ?thesis by (auto simp: strip2.simps [of m k])
  next
    case False
    then have "strip2 (m div 2) (k - 1) = (m', k')" "0 \<le> k - 1" using 1(2) by (auto simp: strip2.simps [of m k])
    from 1(1) [OF False this] have "dyad (m div 2) (k - 1) = dyad m' k'" "0 \<le> k'" "k' = 0 \<or> odd m'" by auto
    moreover have "dyad m k = dyad (m div 2) (k - 1)"
    proof -
      obtain j where j: "m = 2 * j" using False by blast
      have "nat k = Suc (nat (k - 1))" using False by linarith
      then show ?thesis by (simp add: dyad_def j)
    qed
    ultimately show ?thesis by simp
  qed
qed

lemma quotient_of_dyad [code]:
  "quotient_of (dyad m k) = (let (m', k') = strip2 m (max 0 k) in if k' \<le> 0 then (m', 1) else (m', 2 ^ nat k'))"
proof -
  obtain m' k' where s: "strip2 m (max 0 k) = (m', k')" by (cases "strip2 m (max 0 k)")
  have d: "dyad m k = dyad m (max 0 k)" by (simp add: dyad_def max_def)
  from strip2_dyad [OF s] have k': "dyad m k = dyad m' k'" "0 \<le> k'" "k' = 0 \<or> odd m'" unfolding d by auto
  show ?thesis
  proof (cases "k' = 0")
    case True
    with k' s show ?thesis by (simp add: dyad_def)
  next
    case False
    with k'(3) have "coprime m' (2 ^ nat k')" by simp
    moreover have "dyad m k = Fract m' (2 ^ nat k')" unfolding k'(1) by (simp add: dyad_def Fract_of_int_quotient)
    ultimately show ?thesis using k'(2) False s by (simp add: quotient_of_Fract normalize_stable)
  qed
qed

lemma mk_fin_eq: "mk_fin m e = Fin (of_int m * 2 powi e)"
proof (cases "0 \<le> e")
  case False
  obtain m' k where s: "strip2 m (- e) = (m', k)" by (cases "strip2 m (- e)")
  from strip2_dyad [OF this] False have d: "dyad m (- e) = dyad m' k" "0 \<le> k" by auto
  have "of_int m * 2 powi e = dyad m (- e)" using False by (simp add: dyad_def powi_int)
  with s d False show ?thesis by (auto simp: mk_fin_def dyad_def)
qed (simp add: mk_fin_def powi_int)

lemma f64_frac_code [code]:
  "f64_frac s p q =
     (if q \<le> 0 then f64_of s (of_int p / of_int q)
      else if p = 0 then (if s then MZero else Fin 0)
      else let (m, e) = frac_parts p q
           in if m = 0 then (if s then MZero else Fin 0)
              else if 1024 < bitlen \<bar>m\<bar> + e then (if 0 < m then PInf else NInf)
              else mk_fin m e)"
proof -
  have "roundeven 0 = 0" using roundeven_of_int [of 0] by simp
  consider "q \<le> 0" | "0 < q" "p = 0" | "0 < q" "p \<noteq> 0" by linarith
  then show ?thesis
  proof cases
    case 3
    define x where "x = (of_int p / of_int q :: rat)"
    obtain m e where me: "frac_parts p q = (m, e)" by (cases "frac_parts p q")
    with frac_parts_eq [OF 3(2,1) x_def] have x: "rnd_rat x = of_int m * 2 powi e"
      using \<open>roundeven 0 = 0\<close> by (auto simp: rnd_rat_def)
    show ?thesis
    proof (cases "m = 0")
      case True
      with 3 show ?thesis by (simp add: f64_frac_def f64_of_def me x flip: x_def)
    next
      case False
      have sgn: "0 < rnd_rat x \<longleftrightarrow> 0 < m" "rnd_rat x < 0 \<longleftrightarrow> m < 0"
        by (simp_all add: x zero_less_mult_iff mult_less_0_iff less_not_sym [OF powi_pos2])
      have "\<bar>rnd_rat x\<bar> = of_int \<bar>m\<bar> * 2 powi e" by (simp add: x abs_mult)
      then have "overflow_bound \<le> \<bar>rnd_rat x\<bar> \<longleftrightarrow> 1024 < bitlen \<bar>m\<bar> + e"
        using bitlen_overflow [OF False, of e] by simp
      then have "(overflow_bound \<le> rnd_rat x) = (0 < m \<and> 1024 < bitlen \<bar>m\<bar> + e)"
        "(rnd_rat x \<le> - overflow_bound) = (m < 0 \<and> 1024 < bitlen \<bar>m\<bar> + e)"
        by (subst overflow_bound_iff, simp add: sgn)+
      then show ?thesis using False 3
        by (auto simp: f64_frac_def f64_of_def me x mk_fin_eq split: if_splits simp flip: x_def)
    qed
  qed (simp_all add: f64_frac_def f64_of_def)
qed

lemma f64_of_code [code]: "f64_of s x = (let (p, q) = quotient_of x in f64_frac s p q)"
  by (cases "quotient_of x") (simp add: f64_frac_def flip: quotient_of_div)

lemma fadd_code [code]:
  "fadd a b =
     (if a = NaN \<or> b = NaN then NaN
      else if is_inf a \<and> is_inf b \<and> a \<noteq> b then NaN
      else if is_inf a then a
      else if is_inf b then b
      else if a = MZero \<and> b = MZero then MZero
      else let (p, q) = quotient_of (valof a); (p', q') = quotient_of (valof b); n = p * q' + p' * q
           in f64_frac (n < 0) n (q * q'))"
proof -
  obtain p q p' q' where pq: "quotient_of (valof a) = (p, q)" "quotient_of (valof b) = (p', q')"
    by (metis surj_pair)
  have pos: "0 < q" "0 < q'" using pq by (auto dest: quotient_of_denom_pos)
  then have qq: "0 < q * q'" "\<not> q * q' < 0" by (simp_all add: not_less)
  have s: "valof a + valof b = of_int (p * q' + p' * q) / of_int (q * q')"
    using pos by (simp add: quotient_of_div [OF pq(1)] quotient_of_div [OF pq(2)] field_simps)
  have "of_int (p * q' + p' * q) / of_int (q * q') < (0::rat) \<longleftrightarrow> p * q' + p' * q < 0"
    using qq by (simp only: divide_less_0_iff of_int_less_0_iff of_int_0_less_iff simp_thms)
  with s show ?thesis by (simp add: fadd_def rnd_def f64_frac_def pq Let_def del: of_int_add of_int_mult)
qed

lemma fmul_code [code]:
  "fmul a b =
     (let s = (neg_bit a \<noteq> neg_bit b)
      in if a = NaN \<or> b = NaN then NaN
         else if is_inf a \<or> is_inf b
         then (if is_zero a \<or> is_zero b then NaN else if s then NInf else PInf)
         else let (p, q) = quotient_of (valof a); (p', q') = quotient_of (valof b) in f64_frac s (p * p') (q * q'))"
proof -
  obtain p q p' q' where pq: "quotient_of (valof a) = (p, q)" "quotient_of (valof b) = (p', q')"
    by (metis surj_pair)
  have "valof a * valof b = of_int (p * p') / of_int (q * q')"
    by (simp add: quotient_of_div [OF pq(1)] quotient_of_div [OF pq(2)])
  then show ?thesis by (simp add: fmul_def f64_frac_def pq Let_def del: of_int_mult)
qed

lemma fdiv_code [code]:
  "fdiv a b =
     (let s = (neg_bit a \<noteq> neg_bit b)
      in if a = NaN \<or> b = NaN then NaN
         else if is_inf a \<and> is_inf b \<or> is_zero a \<and> is_zero b then NaN
         else if is_inf a \<or> is_zero b then (if s then NInf else PInf)
         else if is_inf b then (if s then MZero else Fin 0)
         else let (p, q) = quotient_of (valof a); (p', q') = quotient_of (valof b)
              in f64_frac s (if p' < 0 then - (p * q') else p * q') (q * \<bar>p'\<bar>))"
proof -
  obtain p q p' q' where pq: "quotient_of (valof a) = (p, q)" "quotient_of (valof b) = (p', q')"
    by (metis surj_pair)
  have "valof a / valof b = of_int (if p' < 0 then - (p * q') else p * q') / of_int (q * \<bar>p'\<bar>)"
    by (simp add: quotient_of_div [OF pq(1)] quotient_of_div [OF pq(2)] abs_if)
  then show ?thesis by (simp add: fdiv_def f64_frac_def pq Let_def del: of_int_mult)
qed

lemma f64_of_mono: "x \<le> y \<Longrightarrow> fle (f64_of s x) (f64_of t y)"
  using rnd_rat_mono [of x y] by (auto simp: f64_of_def Let_def fle_def)

lemma f64_of_nonneg: "0 \<le> x \<Longrightarrow> fle (Fin 0) (f64_of s x)"
  using r64.nonneg [of x] by (auto simp: f64_of_def Let_def fle_def)

lemma rnd_mono: "x \<le> y \<Longrightarrow> fle (rnd x) (rnd y)"
  by (simp add: rnd_def f64_of_mono)

lemma rnd_nonneg: "0 \<le> x \<Longrightarrow> fle (Fin 0) (rnd x)"
  by (simp add: rnd_def f64_of_nonneg)

lemma f64_of_wf: "f64_wf (f64_of s x)"
  by (auto simp: f64_of_def Let_def f64_wf_def)

lemma rnd_exact:
  assumes "rnd_rat x = x" and "\<bar>x\<bar> < overflow_bound"
  shows "rnd x = Fin x"
  using assms by (auto simp: rnd_def f64_of_def Let_def abs_less_iff)

lemma f64_of_exact:
  assumes "rnd_rat x = x" and "\<bar>x\<bar> < overflow_bound" and "x \<noteq> 0"
  shows "f64_of s x = Fin x"
  using assms by (auto simp: f64_of_def Let_def abs_less_iff)

lemma int_below_overflow: "\<bar>n\<bar> \<le> 2 ^ 53 \<Longrightarrow> \<bar>rat_of_int n\<bar> < overflow_bound"
proof -
  assume "\<bar>n\<bar> \<le> 2 ^ 53"
  then have "rat_of_int \<bar>n\<bar> \<le> of_int (2 ^ 53)" by (simp only: of_int_le_iff)
  also have "\<dots> < overflow_bound" by (simp add: overflow_bound_def)
  finally show ?thesis by simp
qed

lemma fint_exact: "\<bar>n\<bar> \<le> 2 ^ 53 \<Longrightarrow> fint n = Fin (of_int n)"
  by (simp add: fint_def rnd_exact rnd_rat_of_int int_below_overflow)

lemma valof_fneg [simp]: "valof (fneg a) = - valof a"
  by (cases a) auto

lemma is_fin_fneg [simp]: "is_fin (fneg a) \<longleftrightarrow> is_fin a"
  by (cases a) auto

lemma fadd_fin: "is_fin a \<Longrightarrow> is_fin b \<Longrightarrow>
    fadd a b = (if a = MZero \<and> b = MZero then MZero else rnd (valof a + valof b))"
  by (auto simp: fadd_def is_inf_def)

lemma fsub_fin: "is_fin a \<Longrightarrow> is_fin b \<Longrightarrow>
    fsub a b = (if a = MZero \<and> b = Fin 0 then MZero else rnd (valof a - valof b))"
  by (cases b) (auto simp: fsub_def fadd_fin)

lemma fmul_fin: "is_fin a \<Longrightarrow> is_fin b \<Longrightarrow>
    fmul a b = f64_of (neg_bit a \<noteq> neg_bit b) (valof a * valof b)"
  by (auto simp: fmul_def is_inf_def Let_def)

text \<open>Subtracting what is at most the minuend leaves a non-negative float.\<close>

lemma fsub_nonneg:
  assumes "is_fin a" and "fle b a"
  shows "fle (Fin 0) (fsub a b)"
proof (cases "is_fin b")
  case True
  then have "0 \<le> valof a - valof b" using assms by (simp add: fle_fin)
  then show ?thesis using assms True rnd_nonneg by (auto simp: fsub_fin fle_def)
next
  case False
  then have "b = NInf" using assms by (cases b) (auto simp: fle_def)
  then show ?thesis using assms by (cases a) (auto simp: fsub_def fadd_def fle_def)
qed

lemma fadd_nonneg:
  assumes "fle (Fin 0) a" and "fle (Fin 0) b"
  shows "fle (Fin 0) (fadd a b)"
proof (cases "is_fin a \<and> is_fin b")
  case True
  then have "0 \<le> valof a + valof b" using assms by (simp add: fle_fin)
  then show ?thesis using True rnd_nonneg by (auto simp: fadd_fin fle_def)
next
  case False
  then have "a = PInf \<or> b = PInf" using assms by (cases a; cases b) (auto simp: fle_def)
  then show ?thesis using assms by (cases a; cases b) (auto simp: fle_def fadd_def)
qed

lemma fmul_nonneg:
  assumes "is_fin a" "is_fin b" and "fle (Fin 0) a" and "fle (Fin 0) b"
  shows "fle (Fin 0) (fmul a b)"
  using assms by (simp add: fmul_fin f64_of_nonneg fle_fin)

lemma fadd_int:
  assumes "\<bar>m + n\<bar> \<le> 2 ^ 53"
  shows "fadd (Fin (of_int m)) (Fin (of_int n)) = Fin (of_int (m + n))"
  using fint_exact [OF assms] by (simp add: fadd_fin fint_def)

lemma fsub_int:
  assumes "\<bar>m - n\<bar> \<le> 2 ^ 53"
  shows "fsub (Fin (of_int m)) (Fin (of_int n)) = Fin (of_int (m - n))"
  using fint_exact [OF assms] by (simp add: fsub_fin fint_def)

lemma fle_NInf [simp]: "fle NInf a \<longleftrightarrow> a \<noteq> NaN"
  by (cases a) (auto simp: fle_def)

lemma fle_PInf [simp]: "fle a PInf \<longleftrightarrow> a \<noteq> NaN"
  by (cases a) (auto simp: fle_def)

lemma fle_fin_between: "fle a b \<Longrightarrow> a \<noteq> NInf \<Longrightarrow> b \<noteq> PInf \<Longrightarrow> is_fin a \<and> is_fin b"
  by (cases a; cases b) (auto simp: fle_def)

lemma fadd_NInf: "fadd a b \<noteq> NaN \<Longrightarrow> a = NInf \<or> b = NInf \<Longrightarrow> fadd a b = NInf"
  by (cases a; cases b) (auto simp: fadd_def)

lemma fadd_PInf: "fadd a b \<noteq> NaN \<Longrightarrow> a = PInf \<or> b = PInf \<Longrightarrow> fadd a b = PInf"
  by (cases a; cases b) (auto simp: fadd_def)

lemma fadd_fin_rnd: "is_fin a \<Longrightarrow> is_fin b \<Longrightarrow>
    rank (fadd a b) = rank (rnd (valof a + valof b)) \<and> valof (fadd a b) = valof (rnd (valof a + valof b))"
  by (simp add: fadd_fin)

lemma fle_cong:
  assumes "rank a = rank a'" "valof a = valof a'" "rank b = rank b'" "valof b = valof b'"
    and "a \<noteq> NaN" "b \<noteq> NaN" "fle a' b'"
  shows "fle a b"
  using assms by (auto simp: fle_def)

lemma fadd_fin_not_NaN: "is_fin a \<Longrightarrow> is_fin b \<Longrightarrow> fadd a b \<noteq> NaN"
  by (simp add: fadd_fin)

lemma fadd_mono:
  assumes ab: "fle a b" and cd: "fle c d" and n: "fadd a c \<noteq> NaN" "fadd b d \<noteq> NaN"
  shows "fle (fadd a c) (fadd b d)"
proof -
  consider "a = NInf \<or> c = NInf" | "b = PInf \<or> d = PInf" | "is_fin a" "is_fin b" "is_fin c" "is_fin d"
    using fle_fin_between [OF ab] fle_fin_between [OF cd] by blast
  then show ?thesis
  proof cases
    case 1
    then show ?thesis using fadd_NInf [OF n(1)] n by simp
  next
    case 2
    then show ?thesis using fadd_PInf [OF n(2)] n by simp
  next
    case 3
    then have "valof a + valof c \<le> valof b + valof d"
      using ab cd by (simp add: fle_fin)
    then have r: "fle (rnd (valof a + valof c)) (rnd (valof b + valof d))" by (rule rnd_mono)
    show ?thesis
      by (rule fle_cong [OF _ _ _ _ n r]) (simp_all add: 3 fadd_fin_rnd)
  qed
qed

lemma fadd_nonneg_not_NaN: "fle (Fin 0) a \<Longrightarrow> fle (Fin 0) b \<Longrightarrow> fadd a b \<noteq> NaN"
  by (metis fadd_nonneg fle_NaN(2))

lemma fmul_mono_nonneg:
  assumes "is_fin a" "is_fin b" "is_fin r" "fle (Fin 0) r" "fle a b"
  shows "fle (fmul a r) (fmul b r)"
  using assms by (simp add: fmul_fin fle_fin f64_of_mono mult_right_mono)

lemma fmul_fin_not_NaN: "is_fin a \<Longrightarrow> is_fin b \<Longrightarrow> fmul a b \<noteq> NaN"
  by (simp add: fmul_fin)

lemma fmax_cases: "a \<noteq> NaN \<Longrightarrow> b \<noteq> NaN \<Longrightarrow> fmax a b = a \<or> fmax a b = b"
  by (simp add: fmax_def)

lemma math_Max_cases: "a \<noteq> NaN \<Longrightarrow> b \<noteq> NaN \<Longrightarrow> math_Max a b = a \<or> math_Max a b = b"
  by (auto simp: math_Max_def fmax_cases)

lemma math_Max_upper:
  "a \<noteq> NaN \<Longrightarrow> b \<noteq> NaN \<Longrightarrow> fle a (math_Max a b) \<and> fle b (math_Max a b)"
  by (cases a; cases b) (auto simp: math_Max_def fmax_def fle_def flt_def)

lemma math_Max_mono:
  assumes "fle a b" "c \<noteq> NaN"
  shows "fle (math_Max a c) (math_Max b c)"
proof -
  have n: "a \<noteq> NaN" "b \<noteq> NaN" using assms by auto
  have "fle a (math_Max b c)" "fle c (math_Max b c)"
    using math_Max_upper [of b c] fle_trans [OF assms(1)] n assms by auto
  then show ?thesis using math_Max_cases [of a c] n assms by auto
qed

lemma fmin_lower:
  "a \<noteq> NaN \<Longrightarrow> b \<noteq> NaN \<Longrightarrow> fle (fmin a b) a \<and> fle (fmin a b) b"
  by (auto simp: fmin_def fle_def flt_def)

lemma fmin_cases: "a \<noteq> NaN \<Longrightarrow> b \<noteq> NaN \<Longrightarrow> fmin a b = a \<or> fmin a b = b"
  by (simp add: fmin_def)

lemma fmin_NaN: "fmin a b = NaN \<longleftrightarrow> a = NaN \<or> b = NaN"
  by (auto simp: fmin_def)

lemma fadd_wf: "f64_wf a \<Longrightarrow> f64_wf b \<Longrightarrow> f64_wf (fadd a b)"
  by (auto simp: fadd_def rnd_def f64_of_wf) (simp_all add: f64_wf_def)

lemma fmul_wf: "f64_wf (fmul a b)"
  by (auto simp: fmul_def Let_def f64_of_wf) (simp_all add: f64_wf_def)

end
