(* ===== verification/Domain.thy ===== *)
theory Domain
  imports Float64
begin

text \<open>
  The domain types the trading components exchange (\<open>src/pkg/domain/types.go\<close>,
  \<open>src/pkg/domain/backtest.go\<close>, \<open>src/pkg/domain/market/types.go\<close>). Go's string enumerations become
  datatypes with one constructor for the values the source names none of. \<open>Position.Metadata\<close>, the
  execution-algorithm fields and the JSON tags are left out: no modelled operation reads them.
\<close>

datatype Direction =
    DirectionLong | DirectionShort | DirectionClose | DirectionHold | DirectionOther string

datatype OrderType =
    OrderTypeMarket | OrderTypeLimit | OrderTypeStop | OrderTypeTrailing | OrderTypeOther string

record Position =
  posSymbol :: symbol
  posQuantity :: f64
  posAvgCost :: f64
  posCurrentPrice :: f64
  posMarketValue :: f64
  posUnrealizedPnL :: f64
  posRealizedPnL :: f64
  posWeight :: f64
  posEntryDate :: gotime
  posBuyDate :: gotime
  posQuantityToday :: f64
  posQuantityYesterday :: f64

text \<open>The zero value of the struct, with the symbol set.\<close>

definition zero_Position :: "symbol \<Rightarrow> Position" where
  "zero_Position s =
     \<lparr>posSymbol = s, posQuantity = Fin 0, posAvgCost = Fin 0, posCurrentPrice = Fin 0,
      posMarketValue = Fin 0, posUnrealizedPnL = Fin 0, posRealizedPnL = Fin 0, posWeight = Fin 0,
      posEntryDate = 0, posBuyDate = 0, posQuantityToday = Fin 0, posQuantityYesterday = Fin 0\<rparr>"

record Portfolio =
  pfCash :: f64
  pfPositions :: "Position dict"
  pfTotalValue :: f64
  pfUpdatedAt :: gotime

record Order =
  ordID :: string
  ordSymbol :: symbol
  ordDirection :: Direction
  ordOrderType :: OrderType
  ordQuantity :: f64
  ordLimitPrice :: f64
  ordStopPrice :: f64
  ordTrailAmount :: f64
  ordTrailPercent :: f64
  ordHighWaterMark :: f64
  ordTimestamp :: gotime
  ordFilledQty :: f64
  ordFillPrice :: f64
  ordStatus :: string

record Trade =
  trID :: string
  trSymbol :: symbol
  trDirection :: Direction
  trQuantity :: f64
  trPrice :: f64
  trCommission :: f64
  trTransferFee :: f64
  trStampTax :: f64
  trTimestamp :: gotime
  trPendingQty :: f64
  trFilledQty :: f64

record PortfolioValue =
  pvDate :: gotime
  pvTotalValue :: f64
  pvCash :: f64
  pvPositions :: f64

record OHLCV =
  barOpen :: f64
  barHigh :: f64
  barLow :: f64
  barClose :: f64
  barVolume :: f64

record Split =
  StkDivRatio :: f64
  CashDivRatio :: f64

record Dividend =
  DivAmt :: f64

end
