(* ===== verification/Fees.thy ===== *)
theory Fees
  imports Float64
begin

text \<open>
  The shared pricing primitives: the A-share fee schedule (\<open>src/pkg/fees/ashare.go\<close>), the fee and
  average-cost formulas (\<open>src/pkg/portfolio/portfolio.go\<close>) and the T+1 settlement rules
  (\<open>src/pkg/settlement/settlement.go\<close>). The backtest tracker and the mock trader both call them.
\<close>

section \<open>Fee schedule\<close>

definition DefaultCommissionRate :: f64 where
  "DefaultCommissionRate = rnd (3 / 10000)"

definition DefaultStampTaxRate :: f64 where
  "DefaultStampTaxRate = rnd (5 / 10000)"

definition DefaultStampTaxRateBefore :: f64 where
  "DefaultStampTaxRateBefore = rnd (1 / 1000)"

definition DefaultTransferFeeRate :: f64 where
  "DefaultTransferFeeRate = rnd (1 / 100000)"

definition DefaultMinCommission :: f64 where
  "DefaultMinCommission = rnd 5"

definition DefaultSlippageRate :: f64 where
  "DefaultSlippageRate = rnd (1 / 10000)"

text \<open>2023-08-28 00:00 UTC is 738759 days after 0001-01-01.\<close>

definition StampTaxCutDate :: gotime where
  "StampTaxCutDate = 738759 * day_ns"

definition StampTaxRateFor :: "gotime \<Rightarrow> f64 \<Rightarrow> f64 \<Rightarrow> f64" where
  "StampTaxRateFor asOf current before =
     (let before = (if fle before (Fin 0) then DefaultStampTaxRateBefore else before);
          current = (if fle current (Fin 0) then DefaultStampTaxRate else current)
      in if \<not> is_zero_time asOf \<and> asOf < StampTaxCutDate then before else current)"

record AShareFees =
  CommissionRate :: f64
  StampTaxRate :: f64
  TransferFeeRate :: f64
  MinCommission :: f64
  SlippageRate :: f64

definition DefaultAShareFees :: AShareFees where
  "DefaultAShareFees =
     \<lparr>CommissionRate = DefaultCommissionRate, StampTaxRate = DefaultStampTaxRate,
      TransferFeeRate = DefaultTransferFeeRate, MinCommission = DefaultMinCommission,
      SlippageRate = DefaultSlippageRate\<rparr>"

definition ApplyDefaults :: "AShareFees \<Rightarrow> AShareFees" where
  "ApplyDefaults f =
     (let f = (if feq (CommissionRate f) (Fin 0) then f\<lparr>CommissionRate := DefaultCommissionRate\<rparr> else f);
          f = (if feq (StampTaxRate f) (Fin 0) then f\<lparr>StampTaxRate := DefaultStampTaxRate\<rparr> else f);
          f = (if feq (TransferFeeRate f) (Fin 0) then f\<lparr>TransferFeeRate := DefaultTransferFeeRate\<rparr> else f);
          f = (if feq (MinCommission f) (Fin 0) then f\<lparr>MinCommission := DefaultMinCommission\<rparr> else f);
          f = (if feq (SlippageRate f) (Fin 0) then f\<lparr>SlippageRate := DefaultSlippageRate\<rparr> else f)
      in f)"

text \<open>\<open>Validate\<close> reports the first field out of range; \<open>None\<close> is Go's \<open>nil\<close>.\<close>

datatype fee_error =
    CommissionRateOutOfRange f64
  | StampTaxRateOutOfRange f64
  | TransferFeeRateOutOfRange f64
  | MinCommissionOutOfRange f64
  | SlippageRateOutOfRange f64

definition out_of_range :: "f64 \<Rightarrow> f64 \<Rightarrow> bool" where
  "out_of_range x hi \<longleftrightarrow> flt x (Fin 0) \<or> fle hi x"

definition Validate :: "AShareFees \<Rightarrow> fee_error option" where
  "Validate f =
     (if out_of_range (CommissionRate f) (rnd (5 / 100)) then Some (CommissionRateOutOfRange (CommissionRate f))
      else if out_of_range (StampTaxRate f) (rnd (5 / 100)) then Some (StampTaxRateOutOfRange (StampTaxRate f))
      else if out_of_range (TransferFeeRate f) (rnd (5 / 100)) then Some (TransferFeeRateOutOfRange (TransferFeeRate f))
      else if out_of_range (MinCommission f) (rnd 1000) then Some (MinCommissionOutOfRange (MinCommission f))
      else if out_of_range (SlippageRate f) (rnd (1 / 10)) then Some (SlippageRateOutOfRange (SlippageRate f))
      else None)"

section \<open>Fees of a trade, average cost\<close>

record FeeBreakdown =
  Commission :: f64
  TransferFee :: f64
  StampTax :: f64

definition Total :: "FeeBreakdown \<Rightarrow> f64" where
  "Total f = fadd (fadd (Commission f) (TransferFee f)) (StampTax f)"

definition ComputeFees :: "f64 \<Rightarrow> bool \<Rightarrow> AShareFees \<Rightarrow> FeeBreakdown" where
  "ComputeFees tradeValue isSell f =
     (if fle tradeValue (Fin 0)
      then \<lparr>Commission = Fin 0, TransferFee = Fin 0, StampTax = Fin 0\<rparr>
      else \<lparr>Commission = math_Max (fmul tradeValue (CommissionRate f)) (MinCommission f),
            TransferFee = fmul tradeValue (TransferFeeRate f),
            StampTax = (if isSell then fmul tradeValue (StampTaxRate f) else Fin 0)\<rparr>)"

definition UpdateAvgCost :: "f64 \<Rightarrow> f64 \<Rightarrow> f64 \<Rightarrow> f64 \<Rightarrow> f64 \<times> f64" where
  "UpdateAvgCost oldAvgCost oldQty fillPrice filledQty =
     (let newQty = fadd oldQty filledQty
      in if flt (fabs newQty) (rnd (1 / 100000000)) then (Fin 0, Fin 0)
         else (fdiv (fadd (fmul oldAvgCost oldQty) (fmul fillPrice filledQty)) newQty, newQty))"

section \<open>T+1 settlement\<close>

definition FlatThreshold :: f64 where
  "FlatThreshold = rnd (1 / 100000000)"

definition IsFlat :: "f64 \<Rightarrow> bool" where
  "IsFlat quantity \<longleftrightarrow> flt (fabs quantity) FlatThreshold"

definition RollOver :: "f64 \<Rightarrow> f64 \<Rightarrow> f64 \<times> f64" where
  "RollOver qtyYesterday qtyToday = (qtyToday, Fin 0)"

definition SellableQty :: "f64 \<Rightarrow> f64" where
  "SellableQty qtyYesterday = (if flt qtyYesterday (Fin 0) then Fin 0 else qtyYesterday)"

section \<open>Properties\<close>

text \<open>A schedule whose fields are all finite and non-negative.\<close>

definition fees_ok :: "AShareFees \<Rightarrow> bool" where
  "fees_ok f \<longleftrightarrow>
     (\<forall>x \<in> {CommissionRate f, StampTaxRate f, TransferFeeRate f, MinCommission f}.
        is_fin x \<and> fle (Fin 0) x)"

lemma fees_okD:
  assumes "fees_ok f"
  shows "is_fin (CommissionRate f)" "fle (Fin 0) (CommissionRate f)"
    "is_fin (StampTaxRate f)" "fle (Fin 0) (StampTaxRate f)"
    "is_fin (TransferFeeRate f)" "fle (Fin 0) (TransferFeeRate f)"
    "is_fin (MinCommission f)" "fle (Fin 0) (MinCommission f)"
  using assms by (auto simp: fees_ok_def)

lemma not_le_zero: "is_fin tv \<Longrightarrow> \<not> fle tv (Fin 0) \<Longrightarrow> fle (Fin 0) tv"
  by (auto simp: fle_fin)

lemma compute_fees_parts_nonneg:
  assumes "fees_ok f" "is_fin tv"
  shows "fle (Fin 0) (Commission (ComputeFees tv s f))"
    "fle (Fin 0) (TransferFee (ComputeFees tv s f))"
    "fle (Fin 0) (StampTax (ComputeFees tv s f))"
proof -
  note ok = fees_okD [OF assms(1)]
  have z: "fle (Fin 0) (Fin 0)" by (simp add: fle_fin)
  have m: "fle (Fin 0) (fmul tv r)" if "\<not> fle tv (Fin 0)" "is_fin r" "fle (Fin 0) r" for r
    using that assms(2) by (blast intro: fmul_nonneg not_le_zero)
  have "fmul tv (CommissionRate f) \<noteq> NaN" "MinCommission f \<noteq> NaN"
    using ok(1,7) assms(2) by (simp_all add: fmul_fin is_fin_not_NaN)
  from math_Max_upper [OF this]
  have c: "fle (Fin 0) (math_Max (fmul tv (CommissionRate f)) (MinCommission f))"
    using fle_trans [OF ok(8)] by blast
  show "fle (Fin 0) (Commission (ComputeFees tv s f))"
    "fle (Fin 0) (TransferFee (ComputeFees tv s f))"
    "fle (Fin 0) (StampTax (ComputeFees tv s f))"
    using m c ok z by (auto simp: ComputeFees_def)
qed

lemma compute_fees_total_nonneg:
  assumes "fees_ok f" "is_fin tv"
  shows "fle (Fin 0) (Total (ComputeFees tv s f))"
  unfolding Total_def by (intro fadd_nonneg compute_fees_parts_nonneg [OF assms])

lemma compute_fees_min_commission:
  assumes "fees_ok f" "is_fin tv" "flt (Fin 0) tv"
  shows "fle (MinCommission f) (Commission (ComputeFees tv s f))"
proof -
  note ok = fees_okD [OF assms(1)]
  have n: "\<not> fle tv (Fin 0)" using assms(2,3) by (simp add: fle_fin flt_fin)
  have "fmul tv (CommissionRate f) \<noteq> NaN" "MinCommission f \<noteq> NaN"
    using ok(1,7) assms(2) by (simp_all add: fmul_fin_not_NaN is_fin_not_NaN)
  from math_Max_upper [OF this] n show ?thesis by (simp add: ComputeFees_def)
qed

text \<open>
  C17: With a schedule of finite non-negative rates, every fee of a finite trade value is
  non-negative, a positive trade pays at least the minimum commission, and a buy pays no stamp tax.
\<close>

theorem compute_fees_sound:
  assumes "fees_ok f" "is_fin tv"
  shows "fle (Fin 0) (Commission (ComputeFees tv s f)) \<and> fle (Fin 0) (TransferFee (ComputeFees tv s f)) \<and>
         fle (Fin 0) (StampTax (ComputeFees tv s f)) \<and> fle (Fin 0) (Total (ComputeFees tv s f)) \<and>
         (flt (Fin 0) tv \<longrightarrow> fle (MinCommission f) (Commission (ComputeFees tv s f))) \<and>
         StampTax (ComputeFees tv False f) = Fin 0"
  using compute_fees_parts_nonneg [OF assms] compute_fees_total_nonneg [OF assms]
    compute_fees_min_commission [OF assms] by (simp add: ComputeFees_def)

text \<open>A schedule with binary rates, for concrete evaluations.\<close>

definition sample_fees :: AShareFees where
  "sample_fees = \<lparr>CommissionRate = Fin (1 / 1024), StampTaxRate = Fin (1 / 512),
     TransferFeeRate = Fin (1 / 65536), MinCommission = Fin 5, SlippageRate = Fin 0\<rparr>"

lemma sample_fees_ok: "fees_ok sample_fees"
  by (simp add: fees_ok_def sample_fees_def fle_fin)

theorem compute_fees_sound_witness:
  "fees_ok sample_fees \<and> flt (Fin 0) (Fin 2048) \<and>
   fle (Fin 5) (Commission (ComputeFees (Fin 2048) True sample_fees)) \<and>
   fle (Fin 0) (Total (ComputeFees (Fin 2048) True sample_fees))"
  using compute_fees_sound [of sample_fees "Fin 2048" True] sample_fees_ok
  by (simp add: flt_fin) (simp add: sample_fees_def)

lemma compute_fees_parts_mono:
  assumes "fees_ok f" "is_fin a" "is_fin b" "fle a b"
  shows "fle (Commission (ComputeFees a s f)) (Commission (ComputeFees b s f))"
    "fle (TransferFee (ComputeFees a s f)) (TransferFee (ComputeFees b s f))"
    "fle (StampTax (ComputeFees a s f)) (StampTax (ComputeFees b s f))"
proof -
  note ok = fees_okD [OF assms(1)]
  have N: "MinCommission f \<noteq> NaN" using ok(7) by (simp add: is_fin_not_NaN)
  note parts = compute_fees_parts_nonneg [OF assms(1,3), of s]
  have "fle a (Fin 0)" if "fle b (Fin 0)"
    using fle_trans [OF assms(4) that] .
  then show "fle (Commission (ComputeFees a s f)) (Commission (ComputeFees b s f))"
    "fle (TransferFee (ComputeFees a s f)) (TransferFee (ComputeFees b s f))"
    "fle (StampTax (ComputeFees a s f)) (StampTax (ComputeFees b s f))"
    using parts ok assms math_Max_mono [OF fmul_mono_nonneg N] fmul_mono_nonneg
    by (auto simp: ComputeFees_def fle_refl)
qed

text \<open>
  The total fee is monotone in the trade value, rounding of every intermediate product and sum
  included: a larger trade is never charged less.
\<close>

lemma compute_fees_total_mono:
  assumes "fees_ok f" "is_fin a" "is_fin b" "fle a b"
  shows "fle (Total (ComputeFees a s f)) (Total (ComputeFees b s f))"
  unfolding Total_def
  by (intro fadd_mono fadd_nonneg_not_NaN fadd_nonneg compute_fees_parts_mono [OF assms]
        compute_fees_parts_nonneg assms)

lemma in_range_ok:
  "\<not> out_of_range x hi \<Longrightarrow> x \<noteq> NaN \<Longrightarrow> hi \<noteq> NaN \<Longrightarrow> is_fin x \<and> fle (Fin 0) x \<and> flt x hi"
  by (cases x; cases hi) (auto simp: out_of_range_def fle_def flt_def)

text \<open>
  A schedule that \<open>Validate\<close> accepts and that holds no NaN is a schedule of finite non-negative
  rates below the documented upper bounds, so the fee theorems apply to it. The NaN hypothesis is
  needed: both comparisons of the range check are false on NaN.
\<close>

lemma Validate_sound:
  assumes "Validate f = None"
    and "NaN \<notin> {CommissionRate f, StampTaxRate f, TransferFeeRate f, MinCommission f, SlippageRate f}"
  shows "fees_ok f \<and> flt (CommissionRate f) (rnd (5 / 100)) \<and> flt (StampTaxRate f) (rnd (5 / 100)) \<and>
     flt (TransferFeeRate f) (rnd (5 / 100)) \<and> flt (MinCommission f) (rnd 1000) \<and>
     flt (SlippageRate f) (rnd (1 / 10))"
proof -
  have nn: "\<And>x. rnd x \<noteq> NaN" by (simp add: rnd_def)
  have "\<not> out_of_range (CommissionRate f) (rnd (5 / 100))" "\<not> out_of_range (StampTaxRate f) (rnd (5 / 100))"
    "\<not> out_of_range (TransferFeeRate f) (rnd (5 / 100))" "\<not> out_of_range (MinCommission f) (rnd 1000)"
    "\<not> out_of_range (SlippageRate f) (rnd (1 / 10))"
    using assms(1) by (auto simp: Validate_def split: if_splits)
  from this [THEN in_range_ok [OF _ _ nn]] assms(2) show ?thesis by (auto simp: fees_ok_def)
qed

lemma sample_fees_valid: "Validate sample_fees = None"
  by code_simp

section \<open>Whole shares\<close>

text \<open>A quantity of whole shares; binary64 is exact on it up to \<open>2\<^sup>5\<^sup>3\<close>.\<close>

abbreviation shares :: "int \<Rightarrow> f64" where
  "shares n \<equiv> Fin (of_int n)"

lemma FlatThreshold_bounds: "flt (Fin 0) FlatThreshold \<and> fle FlatThreshold (Fin 1)"
  by code_simp

lemma IsFlat_shares: "IsFlat (shares n) \<longleftrightarrow> n = 0"
proof (cases "n = 0")
  case True
  then show ?thesis using FlatThreshold_bounds by (simp add: IsFlat_def)
next
  case False
  then have "1 \<le> \<bar>n\<bar>" by simp
  then have "(1::rat) \<le> \<bar>of_int n\<bar>" by (metis of_int_1_le_iff of_int_abs)
  then have "fle (Fin 1) (fabs (shares n))" by (simp add: fle_fin)
  with FlatThreshold_bounds have "fle FlatThreshold (fabs (shares n))" by (blast intro: fle_trans)
  then have "\<not> flt (fabs (shares n)) FlatThreshold"
    by (auto simp: fle_def flt_def)
  with False show ?thesis by (simp add: IsFlat_def)
qed

lemma fmin_shares: "fmin (shares m) (shares n) = shares (min m n)"
  by (auto simp: fmin_def flt_fin fle_fin min_def)

end
