(* ===== verification/Market.thy ===== *)
theory Market
  imports Float64
begin

text \<open>
  Market structure: the board of a symbol (\<open>src/pkg/marketdata/board.go\<close>) and the risk-warning
  (ST) names with their daily buy caps (\<open>src/pkg/marketdata/riskwarning.go\<close>). Strings are byte
  strings; the byte classes of Go's \<open>strings\<close> functions are written out where the code relies on
  them.
\<close>

section \<open>Strings\<close>

definition is_digit :: "char \<Rightarrow> bool" where
  "is_digit c \<longleftrightarrow> CHR ''0'' \<le> c \<and> c \<le> CHR ''9''"

definition isAllDigits :: "string \<Rightarrow> bool" where
  "isAllDigits s \<longleftrightarrow> s \<noteq> [] \<and> list_all is_digit s"

text \<open>The UTF-8 encodings of the runes \<open>unicode.IsSpace\<close> accepts, which \<open>strings.TrimSpace\<close> cuts.\<close>

definition space_encodings :: "string list" where
  "space_encodings =
     [[CHR 0x09], [CHR 0x0A], [CHR 0x0B], [CHR 0x0C], [CHR 0x0D], [CHR 0x20],
      [CHR 0xC2, CHR 0x85], [CHR 0xC2, CHR 0xA0], [CHR 0xE1, CHR 0x9A, CHR 0x80],
      [CHR 0xE2, CHR 0x80, CHR 0x80], [CHR 0xE2, CHR 0x80, CHR 0x81], [CHR 0xE2, CHR 0x80, CHR 0x82],
      [CHR 0xE2, CHR 0x80, CHR 0x83], [CHR 0xE2, CHR 0x80, CHR 0x84], [CHR 0xE2, CHR 0x80, CHR 0x85],
      [CHR 0xE2, CHR 0x80, CHR 0x86], [CHR 0xE2, CHR 0x80, CHR 0x87], [CHR 0xE2, CHR 0x80, CHR 0x88],
      [CHR 0xE2, CHR 0x80, CHR 0x89], [CHR 0xE2, CHR 0x80, CHR 0x8A], [CHR 0xE2, CHR 0x80, CHR 0xA8],
      [CHR 0xE2, CHR 0x80, CHR 0xA9], [CHR 0xE2, CHR 0x80, CHR 0xAF], [CHR 0xE2, CHR 0x81, CHR 0x9F],
      [CHR 0xE3, CHR 0x80, CHR 0x80]]"

fun take_prefix :: "string \<Rightarrow> string \<Rightarrow> string option" where
  "take_prefix [] s = Some s"
| "take_prefix (p # ps) [] = None"
| "take_prefix (p # ps) (c # s) = (if p = c then take_prefix ps s else None)"

fun cut_first :: "string list \<Rightarrow> string \<Rightarrow> string option" where
  "cut_first [] s = None"
| "cut_first (e # es) s = (case take_prefix e s of Some r \<Rightarrow> Some r | None \<Rightarrow> cut_first es s)"

text \<open>\<open>strings.TrimSpace\<close>: spaces are cut off the front, then, on the reversed string, off the back.\<close>

definition encodings :: "bool \<Rightarrow> string list" where
  "encodings rear = (if rear then map rev space_encodings else space_encodings)"

lemma take_prefix_Some: "take_prefix p s = Some r \<longleftrightarrow> s = p @ r"
  by (induction p s rule: take_prefix.induct) auto

lemma cut_first_Some: "cut_first es s = Some r \<Longrightarrow> \<exists>e \<in> set es. s = e @ r"
  by (induction es) (auto split: option.splits simp: take_prefix_Some)

lemma encodings_nonempty: "[] \<notin> set (encodings b)"
  by (simp add: encodings_def space_encodings_def)

function trim_side :: "bool \<Rightarrow> string \<Rightarrow> string" where
  "trim_side rear s =
     (case cut_first (encodings rear) s of None \<Rightarrow> s | Some r \<Rightarrow> trim_side rear r)"
  by pat_completeness auto
termination
proof (relation "measure (\<lambda>(b, s). length s)")
  fix rear s r
  assume "cut_first (encodings rear) s = Some r"
  then obtain e where "e \<in> set (encodings rear)" "s = e @ r" by (blast dest: cut_first_Some)
  then show "((rear, r), (rear, s)) \<in> measure (\<lambda>(b, s). length s)"
    using encodings_nonempty [of rear] by (cases e) auto
qed simp

declare trim_side.simps [simp del]

definition TrimSpace :: "string \<Rightarrow> string" where
  "TrimSpace s = rev (trim_side True (rev (trim_side False s)))"

definition upper_char :: "char \<Rightarrow> char" where
  "upper_char c = (if CHR ''a'' \<le> c \<and> c \<le> CHR ''z'' then char_of (of_char c - 32 :: nat) else c)"

text \<open>
  \<open>strings.ToUpper\<close> as far as the comparison with an exchange suffix can tell: ASCII letters, and
  U+017F (bytes C5 BF), the only other rune whose upper case is one of the letters S, H, Z, B, J.
\<close>

fun upper_exch :: "string \<Rightarrow> string" where
  "upper_exch [] = []"
| "upper_exch [c] = [upper_char c]"
| "upper_exch (c # d # s) =
     (if c = CHR 0xC5 \<and> d = CHR 0xBF then CHR ''S'' # upper_exch s
      else upper_char c # upper_exch (d # s))"

section \<open>Boards\<close>

datatype Board =
    BoardMainBoardSH | BoardMainBoardSZ | BoardChiNext | BoardSTAR | BoardBSE | BoardETF
  | BoardBond | BoardIndex | BoardFundLOF | BoardUnknown

definition DailyPriceLimit :: "Board \<Rightarrow> f64" where
  "DailyPriceLimit b =
     (if b \<in> {BoardChiNext, BoardSTAR} then rnd (20 / 100)
      else if b = BoardBSE then rnd (30 / 100)
      else rnd (10 / 100))"

definition HasCageRule :: "Board \<Rightarrow> bool" where
  "HasCageRule b \<longleftrightarrow> b = BoardMainBoardSH \<or> b = BoardMainBoardSZ"

definition CagePercent :: "Board \<Rightarrow> f64" where
  "CagePercent b = (if \<not> HasCageRule b then Fin 0 else rnd (2 / 100))"

definition classifySH :: "string \<Rightarrow> string \<Rightarrow> Board" where
  "classifySH prefix3 prefix1 =
     (if prefix3 \<in> {''688'', ''689''} then BoardSTAR
      else if prefix3 \<in> {''600'', ''601'', ''603'', ''605''} then BoardMainBoardSH
      else if prefix3 \<in> {''510'', ''511'', ''512'', ''513'', ''515'', ''516'', ''517'', ''518'', ''588''}
      then BoardETF
      else if prefix3 \<in> {''500'', ''501''} then BoardFundLOF
      else if prefix1 = ''1'' then BoardBond
      else if prefix3 = ''000'' then BoardIndex
      else if prefix1 = ''9'' then BoardMainBoardSH
      else BoardUnknown)"

definition classifySZ :: "string \<Rightarrow> string \<Rightarrow> Board" where
  "classifySZ prefix3 prefix1 =
     (if prefix3 \<in> {''300'', ''301''} then BoardChiNext
      else if prefix3 \<in> {''000'', ''001'', ''002''} then BoardMainBoardSZ
      else if prefix3 = ''159'' then BoardETF
      else if prefix3 \<in> {''160'', ''161'', ''162'', ''163'', ''164'', ''165'', ''166'', ''167'', ''168'', ''169''}
      then BoardFundLOF
      else if prefix1 = ''1'' then BoardBond
      else if prefix3 = ''399'' then BoardIndex
      else if prefix1 = ''2'' then BoardMainBoardSZ
      else BoardUnknown)"

definition classifyBJ :: "string \<Rightarrow> Board" where
  "classifyBJ prefix1 = (if prefix1 \<in> {''8'', ''4'', ''9''} then BoardBSE else BoardUnknown)"

text \<open>\<open>strings.LastIndex(s, ".")\<close> with the two slices around it; \<open>None\<close> when there is no dot.\<close>

definition split_last_dot :: "string \<Rightarrow> (string \<times> string) option" where
  "split_last_dot s =
     (let r = rev s; rest = dropWhile (\<lambda>c. c \<noteq> CHR ''.'') r
      in if rest = [] then None else Some (rev (tl rest), rev (takeWhile (\<lambda>c. c \<noteq> CHR ''.'') r)))"

definition check_parts :: "string \<Rightarrow> string \<Rightarrow> (string \<times> string) option" where
  "check_parts code exch =
     (let exch = upper_exch exch
      in if \<not> isAllDigits code then None
         else if exch \<notin> {''SH'', ''SZ'', ''BJ''} then None
         else Some (code, exch))"

definition splitTsCode :: "string \<Rightarrow> (string \<times> string) option" where
  "splitTsCode tsCode =
     (let tsCode = TrimSpace tsCode
      in if tsCode = [] then None
         else case split_last_dot tsCode of
             Some (c # code, exch) \<Rightarrow> check_parts (c # code) exch
           | _ \<Rightarrow> (if 8 \<le> length tsCode
                   then check_parts (take (length tsCode - 2) tsCode) (drop (length tsCode - 2) tsCode)
                   else None))"

definition ClassifySymbol :: "string \<Rightarrow> Board" where
  "ClassifySymbol tsCode =
     (case splitTsCode tsCode of
        None \<Rightarrow> BoardUnknown
      | Some (code, exch) \<Rightarrow>
          (if length code < 6 then BoardUnknown
           else let prefix3 = take 3 code; prefix1 = take 1 code
                in if exch = ''SH'' then classifySH prefix3 prefix1
                   else if exch = ''SZ'' then classifySZ prefix3 prefix1
                   else if exch = ''BJ'' then classifyBJ prefix1
                   else BoardUnknown))"

section \<open>Risk warnings\<close>

definition trimASCIISpace :: "string \<Rightarrow> string" where
  "trimASCIISpace s =
     (let sp = (\<lambda>c. c = CHR '' '' \<or> c = CHR 0x09)
      in rev (dropWhile sp (rev (dropWhile sp s))))"

definition has_prefix :: "string \<Rightarrow> string \<Rightarrow> bool" where
  "has_prefix p s \<longleftrightarrow> length p \<le> length s \<and> take (length p) s = p"

definition IsRiskWarningName :: "string \<Rightarrow> bool" where
  "IsRiskWarningName name \<longleftrightarrow>
     (if name = [] then False
      else let s = trimASCIISpace name
           in list_ex (\<lambda>p. has_prefix p s) [''*ST'', ''S*ST'', ''SST'', ''ST''])"

definition RiskWarningDailyBuyCapMainBoard :: f64 where
  "RiskWarningDailyBuyCapMainBoard = rnd 500000"

definition RiskWarningDailyBuyCapBSE :: f64 where
  "RiskWarningDailyBuyCapBSE = rnd 200000"

definition RiskWarningDailyBuyCap :: "symbol \<Rightarrow> f64" where
  "RiskWarningDailyBuyCap symb =
     (case ClassifySymbol symb of
        BoardBSE \<Rightarrow> RiskWarningDailyBuyCapBSE
      | BoardSTAR \<Rightarrow> Fin 0
      | BoardMainBoardSH \<Rightarrow> RiskWarningDailyBuyCapMainBoard
      | BoardMainBoardSZ \<Rightarrow> RiskWarningDailyBuyCapMainBoard
      | BoardChiNext \<Rightarrow> RiskWarningDailyBuyCapMainBoard
      | _ \<Rightarrow> RiskWarningDailyBuyCapBSE)"

section \<open>Properties\<close>

end
