(* ===== verification/Tracker.thy ===== *)
theory Tracker
  imports Domain Fees Market
begin

text \<open>
  The backtest portfolio tracker (\<open>src/pkg/backtest/tracker/tracker.go\<close>,
  \<open>src/pkg/backtest/tracker/order_log.go\<close>, trading configuration in
  \<open>src/pkg/backtest/contracts/contracts.go\<close>). The state is the record \<open>Tracker\<close>; each method takes
  the state and returns it, with an error value or a result. Every method runs under the tracker's
  mutex, so a method is one step. \<open>uuid.New\<close> is third-party code: the fresh identifiers are
  arguments. Logging is left out. Go iterates a map in an unspecified order; where the code does so
  without sorting, the order is an argument.
\<close>

section \<open>Configuration and state\<close>

record PriceLimitConfig =
  plNormal :: f64
  plST :: f64
  plSTBefore :: f64
  plNew :: f64

record TradingConfig =
  tcStampTaxRate :: f64
  tcStampTaxRateBefore :: f64
  tcMinCommission :: f64
  tcTransferFeeRate :: f64
  tcPriceLimit :: PriceLimitConfig
  tcNewStockDays :: int

definition DefaultTradingConfig :: TradingConfig where
  "DefaultTradingConfig =
     \<lparr>tcStampTaxRate = DefaultStampTaxRate, tcStampTaxRateBefore = DefaultStampTaxRateBefore,
      tcMinCommission = DefaultMinCommission, tcTransferFeeRate = DefaultTransferFeeRate,
      tcPriceLimit = \<lparr>plNormal = rnd (10 / 100), plST = rnd (10 / 100), plSTBefore = rnd (5 / 100),
                      plNew = rnd (20 / 100)\<rparr>,
      tcNewStockDays = 60\<rparr>"

definition default_if_zero :: "f64 \<Rightarrow> f64 \<Rightarrow> f64" where
  "default_if_zero x d = (if feq x (Fin 0) then d else x)"

definition WithDefaults :: "TradingConfig \<Rightarrow> TradingConfig" where
  "WithDefaults c =
     (let pl = tcPriceLimit c
      in \<lparr>tcStampTaxRate = default_if_zero (tcStampTaxRate c) DefaultStampTaxRate,
          tcStampTaxRateBefore = default_if_zero (tcStampTaxRateBefore c) DefaultStampTaxRateBefore,
          tcMinCommission = default_if_zero (tcMinCommission c) DefaultMinCommission,
          tcTransferFeeRate = default_if_zero (tcTransferFeeRate c) DefaultTransferFeeRate,
          tcPriceLimit =
            \<lparr>plNormal = default_if_zero (plNormal pl) (rnd (10 / 100)),
             plST = default_if_zero (plST pl) (rnd (10 / 100)),
             plSTBefore = default_if_zero (plSTBefore pl) (rnd (5 / 100)),
             plNew = default_if_zero (plNew pl) (rnd (20 / 100))\<rparr>,
          tcNewStockDays = (if tcNewStockDays c = 0 then 60 else tcNewStockDays c)\<rparr>)"

record Tracker =
  tkCash :: f64
  tkPositions :: "Position dict"
  tkInitialCash :: f64
  tkPortfolioValues :: "PortfolioValue list"
  tkTrades :: "Trade list"
  tkEquityCurve :: "PortfolioValue list"
  tkAsOf :: gotime
  tkCommissionRate :: f64
  tkSlippageRate :: f64
  tkLiquidityFactor :: f64
  tkShortSellingRate :: f64
  tkTrading :: TradingConfig
  tkOrderLog :: "Order list"
  tkStockNames :: "string dict"
  tkDailyRWBuy :: "f64 dict"
  tkDailyRWBuyDay :: gotime

definition NewTracker :: "f64 \<Rightarrow> f64 \<Rightarrow> f64 \<Rightarrow> TradingConfig \<Rightarrow> Tracker" where
  "NewTracker initialCapital commissionRate slippageRate trading =
     (let trading = (if feq (tcStampTaxRate trading) (Fin 0) then DefaultTradingConfig else trading)
      in \<lparr>tkCash = initialCapital, tkPositions = fmempty, tkInitialCash = initialCapital,
          tkPortfolioValues = [], tkTrades = [], tkEquityCurve = [], tkAsOf = 0,
          tkCommissionRate = commissionRate, tkSlippageRate = slippageRate,
          tkLiquidityFactor = rnd (1 / 10), tkShortSellingRate = rnd (106 / 1000),
          tkTrading = trading, tkOrderLog = [], tkStockNames = fmempty,
          tkDailyRWBuy = fmempty, tkDailyRWBuyDay = 0\<rparr>)"

definition SetShortSellingRate :: "f64 \<Rightarrow> Tracker \<Rightarrow> Tracker" where
  "SetShortSellingRate rate t = t\<lparr>tkShortSellingRate := rate\<rparr>"

definition SetStockNames :: "string dict \<Rightarrow> Tracker \<Rightarrow> Tracker" where
  "SetStockNames names t = t\<lparr>tkStockNames := names\<rparr>"

definition SetAsOf :: "gotime \<Rightarrow> Tracker \<Rightarrow> Tracker" where
  "SetAsOf date t = t\<lparr>tkAsOf := date\<rparr>"

definition feeSchedule :: "Tracker \<Rightarrow> gotime \<Rightarrow> AShareFees" where
  "feeSchedule t asOf =
     \<lparr>CommissionRate = tkCommissionRate t,
      StampTaxRate = StampTaxRateFor asOf (tcStampTaxRate (tkTrading t)) (tcStampTaxRateBefore (tkTrading t)),
      TransferFeeRate = tcTransferFeeRate (tkTrading t),
      MinCommission = tcMinCommission (tkTrading t),
      SlippageRate = tkSlippageRate t\<rparr>"

text \<open>The package's own \<open>abs\<close>.\<close>

definition go_abs :: "f64 \<Rightarrow> f64" where
  "go_abs x = (if flt x (Fin 0) then fneg x else x)"

definition Record :: "Order \<Rightarrow> Tracker \<Rightarrow> Tracker" where
  "Record ord t = t\<lparr>tkOrderLog := tkOrderLog t @ [ord]\<rparr>"

section \<open>Errors\<close>

datatype trade_error =
    LimitOrderExpired Direction symbol f64
  | InsufficientCash f64 f64
  | RiskWarningCapExceeded symbol f64 f64 f64
  | CannotCloseZero
  | TPlusOneBoughtToday gotime gotime
  | TPlusOneNoShares
  | PositionNotFound symbol
  | InvalidTradeQuantity f64

section \<open>Risk-warning daily buy cap\<close>

definition enforceRiskWarningDailyBuy ::
    "symbol \<Rightarrow> f64 \<Rightarrow> gotime \<Rightarrow> Tracker \<Rightarrow> trade_error option \<times> Tracker" where
  "enforceRiskWarningDailyBuy symb qty asOf t =
     (if fle qty (Fin 0) then (None, t)
      else case fmlookup (tkStockNames t) symb of
          None \<Rightarrow> (None, t)
        | Some name \<Rightarrow>
            if name = [] then (None, t)
            else if \<not> IsRiskWarningName name then (None, t)
            else let capShares = RiskWarningDailyBuyCap symb
                 in if fle capShares (Fin 0) then (None, t)
                    else let day = truncate_day asOf;
                             t = (if day \<noteq> tkDailyRWBuyDay t
                                  then t\<lparr>tkDailyRWBuy := fmempty, tkDailyRWBuyDay := day\<rparr> else t);
                             already = (case fmlookup (tkDailyRWBuy t) symb of None \<Rightarrow> Fin 0 | Some q \<Rightarrow> q)
                         in if flt capShares (fadd already qty)
                            then (Some (RiskWarningCapExceeded symb already qty capShares), t)
                            else (None, t\<lparr>tkDailyRWBuy := fmupd symb (fadd already qty) (tkDailyRWBuy t)\<rparr>))"

section \<open>Executing a trade\<close>

record OrderExecutionOpts =
  optOrderType :: OrderType
  optLimitPrice :: f64
  optDayBar :: "OHLCV option"

text \<open>
  The limit-order check: \<open>None\<close> is an expired order, \<open>Some p\<close> the execution price before slippage.
\<close>

definition limit_fill :: "OrderType \<Rightarrow> Direction \<Rightarrow> f64 \<Rightarrow> f64 \<Rightarrow> OHLCV option \<Rightarrow> f64 option" where
  "limit_fill orderType direction limitPrice price dayBar =
     (case dayBar of
        None \<Rightarrow> Some price
      | Some bar \<Rightarrow>
          (if orderType \<noteq> OrderTypeLimit then Some price
           else if direction = DirectionLong
           then (if fle (barLow bar) limitPrice then Some (fmin limitPrice (barClose bar)) else None)
           else if direction = DirectionShort
           then (if fle limitPrice (barHigh bar) then Some (fmax limitPrice (barClose bar)) else None)
           else None))"

text \<open>The partial fill under the liquidity bound: filled quantity and order status.\<close>

definition liquidity_fill :: "f64 \<Rightarrow> f64 \<Rightarrow> OHLCV option \<Rightarrow> f64 \<times> string" where
  "liquidity_fill factor quantity dayBar =
     (case dayBar of
        None \<Rightarrow> (quantity, ''filled'')
      | Some bar \<Rightarrow>
          (if flt (Fin 0) (barVolume bar) \<and> flt (fmul (barVolume bar) factor) quantity
           then (fmul (barVolume bar) factor, ''partial'')
           else (quantity, ''filled'')))"

definition slippage_price :: "Tracker \<Rightarrow> symbol \<Rightarrow> OrderType \<Rightarrow> Direction \<Rightarrow> f64 \<Rightarrow> f64 \<Rightarrow> f64" where
  "slippage_price t symb orderType direction price executionPrice =
     (if orderType = OrderTypeLimit then executionPrice
      else case direction of
          DirectionLong \<Rightarrow> fmul price (fadd (Fin 1) (tkSlippageRate t))
        | DirectionShort \<Rightarrow> fmul price (fsub (Fin 1) (tkSlippageRate t))
        | DirectionClose \<Rightarrow>
            (case fmlookup (tkPositions t) symb of
               None \<Rightarrow> executionPrice
             | Some pos \<Rightarrow>
                 if flt (Fin 0) (posQuantity pos)
                 then fmul price (fsub (Fin 1) (tkSlippageRate t))
                 else fmul price (fadd (Fin 1) (tkSlippageRate t)))
        | _ \<Rightarrow> executionPrice)"

text \<open>The position after a buy; \<open>None\<close> when the buy exactly offsets a short.\<close>

definition buy_position :: "Position option \<Rightarrow> symbol \<Rightarrow> f64 \<Rightarrow> f64 \<Rightarrow> gotime \<Rightarrow> Position option" where
  "buy_position old symb filledQty executionPrice timestamp =
     (case old of
        Some existing \<Rightarrow>
          (let totalQty = fadd (posQuantity existing) filledQty
           in if IsFlat totalQty then None
              else let today = (if truncate_day (posBuyDate existing) \<noteq> truncate_day timestamp
                                then Fin 0 else posQuantityToday existing)
                   in Some (existing\<lparr>
                        posAvgCost := fdiv (fadd (fmul (posAvgCost existing) (posQuantity existing))
                                                 (fmul executionPrice filledQty)) totalQty,
                        posQuantity := totalQty,
                        posEntryDate := timestamp,
                        posQuantityToday := fadd today filledQty,
                        posBuyDate := timestamp\<rparr>))
      | None \<Rightarrow>
          Some ((zero_Position symb)\<lparr>
            posQuantity := filledQty, posAvgCost := executionPrice, posEntryDate := timestamp,
            posBuyDate := timestamp, posQuantityToday := filledQty\<rparr>))"

definition short_position :: "Position option \<Rightarrow> symbol \<Rightarrow> f64 \<Rightarrow> f64 \<Rightarrow> gotime \<Rightarrow> Position option" where
  "short_position old symb filledQty executionPrice timestamp =
     (case old of
        Some existing \<Rightarrow>
          (let q = fsub (posQuantity existing) filledQty
           in if IsFlat q then None else Some (existing\<lparr>posQuantity := q\<rparr>))
      | None \<Rightarrow>
          Some ((zero_Position symb)\<lparr>
            posQuantity := fneg filledQty, posAvgCost := executionPrice, posEntryDate := timestamp\<rparr>))"

definition put_position :: "symbol \<Rightarrow> Position option \<Rightarrow> Position dict \<Rightarrow> Position dict" where
  "put_position symb p m = (case p of None \<Rightarrow> fmdrop symb m | Some pos \<Rightarrow> fmupd symb pos m)"

text \<open>
  Closing a position: the sellable quantity and the fees of what is really traded, the new position,
  the new cash and the trade record. \<open>quantity\<close> is the requested quantity.
\<close>

definition close_long ::
    "Tracker \<Rightarrow> symbol \<Rightarrow> Position \<Rightarrow> f64 \<Rightarrow> f64 \<Rightarrow> gotime \<Rightarrow> Trade \<Rightarrow> trade_error + (Position \<times> f64 \<times> Trade)" where
  "close_long t symb pos quantity executionPrice timestamp trade =
     (let closeQty = go_abs (posQuantity pos);
          tradeDate = truncate_day timestamp;
          buyDate = truncate_day (posBuyDate pos)
      in if buyDate = tradeDate \<and> feq (posQuantityYesterday pos) (Fin 0)
         then Inl (TPlusOneBoughtToday buyDate tradeDate)
         else let canSell = posQuantityYesterday pos;
                  actualQty = fmin canSell (fmin quantity closeQty)
              in if fle actualQty (Fin 0) then Inl TPlusOneNoShares
                 else let fb = ComputeFees (fmul actualQty executionPrice) True (feeSchedule t timestamp);
                          pnl = fmul (fsub executionPrice (posAvgCost pos)) actualQty
                      in Inr (pos\<lparr>
                                posQuantityYesterday := fsub (posQuantityYesterday pos) actualQty,
                                posRealizedPnL := fadd (posRealizedPnL pos)
                                  (fsub (fsub pnl (Commission fb)) (StampTax fb)),
                                posQuantity := fsub (posQuantity pos) actualQty\<rparr>,
                              fadd (tkCash t) (fsub (fmul actualQty executionPrice) (Total fb)),
                              trade\<lparr>trQuantity := actualQty, trCommission := Commission fb,
                                    trTransferFee := TransferFee fb, trStampTax := StampTax fb\<rparr>))"

definition close_short ::
    "Tracker \<Rightarrow> symbol \<Rightarrow> Position \<Rightarrow> f64 \<Rightarrow> f64 \<Rightarrow> gotime \<Rightarrow> Trade \<Rightarrow> trade_error + (Position \<times> f64 \<times> Trade)" where
  "close_short t symb pos quantity executionPrice timestamp trade =
     (let actualQty = fmin quantity (go_abs (posQuantity pos))
      in if fle actualQty (Fin 0) then Inl CannotCloseZero
         else let fb = ComputeFees (fmul actualQty executionPrice) False (feeSchedule t timestamp);
                  pnl = fmul (fsub (posAvgCost pos) executionPrice) actualQty
              in Inr (pos\<lparr>
                        posRealizedPnL := fadd (posRealizedPnL pos)
                          (fsub (fsub pnl (Commission fb)) (TransferFee fb)),
                        posQuantity := fadd (posQuantity pos) actualQty\<rparr>,
                      fadd (tkCash t) (fsub (fsub (fmul actualQty executionPrice) (Commission fb)) (TransferFee fb)),
                      trade\<lparr>trQuantity := actualQty, trCommission := Commission fb,
                            trTransferFee := TransferFee fb\<rparr>))"

definition close_position ::
    "Tracker \<Rightarrow> symbol \<Rightarrow> f64 \<Rightarrow> f64 \<Rightarrow> gotime \<Rightarrow> Trade \<Rightarrow> (trade_error + Trade) \<times> Tracker" where
  "close_position t symb quantity executionPrice timestamp trade =
     (case fmlookup (tkPositions t) symb of
        None \<Rightarrow> (Inl (PositionNotFound symb), t)
      | Some pos \<Rightarrow>
          (if fle (go_abs (posQuantity pos)) (Fin 0) then (Inl CannotCloseZero, t)
           else case (if flt (Fin 0) (posQuantity pos)
                      then close_long t symb pos quantity executionPrice timestamp trade
                      else close_short t symb pos quantity executionPrice timestamp trade) of
               Inl e \<Rightarrow> (Inl e, t)
             | Inr (pos', cash', trade') \<Rightarrow>
                 (Inr trade',
                  t\<lparr>tkCash := cash',
                    tkPositions := (if IsFlat (posQuantity pos') then fmdrop symb (tkPositions t)
                                    else fmupd symb pos' (tkPositions t))\<rparr>)))"

definition mark_position :: "symbol \<Rightarrow> f64 \<Rightarrow> Tracker \<Rightarrow> Tracker" where
  "mark_position symb price t =
     (case fmlookup (tkPositions t) symb of
        None \<Rightarrow> t
      | Some pos \<Rightarrow>
          t\<lparr>tkPositions := fmupd symb (pos\<lparr>
             posMarketValue := fmul (go_abs (posQuantity pos)) price,
             posCurrentPrice := price,
             posUnrealizedPnL := fmul (fsub price (posAvgCost pos)) (posQuantity pos)\<rparr>) (tkPositions t)\<rparr>)"

definition buy_step ::
    "Tracker \<Rightarrow> symbol \<Rightarrow> f64 \<Rightarrow> f64 \<Rightarrow> f64 \<Rightarrow> gotime \<Rightarrow> Trade \<Rightarrow> (trade_error + Trade) \<times> Tracker" where
  "buy_step t symb qty executionPrice cost timestamp trade =
     (if flt (tkCash t) cost then (Inl (InsufficientCash cost (tkCash t)), t)
      else case enforceRiskWarningDailyBuy symb qty timestamp t of
          (Some e, t) \<Rightarrow> (Inl e, t)
        | (None, t) \<Rightarrow>
            (Inr trade,
             t\<lparr>tkCash := fsub (tkCash t) cost,
               tkPositions := put_position symb
                 (buy_position (fmlookup (tkPositions t) symb) symb qty executionPrice timestamp)
                 (tkPositions t)\<rparr>))"

definition short_step ::
    "Tracker \<Rightarrow> symbol \<Rightarrow> f64 \<Rightarrow> f64 \<Rightarrow> f64 \<Rightarrow> gotime \<Rightarrow> Trade \<Rightarrow> (trade_error + Trade) \<times> Tracker" where
  "short_step t symb qty executionPrice proceeds timestamp trade =
     (Inr trade,
      t\<lparr>tkCash := fadd (tkCash t) proceeds,
        tkPositions := put_position symb
          (short_position (fmlookup (tkPositions t) symb) symb qty executionPrice timestamp)
          (tkPositions t)\<rparr>)"

text \<open>The switch on the direction, shared by the two order entry points.\<close>

definition trade_step ::
    "Tracker \<Rightarrow> Direction \<Rightarrow> symbol \<Rightarrow> f64 \<Rightarrow> f64 \<Rightarrow> f64 \<Rightarrow> f64 \<Rightarrow> f64 \<Rightarrow> gotime \<Rightarrow> Trade \<Rightarrow>
     (trade_error + Trade) \<times> Tracker" where
  "trade_step t direction symb filledQty quantity executionPrice cost proceeds timestamp trade =
     (case direction of
        DirectionLong \<Rightarrow> buy_step t symb filledQty executionPrice cost timestamp trade
      | DirectionShort \<Rightarrow> short_step t symb filledQty executionPrice proceeds timestamp trade
      | DirectionClose \<Rightarrow> close_position t symb quantity executionPrice timestamp trade
      | _ \<Rightarrow> (Inr trade, t))"

text \<open>What follows the switch: the position is marked at a price and the trade is recorded.\<close>

definition book_trade :: "symbol \<Rightarrow> f64 \<Rightarrow> Trade \<Rightarrow> Tracker \<Rightarrow> Tracker" where
  "book_trade symb price trade t =
     (let t = mark_position symb price t in t\<lparr>tkTrades := tkTrades t @ [trade]\<rparr>)"

definition make_order ::
    "string \<Rightarrow> symbol \<Rightarrow> Direction \<Rightarrow> OrderType \<Rightarrow> f64 \<Rightarrow> f64 \<Rightarrow> gotime \<Rightarrow> f64 \<Rightarrow> f64 \<Rightarrow> string \<Rightarrow> Order" where
  "make_order oid symb direction orderType quantity limitPrice timestamp filledQty fillPrice status =
     \<lparr>ordID = oid, ordSymbol = symb, ordDirection = direction, ordOrderType = orderType,
      ordQuantity = quantity, ordLimitPrice = limitPrice, ordStopPrice = Fin 0, ordTrailAmount = Fin 0,
      ordTrailPercent = Fin 0, ordHighWaterMark = Fin 0, ordTimestamp = timestamp,
      ordFilledQty = filledQty, ordFillPrice = fillPrice, ordStatus = status\<rparr>"

definition ExecuteTrade ::
    "string \<Rightarrow> string \<Rightarrow> symbol \<Rightarrow> Direction \<Rightarrow> f64 \<Rightarrow> f64 \<Rightarrow> gotime \<Rightarrow> OrderExecutionOpts option \<Rightarrow> Tracker \<Rightarrow>
     (trade_error + Trade) \<times> Tracker" where
  "ExecuteTrade tid oid symb direction quantity price timestamp opts t =
     (let orderType = (case opts of None \<Rightarrow> OrderTypeMarket | Some opt \<Rightarrow> optOrderType opt);
          limitPrice = (case opts of None \<Rightarrow> price | Some opt \<Rightarrow> optLimitPrice opt);
          dayBar = (case opts of None \<Rightarrow> None | Some opt \<Rightarrow> optDayBar opt)
      in case limit_fill orderType direction limitPrice price dayBar of
          None \<Rightarrow>
            (Inl (LimitOrderExpired direction symb limitPrice),
             Record (make_order oid symb direction orderType quantity limitPrice timestamp
                       (Fin 0) (Fin 0) ''expired'') t)
        | Some limitFillPrice \<Rightarrow>
            (let (filledQty, orderStatus) = liquidity_fill (tkLiquidityFactor t) quantity dayBar;
                 executionPrice = slippage_price t symb orderType direction price limitFillPrice;
                 tradeValue = fmul filledQty executionPrice;
                 isSell = (direction = DirectionClose \<or> direction = DirectionShort);
                 fb = ComputeFees tradeValue isSell (feeSchedule t timestamp);
                 trade = \<lparr>trID = tid, trSymbol = symb, trDirection = direction, trQuantity = filledQty,
                          trPrice = executionPrice, trCommission = Commission fb,
                          trTransferFee = TransferFee fb, trStampTax = StampTax fb,
                          trTimestamp = timestamp, trPendingQty = fsub quantity filledQty,
                          trFilledQty = filledQty\<rparr>;
                 r = trade_step t direction symb filledQty quantity executionPrice
                       (fadd tradeValue (Total fb)) (fsub tradeValue (Total fb)) timestamp trade
             in case r of
                 (Inl e, t) \<Rightarrow> (Inl e, t)
               | (Inr trade, t) \<Rightarrow>
                   (Inr trade,
                    Record (make_order oid symb direction orderType quantity limitPrice timestamp
                              filledQty executionPrice orderStatus) (book_trade symb price trade t))))"

text \<open>A trade priced elsewhere (the production path through the execution service).\<close>

definition ApplyTrade :: "Trade \<Rightarrow> Tracker \<Rightarrow> (trade_error + Trade) \<times> Tracker" where
  "ApplyTrade trade t =
     (let symb = trSymbol trade; quantity = trQuantity trade; executionPrice = trPrice trade;
          commission = trCommission trade; transferFee = trTransferFee trade; timestamp = trTimestamp trade
      in if fle quantity (Fin 0) then (Inl (InvalidTradeQuantity quantity), t)
         else let tradeValue = fmul quantity executionPrice;
                  r = trade_step t (trDirection trade) symb quantity quantity executionPrice
                        (fadd (fadd tradeValue commission) transferFee)
                        (fsub (fsub tradeValue commission) transferFee) timestamp trade
              in case r of
                  (Inl e, t) \<Rightarrow> (Inl e, t)
                | (Inr trade, t) \<Rightarrow> (Inr trade, book_trade symb executionPrice trade t))"

section \<open>Corporate actions\<close>

definition ProcessDividend :: "symbol \<Rightarrow> Dividend \<Rightarrow> Tracker \<Rightarrow> Tracker" where
  "ProcessDividend symb dividend t =
     (case fmlookup (tkPositions t) symb of
        None \<Rightarrow> t
      | Some pos \<Rightarrow>
          (if fle (posQuantity pos) (Fin 0) then t
           else t\<lparr>tkCash := fadd (tkCash t) (fmul (posQuantity pos) (DivAmt dividend))\<rparr>))"

definition ProcessSplit :: "symbol \<Rightarrow> Split \<Rightarrow> Tracker \<Rightarrow> Tracker" where
  "ProcessSplit symb split t =
     (case fmlookup (tkPositions t) symb of
        None \<Rightarrow> t
      | Some pos \<Rightarrow>
          (if fle (posQuantity pos) (Fin 0) then t
           else let oldQty = posQuantity pos; oldCost = posAvgCost pos;
                    pos' = (if flt (Fin 0) (StkDivRatio split)
                            then let additionalShares = fmul oldQty (StkDivRatio split);
                                     q = fadd oldQty additionalShares
                                 in pos\<lparr>posQuantity := q,
                                       posAvgCost := fdiv (fmul oldCost oldQty) q,
                                       posQuantityToday := fadd (posQuantityToday pos) additionalShares\<rparr>
                            else pos);
                    cash' = (if flt (Fin 0) (CashDivRatio split)
                             then fadd (tkCash t) (fmul oldQty (CashDivRatio split)) else tkCash t)
                in t\<lparr>tkPositions := fmupd symb pos' (tkPositions t), tkCash := cash'\<rparr>))"

section \<open>End of day\<close>

definition rollover_position :: "Position \<Rightarrow> Position" where
  "rollover_position pos =
     (if flt (Fin 0) (posQuantityToday pos)
      then pos\<lparr>posQuantityYesterday := fadd (posQuantityYesterday pos) (posQuantityToday pos),
               posQuantityToday := Fin 0\<rparr>
      else pos)"

definition lending_cost :: "f64 \<Rightarrow> Position \<Rightarrow> f64" where
  "lending_cost dailyRate pos =
     (let price = (if fle (posCurrentPrice pos) (Fin 0) then posAvgCost pos else posCurrentPrice pos)
      in fmul (fmul (go_abs (posQuantity pos)) price) dailyRate)"

text \<open>One iteration of the accrual loop, on the key \<open>symb\<close>.\<close>

definition accrue :: "Position dict \<Rightarrow> f64 \<Rightarrow> symbol \<Rightarrow> f64 \<Rightarrow> f64" where
  "accrue positions dailyRate symb cash =
     (case fmlookup positions symb of
        None \<Rightarrow> cash
      | Some pos \<Rightarrow>
          (if fle (Fin 0) (posQuantity pos) then cash else fsub cash (lending_cost dailyRate pos)))"

text \<open>
  Both loops range over the map. The first one touches each position by itself; the second one adds
  up in the order \<open>order\<close>, which Go leaves unspecified.
\<close>

definition AdvanceDay :: "symbol list \<Rightarrow> Tracker \<Rightarrow> Tracker" where
  "AdvanceDay order t =
     (let t = t\<lparr>tkPositions := fmmap rollover_position (tkPositions t)\<rparr>
      in if fle (tkShortSellingRate t) (Fin 0) then t
         else let dailyRate = fdiv (tkShortSellingRate t) (rnd 252)
              in t\<lparr>tkCash := fold (accrue (tkPositions t) dailyRate) order (tkCash t)\<rparr>)"

section \<open>Valuation\<close>

definition gpv_mark :: "f64 dict \<Rightarrow> symbol \<Rightarrow> Position \<Rightarrow> Position" where
  "gpv_mark prices symb pos =
     (case fmlookup prices symb of
        None \<Rightarrow> pos
      | Some price \<Rightarrow>
          pos\<lparr>posMarketValue := fmul (posQuantity pos) price, posCurrentPrice := price,
              posUnrealizedPnL := fmul (fsub price (posAvgCost pos)) (posQuantity pos)\<rparr>)"

definition gpv_add :: "Position dict \<Rightarrow> f64 dict \<Rightarrow> symbol \<Rightarrow> f64 \<Rightarrow> f64" where
  "gpv_add positions prices symb acc =
     (case (fmlookup positions symb, fmlookup prices symb) of
        (Some pos, Some price) \<Rightarrow> fadd acc (fmul (posQuantity pos) price)
      | _ \<Rightarrow> acc)"

definition GetPortfolioValue :: "f64 dict \<Rightarrow> Tracker \<Rightarrow> f64 \<times> Tracker" where
  "GetPortfolioValue prices t =
     (fold (gpv_add (tkPositions t) prices) (sorted_keys (tkPositions t)) (tkCash t),
      t\<lparr>tkPositions := fmmap_keys (gpv_mark prices) (tkPositions t)\<rparr>)"

definition mtm :: "f64 \<Rightarrow> Position \<Rightarrow> Position" where
  "mtm price pos =
     pos\<lparr>posCurrentPrice := price, posMarketValue := fmul (go_abs (posQuantity pos)) price,
         posUnrealizedPnL := fmul (fsub price (posAvgCost pos)) (posQuantity pos)\<rparr>"

text \<open>Adds a marked position to a running total: long positions add, others subtract.\<close>

definition add_signed :: "Position \<Rightarrow> f64 \<Rightarrow> f64" where
  "add_signed pos acc =
     (if flt (Fin 0) (posQuantity pos) then fadd acc (posMarketValue pos)
      else fsub acc (posMarketValue pos))"

definition rdv_add :: "Position dict \<Rightarrow> f64 dict \<Rightarrow> symbol \<Rightarrow> f64 \<Rightarrow> f64" where
  "rdv_add positions prices symb acc =
     (case (fmlookup positions symb, fmlookup prices symb) of
        (Some pos, Some price) \<Rightarrow> add_signed (mtm price pos) acc
      | _ \<Rightarrow> acc)"

definition RecordDailyValue :: "gotime \<Rightarrow> f64 dict \<Rightarrow> Tracker \<Rightarrow> PortfolioValue \<times> Tracker" where
  "RecordDailyValue date prices t =
     (let positionsValue = fold (rdv_add (tkPositions t) prices) (sorted_keys (tkPositions t)) (Fin 0);
          pv = \<lparr>pvDate = date, pvTotalValue = fadd (tkCash t) positionsValue, pvCash = tkCash t,
                pvPositions = positionsValue\<rparr>
      in (pv, t\<lparr>tkPositions := fmmap_keys (\<lambda>s pos. case fmlookup prices s of
                    None \<Rightarrow> pos | Some price \<Rightarrow> mtm price pos) (tkPositions t),
                tkPortfolioValues := tkPortfolioValues t @ [pv],
                tkEquityCurve := tkEquityCurve t @ [pv]\<rparr>))"

text \<open>\<open>now\<close> is the wall clock, read only when no backtest date is set.\<close>

definition GetPortfolio :: "gotime \<Rightarrow> f64 dict \<Rightarrow> Tracker \<Rightarrow> Portfolio" where
  "GetPortfolio now prices t =
     (let positions = fmmap_keys (\<lambda>s pos. case fmlookup prices s of
                          None \<Rightarrow> pos | Some price \<Rightarrow> mtm price pos)
                        (fmfilter (\<lambda>s. fmlookup prices s \<noteq> None) (tkPositions t));
          totalValue = fold (\<lambda>s acc. case fmlookup positions s of
                         None \<Rightarrow> acc | Some pos \<Rightarrow> add_signed pos acc)
                       (sorted_keys positions) (tkCash t)
      in \<lparr>pfCash = tkCash t, pfPositions = positions, pfTotalValue = totalValue,
          pfUpdatedAt = (if is_zero_time (tkAsOf t) then now else tkAsOf t)\<rparr>)"

section \<open>Closing, queries, reset\<close>

definition ClosePosition ::
    "string \<Rightarrow> string \<Rightarrow> symbol \<Rightarrow> f64 \<Rightarrow> gotime \<Rightarrow> Tracker \<Rightarrow> (trade_error + Trade) \<times> Tracker" where
  "ClosePosition tid oid symb price timestamp t =
     (case fmlookup (tkPositions t) symb of
        None \<Rightarrow> (Inl (PositionNotFound symb), t)
      | Some pos \<Rightarrow>
          ExecuteTrade tid oid symb DirectionClose (go_abs (posQuantity pos)) price timestamp None t)"

definition GetPosition :: "symbol \<Rightarrow> Tracker \<Rightarrow> Position option" where
  "GetPosition symb t = fmlookup (tkPositions t) symb"

definition HasPosition :: "symbol \<Rightarrow> Tracker \<Rightarrow> bool" where
  "HasPosition symb t =
     (case fmlookup (tkPositions t) symb of None \<Rightarrow> False | Some pos \<Rightarrow> \<not> IsFlat (posQuantity pos))"

definition Reset :: "f64 \<Rightarrow> Tracker \<Rightarrow> Tracker" where
  "Reset initialCapital t =
     t\<lparr>tkCash := initialCapital, tkInitialCash := initialCapital, tkPositions := fmempty,
       tkPortfolioValues := [], tkTrades := [], tkEquityCurve := [], tkAsOf := 0\<rparr>"

section \<open>A concrete account\<close>

definition sample_config :: TradingConfig where
  "sample_config =
     \<lparr>tcStampTaxRate = Fin (1 / 512), tcStampTaxRateBefore = Fin (1 / 256), tcMinCommission = Fin 5,
      tcTransferFeeRate = Fin (1 / 65536),
      tcPriceLimit = \<lparr>plNormal = Fin (1 / 8), plST = Fin (1 / 8), plSTBefore = Fin (1 / 16), plNew = Fin (1 / 4)\<rparr>,
      tcNewStockDays = 60\<rparr>"

definition sample_tracker :: Tracker where
  "sample_tracker = NewTracker (Fin 65536) (Fin (1 / 1024)) (Fin (1 / 128)) sample_config"

definition sample_day :: gotime where
  "sample_day = 738800 * day_ns"

definition sample_trade :: "Direction \<Rightarrow> int \<Rightarrow> gotime \<Rightarrow> Trade" where
  "sample_trade dir n ts =
     \<lparr>trID = ''t'', trSymbol = ''600000.SH'', trDirection = dir, trQuantity = Fin (of_int n),
      trPrice = Fin 8, trCommission = Fin 5, trTransferFee = Fin 0, trStampTax = Fin 0, trTimestamp = ts,
      trPendingQty = Fin 0, trFilledQty = Fin (of_int n)\<rparr>"

section \<open>Rejected orders\<close>

lemma enforce_frame:
  assumes "enforceRiskWarningDailyBuy symb qty asOf t = (r, t')"
  obtains m d where "t' = t\<lparr>tkDailyRWBuy := m, tkDailyRWBuyDay := d\<rparr>"
proof -
  have "\<exists>m d. t' = t\<lparr>tkDailyRWBuy := m, tkDailyRWBuyDay := d\<rparr>"
    using assms
    by (cases t) (auto simp: enforceRiskWarningDailyBuy_def Let_def split: if_splits option.splits)
  with that show thesis by blast
qed

lemma buy_step_Inl:
  assumes "buy_step t symb qty ep cost ts trade = (Inl e, t')"
  obtains m d where "t' = t\<lparr>tkDailyRWBuy := m, tkDailyRWBuyDay := d\<rparr>"
proof (cases "flt (tkCash t) cost")
  case True
  with assms have "t' = t\<lparr>tkDailyRWBuy := tkDailyRWBuy t, tkDailyRWBuyDay := tkDailyRWBuyDay t\<rparr>"
    by (cases t) (simp add: buy_step_def)
  then show ?thesis by (rule that)
next
  case False
  with assms have "enforceRiskWarningDailyBuy symb qty ts t = (Some e, t')"
    by (auto simp: buy_step_def split: prod.splits option.splits)
  then show ?thesis using that by (rule enforce_frame)
qed

lemma buy_step_Inr:
  assumes "buy_step t symb qty ep cost ts trade = (Inr trade', t')"
  obtains m d where "\<not> flt (tkCash t) cost" "trade' = trade"
    "enforceRiskWarningDailyBuy symb qty ts t = (None, t\<lparr>tkDailyRWBuy := m, tkDailyRWBuyDay := d\<rparr>)"
    "t' = t\<lparr>tkDailyRWBuy := m, tkDailyRWBuyDay := d, tkCash := fsub (tkCash t) cost,
             tkPositions := put_position symb (buy_position (fmlookup (tkPositions t) symb) symb qty ep ts) (tkPositions t)\<rparr>"
proof -
  from assms have c: "\<not> flt (tkCash t) cost" and tr: "trade' = trade"
    by (auto simp: buy_step_def split: if_splits prod.splits option.splits)
  obtain r t1 where e: "enforceRiskWarningDailyBuy symb qty ts t = (r, t1)" by fastforce
  with assms c have r: "r = None" by (auto simp: buy_step_def split: option.splits)
  from enforce_frame [OF e] obtain m d where t1: "t1 = t\<lparr>tkDailyRWBuy := m, tkDailyRWBuyDay := d\<rparr>" .
  show thesis by (rule that [OF c tr]) (use assms c e r t1 in \<open>auto simp: buy_step_def\<close>)
qed

lemma close_position_Inl:
  "close_position t symb q ep ts trade = (Inl e, t') \<Longrightarrow> t' = t"
  by (auto simp: close_position_def split: option.splits if_splits sum.splits prod.splits)

lemma trade_step_Inl:
  assumes "trade_step t dir symb fq q ep cost pro ts trade = (Inl e, t')"
  obtains m d where "t' = t\<lparr>tkDailyRWBuy := m, tkDailyRWBuyDay := d\<rparr>"
proof (cases dir)
  case DirectionLong
  with assms have "buy_step t symb fq ep cost ts trade = (Inl e, t')" by (simp add: trade_step_def)
  then show ?thesis using that by (rule buy_step_Inl)
next
  case DirectionClose
  with assms have "t' = t" by (auto simp: trade_step_def dest: close_position_Inl)
  then have "t' = t\<lparr>tkDailyRWBuy := tkDailyRWBuy t, tkDailyRWBuyDay := tkDailyRWBuyDay t\<rparr>"
    by (cases t) simp
  then show ?thesis by (rule that)
qed (use assms in \<open>simp_all add: trade_step_def short_step_def\<close>)

lemma trade_step_not_expired: "trade_step t dir symb fq q ep cost pro ts trade \<noteq> (Inl (LimitOrderExpired a b c), t')"
  by (auto simp: trade_step_def buy_step_def short_step_def close_position_def close_long_def close_short_def
      enforceRiskWarningDailyBuy_def Let_def split: Direction.splits option.splits if_splits sum.splits prod.splits)

lemma ExecuteTrade_Inl:
  assumes "ExecuteTrade tid oid symb dir q p ts opts t = (Inl e, t')"
  obtains (expired) l ord where "e = LimitOrderExpired dir symb l" "t' = Record ord t"
      "ordStatus ord = ''expired''" "ordFilledQty ord = Fin 0"
    | (refused) m d where "\<nexists>l. e = LimitOrderExpired dir symb l"
      "t' = t\<lparr>tkDailyRWBuy := m, tkDailyRWBuyDay := d\<rparr>"
proof (cases "limit_fill (case opts of None \<Rightarrow> OrderTypeMarket | Some opt \<Rightarrow> optOrderType opt) dir
                 (case opts of None \<Rightarrow> p | Some opt \<Rightarrow> optLimitPrice opt) p
                 (case opts of None \<Rightarrow> None | Some opt \<Rightarrow> optDayBar opt)")
  case None
  with assms show ?thesis by (intro expired) (auto simp: ExecuteTrade_def Let_def make_order_def)
next
  case (Some ep)
  with assms obtain fq ep' cost pro trade where
    step: "trade_step t dir symb fq q ep' cost pro ts trade = (Inl e, t')"
    by (auto simp: ExecuteTrade_def Let_def split: prod.splits sum.splits)
  then have "\<nexists>l. e = LimitOrderExpired dir symb l"
    by (metis trade_step_not_expired)
  with step show ?thesis by (cases rule: trade_step_Inl) (rule refused)
qed

lemma ApplyTrade_Inl:
  assumes "ApplyTrade trade t = (Inl e, t')"
  obtains m d where "t' = t\<lparr>tkDailyRWBuy := m, tkDailyRWBuyDay := d\<rparr>"
proof (cases "fle (trQuantity trade) (Fin 0)")
  case True
  with assms have "t' = t\<lparr>tkDailyRWBuy := tkDailyRWBuy t, tkDailyRWBuyDay := tkDailyRWBuyDay t\<rparr>"
    by (cases t) (simp add: ApplyTrade_def)
  then show ?thesis by (rule that)
next
  case False
  with assms obtain cost pro where
    "trade_step t (trDirection trade) (trSymbol trade) (trQuantity trade) (trQuantity trade) (trPrice trade)
       cost pro (trTimestamp trade) trade = (Inl e, t')"
    by (auto simp: ApplyTrade_def Let_def split: prod.splits sum.splits)
  then show ?thesis using that by (rule trade_step_Inl)
qed

lemma ExecuteTrade_rejected:
  assumes "ExecuteTrade tid oid symb dir q p ts opts t = (Inl e, t')"
  shows "tkCash t' = tkCash t \<and> tkPositions t' = tkPositions t \<and> tkTrades t' = tkTrades t \<and>
         tkPortfolioValues t' = tkPortfolioValues t \<and>
         (if \<exists>l. e = LimitOrderExpired dir symb l
          then (\<exists>ord. tkOrderLog t' = tkOrderLog t @ [ord] \<and> ordStatus ord = ''expired'' \<and> ordFilledQty ord = Fin 0)
          else tkOrderLog t' = tkOrderLog t)"
  using assms by (cases rule: ExecuteTrade_Inl) (auto simp: Record_def)

lemma ApplyTrade_rejected:
  assumes "ApplyTrade trade t = (Inl e, t')"
  shows "tkCash t' = tkCash t \<and> tkPositions t' = tkPositions t \<and> tkTrades t' = tkTrades t \<and>
         tkPortfolioValues t' = tkPortfolioValues t \<and> tkOrderLog t' = tkOrderLog t"
  using assms by (cases rule: ApplyTrade_Inl) auto



section \<open>Cash\<close>

lemma mark_position_frame [simp]:
  "tkCash (mark_position symb p t) = tkCash t" "tkTrades (mark_position symb p t) = tkTrades t"
  "tkOrderLog (mark_position symb p t) = tkOrderLog t"
  "tkDailyRWBuy (mark_position symb p t) = tkDailyRWBuy t"
  "tkDailyRWBuyDay (mark_position symb p t) = tkDailyRWBuyDay t"
  "tkStockNames (mark_position symb p t) = tkStockNames t"
  by (simp_all add: mark_position_def split: option.split)

lemma book_trade_frame [simp]:
  "tkCash (book_trade symb p trade t) = tkCash t"
  "tkTrades (book_trade symb p trade t) = tkTrades t @ [trade]"
  "tkOrderLog (book_trade symb p trade t) = tkOrderLog t"
  "tkDailyRWBuy (book_trade symb p trade t) = tkDailyRWBuy t"
  "tkDailyRWBuyDay (book_trade symb p trade t) = tkDailyRWBuyDay t"
  "tkStockNames (book_trade symb p trade t) = tkStockNames t"
  "tkPositions (book_trade symb p trade t) = tkPositions (mark_position symb p t)"
  by (simp_all add: book_trade_def)

lemma Record_frame [simp]:
  "tkCash (Record ord t) = tkCash t" "tkPositions (Record ord t) = tkPositions t"
  "tkTrades (Record ord t) = tkTrades t" "tkDailyRWBuy (Record ord t) = tkDailyRWBuy t"
  "tkDailyRWBuyDay (Record ord t) = tkDailyRWBuyDay t" "tkStockNames (Record ord t) = tkStockNames t"
  by (simp_all add: Record_def)

lemma ExecuteTrade_long:
  assumes "ExecuteTrade tid oid symb DirectionLong q p ts opts t = (Inr tr, t')"
  obtains ord t1 where
    "buy_step t symb (trQuantity tr) (trPrice tr)
       (fadd (fmul (trQuantity tr) (trPrice tr))
             (Total (ComputeFees (fmul (trQuantity tr) (trPrice tr)) False (feeSchedule t ts)))) ts tr = (Inr tr, t1)"
    "t' = Record ord (book_trade symb p tr t1)"
proof -
  from assms obtain fq ep trade ord t1 where
    b: "buy_step t symb fq ep (fadd (fmul fq ep) (Total (ComputeFees (fmul fq ep) False (feeSchedule t ts)))) ts trade
          = (Inr tr, t1)"
    and tr: "trQuantity trade = fq" "trPrice trade = ep" and t': "t' = Record ord (book_trade symb p tr t1)"
    by (auto simp: ExecuteTrade_def Let_def trade_step_def split: option.splits prod.splits sum.splits)
  from b have "tr = trade" by (auto elim: buy_step_Inr)
  with b tr t' show thesis by (auto intro: that)
qed

lemma ApplyTrade_Inr:
  assumes "ApplyTrade trade t = (Inr tr, t')"
  obtains t1 where
    "trade_step t (trDirection trade) (trSymbol trade) (trQuantity trade) (trQuantity trade) (trPrice trade)
       (fadd (fadd (fmul (trQuantity trade) (trPrice trade)) (trCommission trade)) (trTransferFee trade))
       (fsub (fsub (fmul (trQuantity trade) (trPrice trade)) (trCommission trade)) (trTransferFee trade))
       (trTimestamp trade) trade = (Inr tr, t1)"
    "t' = book_trade (trSymbol trade) (trPrice trade) tr t1" "\<not> fle (trQuantity trade) (Fin 0)"
  using assms by (auto simp: ApplyTrade_def Let_def split: if_splits prod.splits sum.splits)

lemma fsub_le:
  assumes "is_fin a" "f64_wf a" "fle (Fin 0) b" "fle b a"
  shows "fle (fsub a b) a"
proof -
  have b: "is_fin b" using assms by (cases a; cases b) (auto simp: fle_def)
  have v: "0 \<le> valof b" "valof b \<le> valof a" using assms b by (auto simp: fle_fin)
  have "\<bar>valof a\<bar> < overflow_bound" "rnd_rat (valof a) = valof a" using assms(2) by (auto simp: f64_wf_def)
  with v have r: "rnd_rat (valof a - valof b) \<le> valof a" "0 \<le> rnd_rat (valof a - valof b)"
    by (auto intro: r64.le_fixed r64.nonneg)
  show ?thesis
    using assms(1) b r \<open>\<bar>valof a\<bar> < overflow_bound\<close> v
    by (auto simp: fsub_fin rnd_def f64_of_def Let_def fle_fin)
qed

lemma buy_step_cash:
  assumes "buy_step t symb q ep cost ts trade = (Inr tr, t')"
    and "is_fin (tkCash t)" "f64_wf (tkCash t)" "fle (Fin 0) cost"
  shows "tkCash t' = fsub (tkCash t) cost \<and> fle cost (tkCash t) \<and> fle (Fin 0) (tkCash t') \<and> fle (tkCash t') (tkCash t)"
proof -
  from assms(1) have c: "\<not> flt (tkCash t) cost" "tkCash t' = fsub (tkCash t) cost"
    by (auto elim: buy_step_Inr)
  have "cost \<noteq> NaN" using assms(4) by (auto simp: fle_def)
  with c(1) assms(2) have "fle cost (tkCash t)" by (simp add: not_flt_iff is_fin_not_NaN)
  with c(2) assms(2-) show ?thesis by (simp add: fsub_nonneg fsub_le)
qed

text \<open>
  C14: A buy that \<open>ExecuteTrade\<close> accepts pays exactly the trade value plus the fees of the schedule in
  force, never more than the cash at hand: the cash stays non-negative and does not grow.
\<close>

theorem ExecuteTrade_buy_cash:
  assumes "ExecuteTrade tid oid symb DirectionLong q p ts opts t = (Inr tr, t')"
    and "is_fin (tkCash t)" "f64_wf (tkCash t)" "fees_ok (feeSchedule t ts)"
    and "is_fin (fmul (trQuantity tr) (trPrice tr))" "fle (Fin 0) (fmul (trQuantity tr) (trPrice tr))"
  shows "tkCash t' = fsub (tkCash t) (fadd (fmul (trQuantity tr) (trPrice tr))
             (Total (ComputeFees (fmul (trQuantity tr) (trPrice tr)) False (feeSchedule t ts)))) \<and>
         fle (Fin 0) (tkCash t') \<and> fle (tkCash t') (tkCash t)"
proof -
  from assms(1) obtain ord t1 where b: "buy_step t symb (trQuantity tr) (trPrice tr)
       (fadd (fmul (trQuantity tr) (trPrice tr))
             (Total (ComputeFees (fmul (trQuantity tr) (trPrice tr)) False (feeSchedule t ts)))) ts tr = (Inr tr, t1)"
    "t' = Record ord (book_trade symb p tr t1)" by (rule ExecuteTrade_long)
  have "fle (Fin 0) (fadd (fmul (trQuantity tr) (trPrice tr))
             (Total (ComputeFees (fmul (trQuantity tr) (trPrice tr)) False (feeSchedule t ts))))"
    by (intro fadd_nonneg assms(6) compute_fees_total_nonneg assms(4,5))
  note cash = buy_step_cash [OF b(1) assms(2,3) this]
  have eq: "tkCash t' = tkCash t1" by (simp add: b(2))
  show ?thesis unfolding eq using cash by blast
qed

text \<open>
  A buy that \<open>ApplyTrade\<close> accepts never overdraws: with non-negative trade value and fees, the
  cash after it is non-negative and at most the cash before it.
\<close>

lemma ApplyTrade_buy_cash:
  assumes "ApplyTrade trade t = (Inr tr, t')" "trDirection trade = DirectionLong"
    and "is_fin (tkCash t)" "f64_wf (tkCash t)"
    and "fle (Fin 0) (fmul (trQuantity trade) (trPrice trade))"
    and "fle (Fin 0) (trCommission trade)" "fle (Fin 0) (trTransferFee trade)"
  shows "fle (Fin 0) (tkCash t') \<and> fle (tkCash t') (tkCash t)"
proof -
  from assms(1) obtain t1 where t1: "trade_step t (trDirection trade) (trSymbol trade) (trQuantity trade) (trQuantity trade) (trPrice trade)
       (fadd (fadd (fmul (trQuantity trade) (trPrice trade)) (trCommission trade)) (trTransferFee trade))
       (fsub (fsub (fmul (trQuantity trade) (trPrice trade)) (trCommission trade)) (trTransferFee trade))
       (trTimestamp trade) trade = (Inr tr, t1)"
    "t' = book_trade (trSymbol trade) (trPrice trade) tr t1" by (rule ApplyTrade_Inr)
  have "fle (Fin 0) (fadd (fadd (fmul (trQuantity trade) (trPrice trade)) (trCommission trade)) (trTransferFee trade))"
    by (intro fadd_nonneg assms)
  note cash = buy_step_cash [OF t1(1) [unfolded trade_step_def assms(2) Direction.case] assms(3,4) this]
  have eq: "tkCash t' = tkCash t1" by (simp add: t1(2))
  show ?thesis unfolding eq using cash by blast
qed

lemma sample_tracker_cash: "tkCash sample_tracker = Fin 65536"
  by (simp add: sample_tracker_def NewTracker_def Let_def)

lemma sample_cash_wf: "f64_wf (Fin 65536)"
  by code_simp

lemma sample_fee_schedule: "fees_ok (feeSchedule sample_tracker sample_day)"
  by code_simp

theorem ExecuteTrade_buy_cash_witness:
  "case ExecuteTrade ''t'' ''o'' ''600000.SH'' DirectionLong (Fin 100) (Fin 8) sample_day None sample_tracker of
     (Inr tr, t') \<Rightarrow> fle (Fin 0) (tkCash t') \<and> fle (tkCash t') (Fin 65536)
   | (Inl _, _) \<Rightarrow> False"
proof -
  let ?r = "ExecuteTrade ''t'' ''o'' ''600000.SH'' DirectionLong (Fin 100) (Fin 8) sample_day None sample_tracker"
  have "case fst ?r of Inr tr \<Rightarrow> is_fin (fmul (trQuantity tr) (trPrice tr)) \<and>
          fle (Fin 0) (fmul (trQuantity tr) (trPrice tr)) | Inl _ \<Rightarrow> False" by code_simp
  then show ?thesis
    using ExecuteTrade_buy_cash [of "''t''" "''o''" "''600000.SH''" "Fin 100" "Fin 8" sample_day None sample_tracker]
      sample_cash_wf sample_fee_schedule
    by (auto simp: sample_tracker_cash split: prod.split sum.splits)
qed

end
