(* ===== verification/Float64_Math.thy ===== *)
theory Float64_Math
  imports Float64
begin

text \<open>
  The functions of Go's \<open>math\<close> package that the cost models and the price rules call (\<open>math.Sqrt\<close>,
  correctly rounded, \<open>math.Round\<close>, half away from zero, \<open>math.Trunc\<close>, \<open>math.Ceil\<close>), with the order facts of products,
  quotients and roundings that their properties rest on.
\<close>

section \<open>Square root\<close>

function isqrt :: "int \<Rightarrow> int" where
  "isqrt n = (if n \<le> 0 then 0 else let r = 2 * isqrt (n div 4) in if (r + 1) * (r + 1) \<le> n then r + 1 else r)"
  by auto
termination by (relation "measure nat") auto

declare isqrt.simps [simp del]

lemma isqrt_bounds: "0 \<le> n \<Longrightarrow> 0 \<le> isqrt n \<and> isqrt n * isqrt n \<le> n \<and> n < (isqrt n + 1) * (isqrt n + 1)"
proof (induction n rule: isqrt.induct)
  case (1 n)
  show ?case
  proof (cases "n \<le> 0")
    case True
    with 1 have "n = 0" by simp
    then show ?thesis by (simp add: isqrt.simps [of 0])
  next
    case False
    let ?q = "isqrt (n div 4)"
    from False 1 have ih: "0 \<le> ?q" "?q * ?q \<le> n div 4" "n div 4 < (?q + 1) * (?q + 1)" by auto
    have lo: "4 * (?q * ?q) \<le> n" using ih(2) by linarith
    have "n div 4 + 1 \<le> (?q + 1) * (?q + 1)" using ih(3) by linarith
    then have hi: "n < 4 * ((?q + 1) * (?q + 1))" by linarith
    have r: "isqrt n = (if (2 * ?q + 1) * (2 * ?q + 1) \<le> n then 2 * ?q + 1 else 2 * ?q)"
      using False by (simp add: isqrt.simps [of n] Let_def)
    show ?thesis using ih(1) lo hi unfolding r by (auto simp: algebra_simps)
  qed
qed

text \<open>
  The root of a positive rational to at least 56 bits, with the bits below it kept as a sticky bit;
  rounding the result is rounding the exact root.
\<close>

definition sqrt_sticky :: "rat \<Rightarrow> rat" where
  "sqrt_sticky r =
     (let k = nat (56 + (if r < 1 then - ilog2 r else 0));
          s = isqrt \<lfloor>r * 4 ^ k\<rfloor>
      in if of_int (s * s) = r * 4 ^ k then of_int s / 2 ^ k else of_int (2 * s + 1) / 2 ^ (k + 1))"

fun math_Sqrt :: "f64 \<Rightarrow> f64" where
  "math_Sqrt (Fin r) = (if r < 0 then NaN else if r = 0 then Fin 0 else rnd (sqrt_sticky r))"
| "math_Sqrt MZero = MZero"
| "math_Sqrt PInf = PInf"
| "math_Sqrt _ = NaN"

lemma sqrt_sticky_nonneg: "0 \<le> r \<Longrightarrow> 0 \<le> sqrt_sticky r"
  using isqrt_bounds [of "\<lfloor>r * 4 ^ nat (56 + (if r < 1 then - ilog2 r else 0))\<rfloor>"]
  by (auto simp: sqrt_sticky_def Let_def zero_le_floor simp del: of_int_mult)

lemma math_Sqrt_nonneg: "fle (Fin 0) x \<Longrightarrow> fle (Fin 0) (math_Sqrt x)"
  by (cases x) (auto simp: fle_def dest: rnd_nonneg [OF sqrt_sticky_nonneg])

section \<open>Rounding to an integer\<close>

definition round_away :: "rat \<Rightarrow> int" where
  "round_away r = (if 0 \<le> r then \<lfloor>r + 1 / 2\<rfloor> else - \<lfloor>- r + 1 / 2\<rfloor>)"

fun math_Round :: "f64 \<Rightarrow> f64" where
  "math_Round (Fin r) = (if r < 0 \<and> round_away r = 0 then MZero else Fin (of_int (round_away r)))"
| "math_Round x = x"

lemma round_away_mono: "x \<le> y \<Longrightarrow> round_away x \<le> round_away y"
proof -
  assume le: "x \<le> y"
  consider "0 \<le> x" | "x < 0" "0 \<le> y" | "y < 0" by linarith
  then show ?thesis
  proof cases
    case 2
    then have "0 \<le> \<lfloor>1 / 2 - x\<rfloor>" "0 \<le> \<lfloor>y + 1 / 2\<rfloor>" by auto
    then have "- \<lfloor>1 / 2 - x\<rfloor> \<le> \<lfloor>y + 1 / 2\<rfloor>" by linarith
    with 2 show ?thesis by (simp add: round_away_def)
  qed (use le in \<open>auto simp: round_away_def intro: floor_mono\<close>)
qed

lemma round_away_0 [simp]: "round_away 0 = 0"
  by code_simp

lemma math_Round_valof: "is_fin x \<Longrightarrow> valof (math_Round x) = of_int (round_away (valof x)) \<and> is_fin (math_Round x)"
  by (cases x) auto

lemma math_Round_mono: "fle x y \<Longrightarrow> fle (math_Round x) (math_Round y)"
proof -
  assume le: "fle x y"
  show ?thesis
  proof (cases "is_fin x \<and> is_fin y")
    case True
    then have "is_fin x" "is_fin y" by auto
    with le math_Round_valof [of x] math_Round_valof [of y] show ?thesis
      by (simp add: fle_fin round_away_mono)
  next
    case False
    with le show ?thesis by (cases x; cases y) (auto simp: fle_def)
  qed
qed

definition trunc_rat :: "rat \<Rightarrow> int" where
  "trunc_rat r = (if 0 \<le> r then \<lfloor>r\<rfloor> else \<lceil>r\<rceil>)"

fun math_Trunc :: "f64 \<Rightarrow> f64" where
  "math_Trunc (Fin r) = (if r < 0 \<and> trunc_rat r = 0 then MZero else Fin (of_int (trunc_rat r)))"
| "math_Trunc x = x"

fun math_Ceil :: "f64 \<Rightarrow> f64" where
  "math_Ceil (Fin r) = (if r < 0 \<and> \<lceil>r\<rceil> = 0 then MZero else Fin (of_int \<lceil>r\<rceil>))"
| "math_Ceil x = x"

text \<open>The conversion \<open>int(x)\<close> of a finite value that an \<open>int\<close> can hold.\<close>

definition f64_int :: "f64 \<Rightarrow> int" where
  "f64_int x = trunc_rat (valof x)"

text \<open>
  The conversion \<open>int(x)\<close> of any value, as amd64 computes it: the language leaves a NaN, an infinity
  and a value out of range to the implementation, which yields the smallest \<open>int64\<close>.
\<close>

definition go_int :: "f64 \<Rightarrow> int" where
  "go_int x = (if is_fin x \<and> - (2 ^ 63) \<le> f64_int x \<and> f64_int x < 2 ^ 63 then f64_int x else - (2 ^ 63))"

section \<open>Products and quotients\<close>

lemma fmul_ge_self:
  assumes "is_fin p" "f64_wf p" "flt (Fin 0) p" "fle (Fin 1) c"
  shows "fle p (fmul p c)"
proof (cases "is_fin c")
  case True
  have p: "0 < valof p" "rnd_rat (valof p) = valof p" "1 \<le> valof c"
    using assms True by (auto simp: flt_fin fle_fin f64_wf_def)
  then have "valof p \<le> valof p * valof c" by simp
  then have r: "valof p \<le> rnd_rat (valof p * valof c)" using p by (auto intro: r64.ge_fixed)
  have "\<not> rnd_rat (valof p * valof c) \<le> - overflow_bound"
    using r p(1) overflow_bound_pos by linarith
  with assms(1) True r p(1) show ?thesis
    by (auto simp: fmul_fin f64_of_def Let_def fle_fin)
next
  case False
  with assms(4) have c: "c = PInf" by (cases c) (auto simp: fle_def)
  have "\<not> is_zero p" "\<not> neg_bit p" using assms(1,3) by (cases p; auto simp: flt_fin is_zero_def)+
  with c assms(1) show ?thesis by (auto simp: fmul_def Let_def fle_def is_inf_def is_fin_def)
qed

lemma fmul_le_self:
  assumes "is_fin p" "f64_wf p" "flt (Fin 0) p" "fle c (Fin 1)"
  shows "fle (fmul p c) p"
proof (cases "is_fin c")
  case True
  have p: "0 < valof p" "rnd_rat (valof p) = valof p" "valof c \<le> 1" "valof p < overflow_bound"
    using assms True by (auto simp: flt_fin fle_fin f64_wf_def)
  then have "valof p * valof c \<le> valof p" by (simp add: mult_left_le)
  then have r: "rnd_rat (valof p * valof c) \<le> valof p" using p by (auto intro: r64.le_fixed)
  then have "\<not> overflow_bound \<le> rnd_rat (valof p * valof c)" using p(4) by linarith
  with assms(1) True r p(1) show ?thesis
    by (auto simp: fmul_fin f64_of_def Let_def fle_fin)
next
  case False
  with assms(4) have c: "c = NInf" by (cases c) (auto simp: fle_def)
  have "\<not> is_zero p" "\<not> neg_bit p" using assms(1,3) by (cases p; auto simp: flt_fin is_zero_def)+
  with c assms(1) show ?thesis by (auto simp: fmul_def Let_def fle_def is_inf_def is_fin_def)
qed

lemma fmul_nonneg_ext:
  assumes "fle (Fin 0) a" "fle (Fin 0) b" "fmul a b \<noteq> NaN"
  shows "fle (Fin 0) (fmul a b)"
proof (cases "is_fin a \<and> is_fin b")
  case True
  with assms fmul_nonneg show ?thesis by blast
next
  case False
  then have "is_inf a \<or> is_inf b" using assms by (auto simp: is_fin_def is_inf_def fle_def)
  moreover have "\<not> neg_bit a \<or> is_zero a" "\<not> neg_bit b \<or> is_zero b"
    using assms(1,2) by (cases a; cases b; auto simp: fle_def)+
  ultimately have "fmul a b = PInf"
    using assms(3) unfolding fmul_def Let_def by (auto split: if_splits)
  then show ?thesis by (simp add: fle_def)
qed

lemma fdiv_nonneg:
  assumes "fle (Fin 0) a" "is_fin b" "flt (Fin 0) b"
  shows "fle (Fin 0) (fdiv a b)"
proof -
  have b: "0 < valof b" "\<not> is_inf b" "\<not> is_zero b" "b \<noteq> NaN"
    using assms(2,3) by (cases b; auto simp: flt_fin)+
  show ?thesis
  proof (cases "is_fin a")
    case True
    then have "fdiv a b = f64_of (neg_bit a \<noteq> neg_bit b) (valof a / valof b)"
      using b by (auto simp: fdiv_def Let_def is_fin_def is_inf_def)
    moreover have "0 \<le> valof a / valof b" using assms(1) True b(1) by (simp add: fle_fin)
    ultimately show ?thesis by (simp add: f64_of_nonneg)
  next
    case False
    with assms(1) have "a = PInf" by (cases a) (auto simp: fle_def)
    moreover have "\<not> neg_bit b" using assms(2,3) by (cases b) (auto simp: flt_fin)
    ultimately show ?thesis using b by (simp add: fdiv_def Let_def is_inf_def fle_def)
  qed
qed

lemma fdiv_mono:
  assumes "fle a b" "is_fin r" "flt (Fin 0) r"
  shows "fle (fdiv a r) (fdiv b r)"
proof -
  have r: "0 < valof r" "\<not> is_inf r" "\<not> is_zero r" "r \<noteq> NaN" "\<not> neg_bit r"
    using assms(2,3) by (cases r; auto simp: flt_fin)+
  have fin: "fdiv x r = f64_of (neg_bit x) (valof x / valof r)" if "is_fin x" for x
    using that r by (auto simp: fdiv_def Let_def is_fin_def is_inf_def)
  have inf: "fdiv PInf r = PInf" "fdiv NInf r = NInf"
    using r by (auto simp: fdiv_def Let_def is_inf_def)
  have nn: "fdiv x r \<noteq> NaN" if "x \<noteq> NaN" for x
    using that fin [of x] inf by (cases x) auto
  have ab: "a \<noteq> NaN" "b \<noteq> NaN" using assms(1) by (auto simp: fle_def)
  show ?thesis
  proof (cases "is_fin a \<and> is_fin b")
    case True
    then have "valof a / valof r \<le> valof b / valof r" using assms(1) r(1) by (simp add: fle_fin divide_right_mono)
    then show ?thesis using True by (simp add: fin f64_of_mono)
  next
    case False
    with assms(1) ab have "a = NInf \<or> b = PInf" by (cases a; cases b) (auto simp: fle_def)
    then show ?thesis using inf nn [OF ab(1)] nn [OF ab(2)] by (auto simp: fle_NInf fle_PInf)
  qed
qed

lemma one_plus_ge: "fle (Fin 0) x \<Longrightarrow> fle (Fin 1) (fadd (Fin 1) x)"
proof -
  assume x: "fle (Fin 0) x"
  have one: "fadd (Fin 1) (Fin 0) = Fin 1" using fadd_int [of 1 0] by simp
  have "fadd (Fin 1) x \<noteq> NaN" using x by (intro fadd_nonneg_not_NaN) (auto simp: fle_fin)
  with fadd_mono [of "Fin 1" "Fin 1" "Fin 0" x] x one show ?thesis by (simp add: fle_refl)
qed

lemma one_minus_le: "fle (Fin 0) x \<Longrightarrow> fle (fsub (Fin 1) x) (Fin 1)"
proof -
  assume x: "fle (Fin 0) x"
  have one: "fadd (Fin 1) (Fin 0) = Fin 1" using fadd_int [of 1 0] by simp
  have n: "fle (fneg x) (Fin 0)" using x by (cases x) (auto simp: fle_def)
  have "fadd (Fin 1) (fneg x) \<noteq> NaN" using n by (cases "fneg x") (auto simp: fadd_def fle_def is_inf_def)
  with fadd_mono [of "Fin 1" "Fin 1" "fneg x" "Fin 0"] n one show ?thesis by (simp add: fle_refl fsub_def)
qed

end
