(* ===== verification/Execution.thy ===== *)
theory Execution
  imports Domain Fees Float64_Math
begin

text \<open>
  The shared execution cost core (\<open>src/pkg/execution/cost.go\<close>, \<open>src/pkg/marketimpact/market_impact.go\<close>,
  \<open>src/pkg/domain/execution.go\<close>) and the backtest execution service that prices orders for the
  tracker (\<open>src/pkg/backtest/execution/execution.go\<close>). The generated trade identifier is an argument.
\<close>

section \<open>Cost model\<close>

definition FixedSlippageRate :: f64 where
  "FixedSlippageRate = rnd (1 / 1000)"

record ExecutionConfig =
  ecOrderType :: OrderType
  ecSlippageModel :: string
  ecCommissionRate :: f64
  ecMinCommission :: f64
  ecInitialCapital :: f64
  ecImpactSigma :: f64
  ecImpactLiquidityFactor :: f64

definition DefaultExecutionConfig :: ExecutionConfig where
  "DefaultExecutionConfig =
     \<lparr>ecOrderType = OrderTypeMarket, ecSlippageModel = ''fixed'', ecCommissionRate = DefaultCommissionRate,
      ecMinCommission = DefaultMinCommission, ecInitialCapital = rnd 1000000,
      ecImpactSigma = Fin 0, ecImpactLiquidityFactor = Fin 0\<rparr>"

definition CalculateImpact :: "f64 \<Rightarrow> f64 \<Rightarrow> f64 \<Rightarrow> f64 \<Rightarrow> f64" where
  "CalculateImpact sigma liquidityFactor orderQty adv =
     (if fle adv (Fin 0) \<or> fle orderQty (Fin 0) then Fin 0
      else let lf = (if feq liquidityFactor (Fin 0) then Fin 1 else liquidityFactor)
           in fmul (fmul sigma (math_Sqrt (fdiv orderQty adv))) lf)"

definition CalculateSlippageCost :: "f64 \<Rightarrow> f64 \<Rightarrow> f64 \<Rightarrow> f64 \<Rightarrow> f64 \<Rightarrow> f64" where
  "CalculateSlippageCost sigma liquidityFactor orderQty adv price =
     fmul (fmul (CalculateImpact sigma liquidityFactor orderQty adv) orderQty) price"

definition slip :: "Direction \<Rightarrow> f64 \<Rightarrow> f64 \<Rightarrow> f64" where
  "slip direction price slippage =
     (if direction = DirectionLong then fmul price (fadd (Fin 1) slippage)
      else fmul price (fsub (Fin 1) slippage))"

definition SlippagePrice :: "ExecutionConfig \<Rightarrow> f64 \<Rightarrow> Direction \<Rightarrow> f64 \<Rightarrow> f64 \<Rightarrow> f64 \<Rightarrow> f64 \<Rightarrow> f64" where
  "SlippagePrice config price direction orderQty adv high low =
     (if ecSlippageModel config = ''fixed'' then slip direction price FixedSlippageRate
      else if ecSlippageModel config = ''variable''
      then slip direction price (fmul (fdiv (fsub high low) price) (rnd (1 / 10)))
      else if ecSlippageModel config = ''impact''
      then (if fle adv (Fin 0) then slip direction price FixedSlippageRate
            else slip direction price
                   (CalculateImpact (ecImpactSigma config) (ecImpactLiquidityFactor config) orderQty adv))
      else price)"

definition cost_Commission :: "ExecutionConfig \<Rightarrow> f64 \<Rightarrow> f64" where
  "cost_Commission config notional =
     (let commission = fmul notional (ecCommissionRate config)
      in if flt commission (ecMinCommission config) then ecMinCommission config else commission)"

datatype execution_error =
    InvalidOrderQuantity f64
  | InvalidLimitPrice f64
  | LimitPriceNotReached
  | UnsupportedOrderType OrderType
  | InvalidExecutionPrice f64

definition ExecuteMarket ::
    "ExecutionConfig \<Rightarrow> Order \<Rightarrow> f64 \<Rightarrow> f64 \<Rightarrow> f64 \<Rightarrow> f64 \<Rightarrow> execution_error + (f64 \<times> f64)" where
  "ExecuteMarket config ord refPrice high low adv =
     (if fle (ordQuantity ord) (Fin 0) then Inl (InvalidOrderQuantity (ordQuantity ord))
      else let fillPrice = SlippagePrice config refPrice (ordDirection ord) (ordQuantity ord) adv high low
           in Inr (fillPrice, cost_Commission config (fmul fillPrice (ordQuantity ord))))"

section \<open>Backtest execution service\<close>

record ExecQuote =
  eqSymbol :: symbol
  eqOpen :: f64
  eqHigh :: f64
  eqLow :: f64
  eqClose :: f64
  eqVolume :: f64
  eqDate :: gotime

record BacktestExecutionService =
  besConfig :: ExecutionConfig
  besSlippageModel :: string

definition NewBacktestExecutionService :: "ExecutionConfig \<Rightarrow> BacktestExecutionService" where
  "NewBacktestExecutionService config = \<lparr>besConfig = config, besSlippageModel = ecSlippageModel config\<rparr>"

definition SetSlippageModel :: "string \<Rightarrow> BacktestExecutionService \<Rightarrow> BacktestExecutionService" where
  "SetSlippageModel model s = s\<lparr>besSlippageModel := model\<rparr>"

definition applySlippage :: "BacktestExecutionService \<Rightarrow> f64 \<Rightarrow> Direction \<Rightarrow> ExecQuote \<Rightarrow> f64 \<Rightarrow> f64" where
  "applySlippage s price direction quote orderQty =
     SlippagePrice ((besConfig s)\<lparr>ecSlippageModel := besSlippageModel s\<rparr>) price direction orderQty
       (eqVolume quote) (eqHigh quote) (eqLow quote)"

definition limit_execution :: "Order \<Rightarrow> ExecQuote \<Rightarrow> execution_error + f64" where
  "limit_execution ord quote =
     (if fle (ordLimitPrice ord) (Fin 0) then Inl (InvalidLimitPrice (ordLimitPrice ord))
      else if ordDirection ord = DirectionLong \<and> fle (eqLow quote) (ordLimitPrice ord)
      then Inr (fmin (ordLimitPrice ord) (eqHigh quote))
      else if ordDirection ord = DirectionShort \<and> fle (ordLimitPrice ord) (eqHigh quote)
      then Inr (fmax (ordLimitPrice ord) (eqLow quote))
      else Inl LimitPriceNotReached)"

definition ExecuteOrder ::
    "string \<Rightarrow> BacktestExecutionService \<Rightarrow> Order \<Rightarrow> ExecQuote \<Rightarrow> execution_error + Trade" where
  "ExecuteOrder tid s ord quote =
     (if fle (ordQuantity ord) (Fin 0) then Inl (InvalidOrderQuantity (ordQuantity ord))
      else case (case ordOrderType ord of
                   OrderTypeMarket \<Rightarrow>
                     Inr (applySlippage s (eqClose quote) (ordDirection ord) quote (ordQuantity ord))
                 | OrderTypeLimit \<Rightarrow> limit_execution ord quote
                 | ty \<Rightarrow> Inl (UnsupportedOrderType ty)) of
          Inl e \<Rightarrow> Inl e
        | Inr executionPrice \<Rightarrow>
            (if fle executionPrice (Fin 0) then Inl (InvalidExecutionPrice executionPrice)
             else Inr \<lparr>trID = tid, trSymbol = ordSymbol ord, trDirection = ordDirection ord,
                       trQuantity = ordQuantity ord, trPrice = executionPrice,
                       trCommission = cost_Commission (besConfig s) (fmul executionPrice (ordQuantity ord)),
                       trTransferFee = Fin 0, trStampTax = Fin 0, trTimestamp = eqDate quote,
                       trPendingQty = Fin 0, trFilledQty = Fin 0\<rparr>))"

section \<open>Slippage is never favourable\<close>

definition cost_config_ok :: "ExecutionConfig \<Rightarrow> bool" where
  "cost_config_ok c \<longleftrightarrow> fle (Fin 0) (ecImpactSigma c) \<and> fle (Fin 0) (ecImpactLiquidityFactor c)"

lemma impact_nonneg:
  assumes "fle (Fin 0) sigma" "fle (Fin 0) lf" "is_fin adv" "CalculateImpact sigma lf q adv \<noteq> NaN"
  shows "fle (Fin 0) (CalculateImpact sigma lf q adv)"
proof (cases "fle adv (Fin 0) \<or> fle q (Fin 0)")
  case True
  then show ?thesis by (auto simp: CalculateImpact_def fle_fin)
next
  case False
  let ?lf = "if feq lf (Fin 0) then Fin 1 else lf"
  have e: "CalculateImpact sigma lf q adv = fmul (fmul sigma (math_Sqrt (fdiv q adv))) ?lf"
    using False by (simp add: CalculateImpact_def Let_def)
  with assms(4) have n: "fmul (fmul sigma (math_Sqrt (fdiv q adv))) ?lf \<noteq> NaN" by simp
  then have i: "fmul sigma (math_Sqrt (fdiv q adv)) \<noteq> NaN" by (auto simp: fmul_def)
  then have "math_Sqrt (fdiv q adv) \<noteq> NaN" by (auto simp: fmul_def)
  then have "q \<noteq> NaN" by (auto simp: fdiv_def)
  with False assms(3) have "fle (Fin 0) (fdiv q adv)"
    by (intro fdiv_nonneg) (auto simp: not_fle_iff is_fin_not_NaN intro: flt_imp_fle)
  then have "fle (Fin 0) (fmul sigma (math_Sqrt (fdiv q adv)))"
    by (intro fmul_nonneg_ext assms math_Sqrt_nonneg i)
  moreover have "fle (Fin 0) ?lf" using assms(2) by (simp add: fle_fin)
  ultimately show ?thesis unfolding e by (rule fmul_nonneg_ext) (rule n)
qed

lemma fixed_rate_nonneg: "fle (Fin 0) FixedSlippageRate" "is_fin FixedSlippageRate"
  by code_simp+

lemma slip_adverse:
  assumes "is_fin p" "f64_wf p" "flt (Fin 0) p" "fle (Fin 0) x"
  shows "if d = DirectionLong then fle p (slip d p x) else fle (slip d p x) p"
  using fmul_ge_self [OF assms(1-3) one_plus_ge] fmul_le_self [OF assms(1-3) one_minus_le] assms(4)
  by (simp add: slip_def)

lemma variable_rate_nonneg:
  assumes "is_fin high" "fle low high" "is_fin p" "flt (Fin 0) p"
  shows "fle (Fin 0) (fmul (fdiv (fsub high low) p) (rnd (1 / 10)))"
proof -
  have tenth: "fle (Fin 0) (rnd (1 / 10))" "is_fin (rnd (1 / 10))" "\<not> is_zero (rnd (1 / 10))" by code_simp+
  have d: "fle (Fin 0) (fdiv (fsub high low) p)"
    by (intro fdiv_nonneg fsub_nonneg assms)
  then have "fmul (fdiv (fsub high low) p) (rnd (1 / 10)) \<noteq> NaN"
    using tenth by (auto simp: fmul_def Let_def fle_def is_fin_def is_inf_def)
  with d tenth(1) show ?thesis by (intro fmul_nonneg_ext)
qed


definition sample_exec_config :: ExecutionConfig where
  "sample_exec_config = DefaultExecutionConfig\<lparr>ecSlippageModel := ''impact'', ecImpactSigma := Fin (1 / 64)\<rparr>"


section \<open>Limit orders\<close>

text \<open>
  A limit order that the execution service fills is filled inside the bar and never at a worse
  price than its limit: a buy at or below it, a short at or above it.
\<close>

lemma limit_order_price:
  assumes "ExecuteOrder tid s ord quote = Inr tr" "ordOrderType ord = OrderTypeLimit"
    and "fle (eqLow quote) (eqHigh quote)" "ordLimitPrice ord \<noteq> NaN"
  shows "fle (eqLow quote) (trPrice tr) \<and> fle (trPrice tr) (eqHigh quote) \<and>
         (case ordDirection ord of
            DirectionLong \<Rightarrow> fle (trPrice tr) (ordLimitPrice ord)
          | DirectionShort \<Rightarrow> fle (ordLimitPrice ord) (trPrice tr)
          | _ \<Rightarrow> False)"
proof -
  let ?l = "ordLimitPrice ord"
  have n: "eqLow quote \<noteq> NaN" "eqHigh quote \<noteq> NaN" using assms(3) by (auto simp: fle_def)
  from assms(1,2) have lim: "limit_execution ord quote = Inr (trPrice tr)"
    by (auto simp: ExecuteOrder_def split: if_splits sum.splits)
  then consider
      "ordDirection ord = DirectionLong" "fle (eqLow quote) ?l" "trPrice tr = fmin ?l (eqHigh quote)"
    | "ordDirection ord = DirectionShort" "fle ?l (eqHigh quote)" "trPrice tr = fmax ?l (eqLow quote)"
    by (auto simp: limit_execution_def split: if_splits)
  then show ?thesis
  proof cases
    case 1
    with fmin_lower [OF assms(4) n(2)] fmin_cases [OF assms(4) n(2)] assms(3) show ?thesis by auto
  next
    case 2
    have "fle ?l (fmax ?l (eqLow quote)) \<and> fle (eqLow quote) (fmax ?l (eqLow quote))"
      using assms(4) n(1) by (auto simp: fmax_def fle_def flt_def)
    with 2 fmax_cases [OF assms(4) n(1)] assms(3) show ?thesis by auto
  qed
qed

definition sample_quote :: ExecQuote where
  "sample_quote = \<lparr>eqSymbol = ''600000.SH'', eqOpen = Fin 8, eqHigh = Fin 9, eqLow = Fin 7, eqClose = Fin 8,
     eqVolume = Fin 1600, eqDate = 738800 * day_ns\<rparr>"

definition sample_order :: "OrderType \<Rightarrow> Direction \<Rightarrow> Order" where
  "sample_order ty dir = \<lparr>ordID = ''o'', ordSymbol = ''600000.SH'', ordDirection = dir, ordOrderType = ty,
     ordQuantity = Fin 100, ordLimitPrice = Fin 8, ordStopPrice = Fin 0, ordTrailAmount = Fin 0,
     ordTrailPercent = Fin 0, ordHighWaterMark = Fin 0, ordTimestamp = 0, ordFilledQty = Fin 0,
     ordFillPrice = Fin 0, ordStatus = []\<rparr>"

end
