(* ===== verification/Exec_Algo.thy ===== *)
theory Exec_Algo
  imports Domain Float64_Math
begin

text \<open>
  The execution algorithms (\<open>src/pkg/execalgo\<close>): the plan of a parent order (\<open>schedule.go\<close>), the equal-time
  and the volume-weighted algorithm (\<open>twap.go\<close>, \<open>vwap.go\<close>) and the dispatcher that runs several parents
  (\<open>dispatch.go\<close>). A bar is its symbol and its date, a fill its order and its quantity, which is what
  the package reads of them. Numbers of slices are Go \<open>int\<close>s and stay far below overflow; the
  difference of two times is exact, where Go saturates it at 292 years.

  Proved: an accepted order is split without losing a share, at equal distances inside its window and
  under distinct numbers; and in every run each child is handed out at most once, in the order of the
  plan, and all of them once the window has ended. Lemmas show an order that the rounding of slices
  makes the dispatcher refuse, and a volume profile that gives quantities that are not numbers.
\<close>

section \<open>Parent and child orders\<close>

record ParentOrder =
  poOrderID :: string
  poRunID :: string
  poSymbol :: symbol
  poSide :: Direction
  poQty :: f64
  poLimitPrice :: f64
  poStyle :: string
  poStartAt :: gotime
  poEndAt :: gotime

record ChildOrder =
  coOrderID :: string
  coParentID :: string
  coRunID :: string
  coSymbol :: symbol
  coSide :: Direction
  coQty :: f64
  coLimitPrice :: f64
  coSubmitAt :: gotime

datatype exec_error =
    EmptySymbol string
  | QtyNotPositive string f64
  | WindowNotPositive string gotime gotime
  | OnBarBeforeSchedule
  | EmptyParentID
  | ErrUnknownAlgo string string
  | ErrInvalidSchedule string exec_error
  | EmptyPlan string
  | SliceNotPositive string nat f64
  | ErrDuplicateParent string
  | ChildCollision string string
  | QtySumMismatch string f64 f64
  | OverFilled string f64 f64 f64 string

definition DefaultSliceInterval :: duration where
  "DefaultSliceInterval = 5 * 60 * 1000000000"

definition validateParent :: "ParentOrder \<Rightarrow> exec_error option" where
  "validateParent parent =
     (if poSymbol parent = [] then Some (EmptySymbol (poOrderID parent))
      else if fle (poQty parent) (Fin 0) then Some (QtyNotPositive (poOrderID parent) (poQty parent))
      else if \<not> poStartAt parent < poEndAt parent
        then Some (WindowNotPositive (poOrderID parent) (poEndAt parent) (poStartAt parent))
      else None)"

definition deriveSlices :: "duration \<Rightarrow> int" where
  "deriveSlices window =
     (if window \<le> 0 then 1
      else let n = f64_int (math_Ceil (fdiv (fint window) (fint DefaultSliceInterval))) in if n < 1 then 1 else n)"

definition effectiveSlices :: "int \<Rightarrow> f64 \<Rightarrow> int" where
  "effectiveSlices n qty =
     (if feq qty (math_Trunc qty) \<and> fle (Fin 1) qty \<and> flt qty (fint n) then f64_int qty else n)"

definition splitWindow :: "gotime \<Rightarrow> gotime \<Rightarrow> int \<Rightarrow> gotime list" where
  "splitWindow start stop n =
     (let step = (stop - start) sdiv n in map (\<lambda>i. start + int i * step) [0..<nat n])"

text \<open>The first loop of \<open>allocateQty\<close>: the quantities of all slices but the last, and their running sum.\<close>

fun allocate_loop :: "f64 \<Rightarrow> bool \<Rightarrow> f64 list \<Rightarrow> f64 \<Rightarrow> f64 list \<times> f64" where
  "allocate_loop total_qty integral [] acc = ([], acc)"
| "allocate_loop total_qty integral (w # ws) acc =
     (let q = fmul total_qty w;
          q = (if integral then math_Round q else q);
          (qs, acc) = allocate_loop total_qty integral ws (fadd acc q)
      in (q # qs, acc))"

definition allocateQty :: "f64 \<Rightarrow> f64 list \<Rightarrow> f64 list" where
  "allocateQty total_qty weights =
     (if length weights = 0 then []
      else if length weights = 1 then [total_qty]
      else let integral = feq total_qty (math_Trunc total_qty);
               (qs, acc) = allocate_loop total_qty integral (butlast weights) (Fin 0);
               l = fsub total_qty acc
           in qs @ [if flt l (Fin 0) then Fin 0 else l])"

text \<open>The verb \<open>%04d\<close>.\<close>

definition pad4 :: "nat \<Rightarrow> string" where
  "pad4 i = replicate (4 - length (itoa i)) CHR ''0'' @ itoa i"

definition childOrderID :: "string \<Rightarrow> nat \<Rightarrow> string" where
  "childOrderID parentID i = parentID @ ''-C'' @ pad4 i"

definition build_child :: "ParentOrder \<Rightarrow> nat \<Rightarrow> f64 \<Rightarrow> gotime \<Rightarrow> ChildOrder" where
  "build_child parent i qty submitAt =
     \<lparr>coOrderID = childOrderID (poOrderID parent) i, coParentID = poOrderID parent, coRunID = poRunID parent,
      coSymbol = poSymbol parent, coSide = poSide parent, coQty = qty, coLimitPrice = poLimitPrice parent,
      coSubmitAt = submitAt\<rparr>"

definition buildPlan :: "ParentOrder \<Rightarrow> f64 list \<Rightarrow> gotime list \<Rightarrow> ChildOrder list" where
  "buildPlan parent qtys ts =
     map (\<lambda>(i, qty, t). build_child parent i qty t) (enumerate 0 (zip qtys ts))"

section \<open>Running state of a plan\<close>

record planState =
  psParent :: ParentOrder
  psPlan :: "ChildOrder list"
  psChildIDs :: "string fset"
  psNextIdx :: nat
  psDue :: "ChildOrder list"
  psFilled :: f64
  psTotal :: f64
  psDone :: bool

definition ps_reset :: "ParentOrder \<Rightarrow> ChildOrder list \<Rightarrow> planState" where
  "ps_reset parent plan =
     \<lparr>psParent = parent, psPlan = plan, psChildIDs = fset_of_list (map coOrderID plan), psNextIdx = 0, psDue = [],
      psFilled = Fin 0, psTotal = foldl (\<lambda>s c. fadd s (coQty c)) (Fin 0) plan, psDone = False\<rparr>"

text \<open>The loop of \<open>onBar\<close>: the orders from the cursor on that are due at the date.\<close>

definition due_at :: "gotime \<Rightarrow> planState \<Rightarrow> ChildOrder list" where
  "due_at date s = takeWhile (\<lambda>c. coSubmitAt c \<le> date) (drop (psNextIdx s) (psPlan s))"

definition onBar :: "gotime \<Rightarrow> planState \<Rightarrow> exec_error option \<times> planState" where
  "onBar date s =
     (if poOrderID (psParent s) = [] then (Some OnBarBeforeSchedule, s)
      else (None, s\<lparr>psDue := psDue s @ due_at date s, psNextIdx := psNextIdx s + length (due_at date s)\<rparr>))"

definition dueChildOrders :: "planState \<Rightarrow> ChildOrder list \<times> planState" where
  "dueChildOrders s = (psDue s, s\<lparr>psDue := []\<rparr>)"

definition onFill :: "string \<Rightarrow> f64 \<Rightarrow> planState \<Rightarrow> planState" where
  "onFill orderID qty s =
     (if orderID |\<notin>| psChildIDs s then s
      else let filled = fadd (psFilled s) qty;
               filled = (if flt (psTotal s) filled then psTotal s else filled)
           in s\<lparr>psFilled := filled, psDone := (if fle (psTotal s) filled then True else psDone s)\<rparr>)"

definition progress :: "planState \<Rightarrow> f64 \<times> f64 \<times> bool" where
  "progress s = (psFilled s, psTotal s, psDone s)"

section \<open>Algorithms\<close>

text \<open>The two implementations of the interface; a \<open>VWAP\<close> records whether its last plan fell back to equal weights.\<close>

datatype ExecAlgorithm =
    TWAP int planState
  | VWAP int "f64 list" bool planState

definition equal_weights :: "int \<Rightarrow> f64 list" where
  "equal_weights n = replicate (nat n) (fdiv (Fin 1) (fint n))"

definition vwapWeights :: "int \<Rightarrow> f64 list \<Rightarrow> f64 list \<times> bool" where
  "vwapWeights n profile =
     (let sum = foldl fadd (Fin 0) profile
      in if int (length profile) = n \<and> n > 0 \<and> list_all (\<lambda>v. \<not> flt v (Fin 0)) profile \<and> flt (Fin 0) sum
         then (map (\<lambda>v. fdiv v sum) profile, False)
         else (equal_weights n, True))"

definition twap_slices :: "int \<Rightarrow> ParentOrder \<Rightarrow> int" where
  "twap_slices slices parent =
     effectiveSlices (if slices \<le> 0 then deriveSlices (poEndAt parent - poStartAt parent) else slices) (poQty parent)"

definition vwap_slices :: "int \<Rightarrow> f64 list \<Rightarrow> ParentOrder \<Rightarrow> int" where
  "vwap_slices slices profile parent =
     effectiveSlices
       (if slices \<le> 0
        then (if length profile > 0 then int (length profile) else deriveSlices (poEndAt parent - poStartAt parent))
        else slices) (poQty parent)"

definition make_plan :: "ParentOrder \<Rightarrow> int \<Rightarrow> f64 list \<Rightarrow> ChildOrder list" where
  "make_plan parent n weights =
     buildPlan parent (allocateQty (poQty parent) weights) (splitWindow (poStartAt parent) (poEndAt parent) n)"

definition twap_Schedule :: "ParentOrder \<Rightarrow> int \<Rightarrow> planState \<Rightarrow> (exec_error + ChildOrder list) \<times> ExecAlgorithm" where
  "twap_Schedule parent slices st =
     (case validateParent parent of
        Some e \<Rightarrow> (Inl e, TWAP slices st)
      | None \<Rightarrow>
          let n = twap_slices slices parent;
              plan = make_plan parent n (equal_weights n)
          in (Inr plan, TWAP slices (ps_reset parent plan)))"

definition vwap_Schedule ::
    "ParentOrder \<Rightarrow> int \<Rightarrow> f64 list \<Rightarrow> bool \<Rightarrow> planState \<Rightarrow> (exec_error + ChildOrder list) \<times> ExecAlgorithm" where
  "vwap_Schedule parent slices profile degraded st =
     (case validateParent parent of
        Some e \<Rightarrow> (Inl e, VWAP slices profile degraded st)
      | None \<Rightarrow>
          let n = vwap_slices slices profile parent;
              (weights, degraded) = vwapWeights n profile;
              plan = make_plan parent n weights
          in (Inr plan, VWAP slices profile degraded (ps_reset parent plan)))"

fun Schedule :: "ParentOrder \<Rightarrow> ExecAlgorithm \<Rightarrow> (exec_error + ChildOrder list) \<times> ExecAlgorithm" where
  "Schedule parent (TWAP slices st) = twap_Schedule parent slices st"
| "Schedule parent (VWAP slices profile degraded st) = vwap_Schedule parent slices profile degraded st"

fun algo_state :: "ExecAlgorithm \<Rightarrow> planState" where
  "algo_state (TWAP _ st) = st"
| "algo_state (VWAP _ _ _ st) = st"

fun set_algo_state :: "planState \<Rightarrow> ExecAlgorithm \<Rightarrow> ExecAlgorithm" where
  "set_algo_state st (TWAP slices _) = TWAP slices st"
| "set_algo_state st (VWAP slices profile degraded _) = VWAP slices profile degraded st"

section \<open>Dispatcher\<close>

record AttachSpec =
  asParentID :: string
  asRunID :: string
  asSymbol :: symbol
  asSide :: Direction
  asQty :: f64
  asLimitPrice :: f64
  asStyle :: string
  asSlices :: int
  asProfile :: "f64 list"
  asOrderType :: OrderType
  asStartAt :: gotime
  asEndAt :: gotime

record ParentProgress =
  ppParentID :: string
  ppSymbol :: symbol
  ppSide :: Direction
  ppFilled :: f64
  ppTotal :: f64
  ppReason :: string

record parentRun =
  prSpec :: AttachSpec
  prAlgo :: ExecAlgorithm
  prPlan :: "ChildOrder list"
  prFilled :: f64
  prSubmitted :: f64
  prCancelled :: bool
  prCancelReason :: string

record Dispatcher =
  dpParents :: "parentRun dict"
  dpChildIdx :: "string dict"

definition StyleTWAP :: string where
  "StyleTWAP = ''twap''"

definition StyleVWAP :: string where
  "StyleVWAP = ''vwap''"

definition IsKnownStyle :: "string \<Rightarrow> bool" where
  "IsKnownStyle style \<longleftrightarrow> style = StyleTWAP \<or> style = StyleVWAP"

datatype AttachFailureKind =
    AttachFailureUnknownStyle | AttachFailureDuplicateParent | AttachFailureQtySumMismatch
  | AttachFailureInvalidSchedule | AttachFailureOther

text \<open>
  The classes of \<open>errors.Is\<close>: the error of a quantity mismatch does not wrap its sentinel, so no error
  is of the class \<open>AttachFailureQtySumMismatch\<close>.
\<close>

fun ClassifyAttachError :: "exec_error option \<Rightarrow> AttachFailureKind option" where
  "ClassifyAttachError None = None"
| "ClassifyAttachError (Some (ErrUnknownAlgo _ _)) = Some AttachFailureUnknownStyle"
| "ClassifyAttachError (Some (ErrDuplicateParent _)) = Some AttachFailureDuplicateParent"
| "ClassifyAttachError (Some (ErrInvalidSchedule _ _)) = Some AttachFailureInvalidSchedule"
| "ClassifyAttachError (Some _) = Some AttachFailureOther"

definition NewDispatcher :: Dispatcher where
  "NewDispatcher = \<lparr>dpParents = fmempty, dpChildIdx = fmempty\<rparr>"

definition ResolveExecWindow :: "gotime \<Rightarrow> int \<Rightarrow> f64 list \<Rightarrow> int \<times> gotime" where
  "ResolveExecWindow start slices profile =
     (let n = slices;
          n = (if n \<le> 0 \<and> length profile > 0 then int (length profile) else n);
          n = (if n \<le> 0 then 1 else n)
      in (n, start + n * day_ns))"

definition qtySumTolerance :: "f64 \<Rightarrow> f64" where
  "qtySumTolerance qty = fmul (rnd (1 / 10 ^ 9)) (math_Max (Fin 1) (fabs qty))"

definition zero_parent :: ParentOrder where
  "zero_parent = \<lparr>poOrderID = [], poRunID = [], poSymbol = [], poSide = DirectionOther [], poQty = Fin 0,
     poLimitPrice = Fin 0, poStyle = [], poStartAt = 0, poEndAt = 0\<rparr>"

definition zero_state :: planState where
  "zero_state = \<lparr>psParent = zero_parent, psPlan = [], psChildIDs = {||}, psNextIdx = 0, psDue = [], psFilled = Fin 0,
     psTotal = Fin 0, psDone = False\<rparr>"

definition new_algo :: "AttachSpec \<Rightarrow> exec_error + ExecAlgorithm" where
  "new_algo spec =
     (if asStyle spec = StyleTWAP then Inr (TWAP (asSlices spec) zero_state)
      else if asStyle spec = StyleVWAP then Inr (VWAP (asSlices spec) (asProfile spec) False zero_state)
      else Inl (ErrUnknownAlgo (asStyle spec) (asParentID spec)))"

definition spec_parent :: "AttachSpec \<Rightarrow> ParentOrder" where
  "spec_parent spec =
     \<lparr>poOrderID = asParentID spec, poRunID = asRunID spec, poSymbol = asSymbol spec, poSide = asSide spec,
      poQty = asQty spec, poLimitPrice = asLimitPrice spec, poStyle = asStyle spec, poStartAt = asStartAt spec,
      poEndAt = asEndAt spec\<rparr>"

text \<open>The loop that adds up the plan and stops at the first slice that is not positive.\<close>

fun sum_plan :: "string \<Rightarrow> nat \<Rightarrow> ChildOrder list \<Rightarrow> f64 \<Rightarrow> exec_error + f64" where
  "sum_plan pid i [] acc = Inr acc"
| "sum_plan pid i (c # cs) acc =
     (if fle (coQty c) (Fin 0) then Inl (SliceNotPositive pid i (coQty c))
      else sum_plan pid (i + 1) cs (fadd acc (coQty c)))"

definition register_children :: "string \<Rightarrow> ChildOrder list \<Rightarrow> string dict \<Rightarrow> string dict" where
  "register_children pid plan idx = fold (\<lambda>c m. fmupd (coOrderID c) pid m) plan idx"

definition Attach :: "AttachSpec \<Rightarrow> Dispatcher \<Rightarrow> (exec_error + ChildOrder list) \<times> Dispatcher" where
  "Attach spec d =
     (if asParentID spec = [] then (Inl EmptyParentID, d)
      else case new_algo spec of
          Inl e \<Rightarrow> (Inl e, d)
        | Inr algo \<Rightarrow>
            (case Schedule (spec_parent spec) algo of
               (Inl e, _) \<Rightarrow> (Inl (ErrInvalidSchedule (asParentID spec) e), d)
             | (Inr plan, algo) \<Rightarrow>
                 if plan = [] then (Inl (EmptyPlan (asParentID spec)), d)
                 else case sum_plan (asParentID spec) 0 plan (Fin 0) of
                     Inl e \<Rightarrow> (Inl e, d)
                   | Inr planSum \<Rightarrow>
                       if fmlookup (dpParents d) (asParentID spec) \<noteq> None
                         then (Inl (ErrDuplicateParent (asParentID spec)), d)
                       else case find (\<lambda>c. fmlookup (dpChildIdx d) (coOrderID c) \<noteq> None) plan of
                           Some c \<Rightarrow> (Inl (ChildCollision (coOrderID c) (asParentID spec)), d)
                         | None \<Rightarrow>
                             if flt (qtySumTolerance (asQty spec)) (fabs (fsub planSum (asQty spec)))
                             then (Inl (QtySumMismatch (asParentID spec) planSum (asQty spec)), d)
                             else (Inr plan,
                                   \<lparr>dpParents = fmupd (asParentID spec)
                                      \<lparr>prSpec = spec, prAlgo = algo, prPlan = plan, prFilled = Fin 0, prSubmitted = Fin 0,
                                       prCancelled = False, prCancelReason = []\<rparr> (dpParents d),
                                    dpChildIdx = register_children (asParentID spec) plan (dpChildIdx d)\<rparr>)))"

text \<open>One parent's part of \<open>OnBar\<close>: the children taken out, or the error, and the parent after it.\<close>

definition bar_parent :: "symbol \<Rightarrow> gotime \<Rightarrow> parentRun \<Rightarrow> (exec_error + ChildOrder list) \<times> parentRun" where
  "bar_parent symb date run =
     (if prCancelled run \<or> asSymbol (prSpec run) \<noteq> symb then (Inr [], run)
      else case onBar date (algo_state (prAlgo run)) of
          (Some e, st) \<Rightarrow> (Inl e, run\<lparr>prAlgo := set_algo_state st (prAlgo run)\<rparr>)
        | (None, st) \<Rightarrow>
            let (cs, st) = dueChildOrders st
            in (Inr cs, run\<lparr>prAlgo := set_algo_state st (prAlgo run),
                            prSubmitted := foldl (\<lambda>s c. fadd s (coQty c)) (prSubmitted run) cs\<rparr>))"

definition bar_step ::
    "symbol \<Rightarrow> gotime \<Rightarrow> string \<Rightarrow> ((ChildOrder \<times> OrderType) list \<times> exec_error list) \<times> Dispatcher \<Rightarrow>
     ((ChildOrder \<times> OrderType) list \<times> exec_error list) \<times> Dispatcher" where
  "bar_step symb date pid st =
     (case st of ((out, errs), d) \<Rightarrow>
        (case fmlookup (dpParents d) pid of
           None \<Rightarrow> st
         | Some run \<Rightarrow>
             (case bar_parent symb date run of (res, run') \<Rightarrow>
                ((case res of
                    Inl e \<Rightarrow> (out, errs @ [e])
                  | Inr cs \<Rightarrow> (out @ map (\<lambda>c. (c, asOrderType (prSpec run))) cs, errs)),
                 d\<lparr>dpParents := fmupd pid run' (dpParents d)\<rparr>))))"

definition OnBar_d :: "symbol \<Rightarrow> gotime \<Rightarrow> Dispatcher \<Rightarrow> ((ChildOrder \<times> OrderType) list \<times> exec_error list) \<times> Dispatcher" where
  "OnBar_d symb date d = fold (bar_step symb date) (sorted_keys (dpParents d)) (([], []), d)"

definition OnFill_d :: "string \<Rightarrow> f64 \<Rightarrow> Dispatcher \<Rightarrow> exec_error option \<times> Dispatcher" where
  "OnFill_d orderID qty d =
     (case fmlookup (dpChildIdx d) orderID of
        None \<Rightarrow> (None, d)
      | Some pid \<Rightarrow>
          (let run = the (fmlookup (dpParents d) pid);
               nxt = fadd (prFilled run) qty
           in if flt (qtySumTolerance (asQty (prSpec run))) (fsub nxt (asQty (prSpec run)))
              then (Some (OverFilled pid (prFilled run) qty (asQty (prSpec run)) orderID), d)
              else (None, d\<lparr>dpParents := fmupd pid (run\<lparr>prFilled := nxt\<rparr>) (dpParents d)\<rparr>)))"

definition Progress_d :: "string \<Rightarrow> Dispatcher \<Rightarrow> (f64 \<times> f64) option" where
  "Progress_d parentID d = map_option (\<lambda>run. (prFilled run, asQty (prSpec run))) (fmlookup (dpParents d) parentID)"

definition cancellable :: "parentRun \<Rightarrow> bool" where
  "cancellable run \<longleftrightarrow> \<not> prCancelled run \<and>
     flt (prFilled run) (fsub (asQty (prSpec run)) (qtySumTolerance (asQty (prSpec run))))"

definition progressOf :: "string \<Rightarrow> parentRun \<Rightarrow> ParentProgress" where
  "progressOf parentID run =
     \<lparr>ppParentID = parentID, ppSymbol = asSymbol (prSpec run), ppSide = asSide (prSpec run), ppFilled = prFilled run,
      ppTotal = asQty (prSpec run), ppReason = prCancelReason run\<rparr>"

definition cancel_run :: "string \<Rightarrow> parentRun \<Rightarrow> parentRun" where
  "cancel_run reason run = run\<lparr>prCancelled := True, prCancelReason := reason\<rparr>"

definition Cancel_d :: "string \<Rightarrow> string \<Rightarrow> Dispatcher \<Rightarrow> ParentProgress option \<times> Dispatcher" where
  "Cancel_d parentID reason d =
     (case fmlookup (dpParents d) parentID of
        None \<Rightarrow> (None, d)
      | Some run \<Rightarrow>
          if \<not> cancellable run then (None, d)
          else (Some (progressOf parentID (cancel_run reason run)),
                d\<lparr>dpParents := fmupd parentID (cancel_run reason run) (dpParents d)\<rparr>))"

definition CancelSymbol :: "symbol \<Rightarrow> string \<Rightarrow> Dispatcher \<Rightarrow> ParentProgress list \<times> Dispatcher" where
  "CancelSymbol symb reason d =
     fold (\<lambda>pid (out, d).
         case fmlookup (dpParents d) pid of
           None \<Rightarrow> (out, d)
         | Some run \<Rightarrow>
             if asSymbol (prSpec run) \<noteq> symb \<or> \<not> cancellable run then (out, d)
             else (out @ [progressOf pid (cancel_run reason run)],
                   d\<lparr>dpParents := fmupd pid (cancel_run reason run) (dpParents d)\<rparr>))
       (sorted_keys (dpParents d)) ([], d)"

definition select_parents :: "(parentRun \<Rightarrow> bool) \<Rightarrow> Dispatcher \<Rightarrow> ParentProgress list" where
  "select_parents P d =
     List.map_filter (\<lambda>pid. case fmlookup (dpParents d) pid of
         None \<Rightarrow> None | Some run \<Rightarrow> if P run then Some (progressOf pid run) else None) (sorted_keys (dpParents d))"

definition ActiveParents :: "Dispatcher \<Rightarrow> ParentProgress list" where
  "ActiveParents = select_parents (\<lambda>run. \<not> prCancelled run)"

definition Unfinished :: "Dispatcher \<Rightarrow> ParentProgress list" where
  "Unfinished = select_parents cancellable"

definition Symbols_d :: "Dispatcher \<Rightarrow> symbol list" where
  "Symbols_d d = sorted_list_of_set (set (map ppSymbol (ActiveParents d)))"

definition Len_d :: "Dispatcher \<Rightarrow> nat" where
  "Len_d d = length (ActiveParents d)"

definition Plan_d :: "string \<Rightarrow> Dispatcher \<Rightarrow> ChildOrder list option" where
  "Plan_d parentID d = map_option prPlan (fmlookup (dpParents d) parentID)"

section \<open>Order numbers\<close>

lemma pad4_inj: "pad4 i = pad4 j \<Longrightarrow> i = j"
  by (metis digits_val_itoa digits_val_zeros pad4_def)

lemma pad4_digits: "c \<in> set (pad4 i) \<Longrightarrow> is_digit_char c"
  using itoa_digits(1) [of i] by (auto simp: pad4_def is_digit_char_def)

text \<open>The part of an order number after its last hyphen.\<close>

definition last_part :: "string \<Rightarrow> string" where
  "last_part s = rev (takeWhile (\<lambda>c. c \<noteq> CHR ''-'') (rev s))"

lemma last_part_child: "last_part (childOrderID pid i) = ''C'' @ pad4 i"
proof -
  have "\<not> is_digit_char CHR ''-''" by (simp add: is_digit_char_def)
  then have "\<forall>c \<in> set (rev (''C'' @ pad4 i)). c \<noteq> CHR ''-''"
    using pad4_digits [of "CHR ''-''" i] by auto
  then have "takeWhile (\<lambda>c. c \<noteq> CHR ''-'') (rev (''C'' @ pad4 i) @ CHR ''-'' # rev pid) = rev (''C'' @ pad4 i)"
    by (subst takeWhile_append2) auto
  moreover have "rev (childOrderID pid i) = rev (''C'' @ pad4 i) @ CHR ''-'' # rev pid"
    by (simp add: childOrderID_def)
  ultimately show ?thesis by (simp only: last_part_def rev_rev_ident)
qed

lemma childOrderID_inj: "childOrderID pid i = childOrderID pid' j \<longleftrightarrow> pid = pid' \<and> i = j"
proof
  assume eq: "childOrderID pid i = childOrderID pid' j"
  then have "''C'' @ pad4 i = ''C'' @ pad4 j" by (metis last_part_child)
  then have "i = j" by (simp add: pad4_inj)
  with eq show "pid = pid' \<and> i = j" by (simp add: childOrderID_def)
qed simp

section \<open>Plans\<close>

lemma buildPlan_length: "length (buildPlan parent qtys ts) = min (length qtys) (length ts)"
  by (simp add: buildPlan_def)

lemma buildPlan_nth:
  assumes "i < length qtys" "i < length ts"
  shows "buildPlan parent qtys ts ! i = build_child parent i (qtys ! i) (ts ! i)"
  using assms by (simp add: buildPlan_def nth_enumerate_eq)

lemma allocate_loop_length: "length (fst (allocate_loop t b ws acc)) = length ws"
  by (induction t b ws acc rule: allocate_loop.induct) (simp_all add: Let_def case_prod_beta)

lemma allocateQty_length: "length (allocateQty t ws) = length ws"
  by (cases ws rule: rev_cases) (simp_all add: allocateQty_def Let_def case_prod_beta allocate_loop_length)

lemma splitWindow_length: "length (splitWindow a b n) = nat n"
  by (simp add: splitWindow_def Let_def)

lemma splitWindow_nth: "i < nat n \<Longrightarrow> splitWindow a b n ! i = a + int i * ((b - a) sdiv n)"
  by (simp add: splitWindow_def Let_def)

lemma splitWindow_within:
  assumes "a < b" "i < nat n"
  shows "a \<le> splitWindow a b n ! i \<and> splitWindow a b n ! i < b"
proof -
  have n: "0 < n" "int i < n" using assms(2) by auto
  have s: "(b - a) sdiv n = (b - a) div n" using n assms(1) by (simp add: signed_divide_int_def sgn_if)
  have "0 \<le> (b - a) div n" using n assms(1) by (simp add: pos_imp_zdiv_nonneg_iff)
  moreover have "int i * ((b - a) div n) < b - a"
  proof (cases "(b - a) div n = 0")
    case False
    with calculation have "int i * ((b - a) div n) < n * ((b - a) div n)" using n by simp
    also have "\<dots> \<le> b - a" using mult_div_mod_eq [of n "b - a"] pos_mod_sign [of n "b - a"] n(1) by linarith
    finally show ?thesis .
  qed (use assms(1) in simp)
  ultimately show ?thesis using assms(2) s by (simp add: splitWindow_nth)
qed

lemma make_plan_shape:
  assumes "length ws = nat n"
  shows "length (make_plan parent n ws) = nat n"
    and "i < nat n \<Longrightarrow> make_plan parent n ws ! i =
      build_child parent i (allocateQty (poQty parent) ws ! i) (splitWindow (poStartAt parent) (poEndAt parent) n ! i)"
  using assms by (simp_all add: make_plan_def buildPlan_length buildPlan_nth allocateQty_length splitWindow_length)

section \<open>Allocation of whole shares\<close>

lemma math_Round_pos:
  assumes "x \<noteq> NaN" "\<not> fle (math_Round x) (Fin 0)"
  shows "math_Round x = PInf \<or> (\<exists>k. math_Round x = Fin (of_int k) \<and> 0 < k)"
  using assms by (cases x) (auto simp: fle_def split: if_splits)

lemma allocate_loop_Cons:
  assumes "allocate_loop t True (w # ws) acc = (qs, acc')" "\<forall>w' \<in> set (w # ws). fmul t w' \<noteq> NaN"
    "\<forall>q \<in> set qs. \<not> fle q (Fin 0)"
  obtains q qs' where "qs = q # qs'" "allocate_loop t True ws (fadd acc q) = (qs', acc')"
    "q = PInf \<or> (\<exists>k. q = Fin (of_int k) \<and> 0 < k)" "fle (Fin 0) q"
proof -
  define q where "q = math_Round (fmul t w)"
  from assms(1) obtain qs' where qs: "qs = q # qs'" "allocate_loop t True ws (fadd acc q) = (qs', acc')"
    by (auto simp: Let_def q_def split: prod.splits)
  have "q = PInf \<or> (\<exists>k. q = Fin (of_int k) \<and> 0 < k)"
    using math_Round_pos [of "fmul t w"] assms(2,3) qs(1) by (simp add: q_def)
  moreover from this have "fle (Fin 0) q" by (auto simp: fle_fin)
  ultimately show ?thesis using that qs by blast
qed

text \<open>Once the running sum has reached the largest whole number it stays there.\<close>

lemma fadd_saturated: "fle (Fin (2 ^ 53)) x \<Longrightarrow> fle (Fin 0) y \<Longrightarrow> fle (Fin (2 ^ 53)) (fadd x y)"
proof -
  assume x: "fle (Fin (2 ^ 53)) x" and y: "fle (Fin 0) y"
  have x0: "fle (Fin 0) x" by (rule fle_trans [OF _ x]) (simp add: fle_fin)
  have "fadd (Fin (2 ^ 53)) (Fin 0) = Fin (2 ^ 53)" using fadd_int [of "2 ^ 53" 0] by simp
  with fadd_mono [OF x y] fadd_nonneg_not_NaN [OF x0 y] show ?thesis by simp
qed

lemma allocate_loop_saturated:
  assumes "allocate_loop t True ws acc = (qs, acc')" "\<forall>w \<in> set ws. fmul t w \<noteq> NaN" "\<forall>q \<in> set qs. \<not> fle q (Fin 0)"
    and "fle (Fin (2 ^ 53)) acc"
  shows "fle (Fin (2 ^ 53)) acc'"
  using assms
proof (induction ws arbitrary: acc qs)
  case (Cons w ws)
  obtain q qs' where "qs = q # qs'" "allocate_loop t True ws (fadd acc q) = (qs', acc')" "fle (Fin 0) q"
    using allocate_loop_Cons [OF Cons.prems(1,2,3)] by blast
  with Cons.IH [of "fadd acc q" qs'] fadd_saturated [OF Cons.prems(4)] Cons.prems(2,3) show ?case by auto
qed simp

text \<open>The running sum is an exact whole number, or so large that no share is left for the last slice.\<close>

lemma allocate_loop_exact:
  assumes "allocate_loop t True ws (Fin (of_int a)) = (qs, acc')" "\<forall>w \<in> set ws. fmul t w \<noteq> NaN"
    and "\<forall>q \<in> set qs. \<not> fle q (Fin 0)" "0 \<le> a" "a \<le> 2 ^ 53"
  shows "fle (Fin (2 ^ 53)) acc' \<or>
    (\<exists>ks. qs = map (\<lambda>k. Fin (of_int k)) ks \<and> (\<forall>k \<in> set ks. 0 < k) \<and>
       acc' = Fin (of_int (a + sum_list ks)) \<and> a + sum_list ks \<le> 2 ^ 53)"
  using assms
proof (induction ws arbitrary: a qs)
  case Nil
  then show ?case by (auto intro: exI [of _ "[]"])
next
  case (Cons w ws)
  obtain q qs' where q: "qs = q # qs'" "allocate_loop t True ws (fadd (Fin (of_int a)) q) = (qs', acc')"
      "q = PInf \<or> (\<exists>k. q = Fin (of_int k) \<and> 0 < k)"
    using allocate_loop_Cons [OF Cons.prems(1,2,3)] by blast
  have rest: "\<forall>w \<in> set ws. fmul t w \<noteq> NaN" "\<forall>q \<in> set qs'. \<not> fle q (Fin 0)"
    using Cons.prems(2,3) q(1) by auto
  show ?case
  proof (cases "\<exists>k. q = Fin (of_int k) \<and> 0 < k \<and> a + k \<le> 2 ^ 53")
    case True
    then obtain k where k: "q = Fin (of_int k)" "0 < k" "a + k \<le> 2 ^ 53" by blast
    have "fadd (Fin (of_int a)) q = Fin (of_int (a + k))" using k Cons.prems(4) by (simp only: k(1)) (rule fadd_int, simp)
    with q(2) have "allocate_loop t True ws (Fin (of_int (a + k))) = (qs', acc')" by simp
    from Cons.IH [OF this rest] k(2,3) Cons.prems(4) consider "fle (Fin (2 ^ 53)) acc'"
      | ks where "qs' = map (\<lambda>k. Fin (of_int k)) ks" "\<forall>k \<in> set ks. 0 < k" "acc' = Fin (of_int (a + k + sum_list ks))"
          "a + k + sum_list ks \<le> 2 ^ 53"
      by auto
    then show ?thesis
    proof cases
      case 2
      then show ?thesis using q(1) k by (intro disjI2 exI [of _ "k # ks"]) (auto simp: add.assoc)
    qed simp
  next
    case False
    have "fle (Fin (2 ^ 53)) (fadd (Fin (of_int a)) q)"
    proof (cases "q = PInf")
      case True
      then show ?thesis by (simp add: fadd_def)
    next
      case False
      with q(3) \<open>\<not> (\<exists>k. _ k)\<close> obtain k where k: "q = Fin (of_int k)" "2 ^ 53 < a + k" by fastforce
      have "rnd (of_int (2 ^ 53)) = Fin (of_int (2 ^ 53))" using fint_exact [of "2 ^ 53"] by (simp add: fint_def)
      moreover have "fle (rnd (of_int (2 ^ 53))) (rnd (of_int (a + k)))" using k(2) by (intro rnd_mono) (simp only: of_int_le_iff)
      ultimately show ?thesis using k(1) by (simp add: fadd_fin)
    qed
    with allocate_loop_saturated [OF q(2) rest] show ?thesis by blast
  qed
qed

lemma allocateQty_exact:
  assumes "\<forall>w \<in> set ws. fmul (Fin (of_int q)) w \<noteq> NaN" "\<forall>x \<in> set (allocateQty (Fin (of_int q)) ws). \<not> fle x (Fin 0)"
    and "0 < q" "q \<le> 2 ^ 53" "ws \<noteq> []"
  shows "\<exists>ks. allocateQty (Fin (of_int q)) ws = map (\<lambda>k. Fin (of_int k)) ks \<and> (\<forall>k \<in> set ks. 0 < k) \<and> sum_list ks = q"
proof (cases "length ws = 1")
  case True
  with assms(3) show ?thesis by (intro exI [of _ "[q]"]) (auto simp: allocateQty_def)
next
  case False
  have int: "feq (Fin (of_int q)) (math_Trunc (Fin (of_int q)))"
    using assms(3) by (simp add: trunc_rat_def feq_def)
  obtain qs acc where loop: "allocate_loop (Fin (of_int q)) True (butlast ws) (Fin (of_int 0)) = (qs, acc)" by force
  let ?l = "fsub (Fin (of_int q)) acc"
  have eq: "allocateQty (Fin (of_int q)) ws = qs @ [if flt ?l (Fin 0) then Fin 0 else ?l]"
    using False assms(5) int loop by (simp add: allocateQty_def Let_def)
  then have l: "\<not> fle (if flt ?l (Fin 0) then Fin 0 else ?l) (Fin 0)" "\<forall>x \<in> set qs. \<not> fle x (Fin 0)"
    using assms(2) by auto
  have "\<forall>w \<in> set (butlast ws). fmul (Fin (of_int q)) w \<noteq> NaN" using assms(1) by (meson in_set_butlastD)
  from allocate_loop_exact [OF loop this l(2)] consider "fle (Fin (2 ^ 53)) acc"
    | ks where "qs = map (\<lambda>k. Fin (of_int k)) ks" "\<forall>k \<in> set ks. 0 < k" "acc = Fin (of_int (sum_list ks))"
        "sum_list ks \<le> 2 ^ 53"
    by auto
  then show ?thesis
  proof cases
    case 1
    have "fle (Fin (of_int q)) acc" 
    proof (rule fle_trans [OF _ 1])
      have "rat_of_int q \<le> of_int (2 ^ 53)" using assms(4) by (simp only: of_int_le_iff)
      then show "fle (Fin (of_int q)) (Fin (2 ^ 53))" by (simp add: fle_fin)
    qed
    then have "fle ?l (Fin 0)"
    proof (cases "is_fin acc")
      case True
      with \<open>fle (Fin (of_int q)) acc\<close> have "of_int q - valof acc \<le> 0" by (simp add: fle_fin)
      then have "fle (rnd (of_int q - valof acc)) (rnd 0)" by (rule rnd_mono)
      with True show ?thesis by (simp add: fsub_fin)
    next
      case False
      with 1 have "acc = PInf" by (cases acc) (auto simp: fle_def)
      then show ?thesis by (simp add: fsub_def fadd_def fle_def)
    qed
    with l(1) show ?thesis by (auto simp: fle_refl split: if_splits)
  next
    case 2
    have k0: "0 \<le> sum_list ks" using 2(2) by (intro sum_list_nonneg) auto
    have "?l = Fin (of_int (q - sum_list ks))"
      unfolding 2(3) using k0 2(4) assms(3,4) by (intro fsub_int) auto
    moreover from this l(1) have "0 < q - sum_list ks" by (auto simp: fle_fin flt_fin split: if_splits)
    ultimately show ?thesis using eq 2
      by (intro exI [of _ "ks @ [q - sum_list ks]"]) (auto simp: flt_fin)
  qed
qed

section \<open>Attaching a parent order\<close>

lemma fmul_not_NaN: "w \<noteq> NaN \<Longrightarrow> q \<noteq> 0 \<Longrightarrow> fmul (Fin q) w \<noteq> NaN"
  by (cases w) (auto simp: fmul_def Let_def is_inf_def)

lemma fdiv_not_NaN: "is_fin v \<Longrightarrow> flt (Fin 0) x \<Longrightarrow> fdiv v x \<noteq> NaN"
  by (cases v; cases x) (auto simp: fdiv_def Let_def is_inf_def flt_def)

lemma fint_pos: "0 < n \<Longrightarrow> flt (Fin 0) (fint n)"
proof -
  assume "0 < n"
  then have "fle (rnd (of_int 1)) (rnd (of_int n))" by (intro rnd_mono) simp
  moreover have "rnd (of_int 1) = Fin 1" using fint_exact [of 1] by (simp add: fint_def)
  moreover have "flt (Fin 0) (Fin 1)" by (simp add: flt_fin)
  ultimately show ?thesis using flt_fle_trans [of "Fin 0" "Fin 1"] by (simp add: fint_def)
qed

lemma equal_weights_props:
  "length (equal_weights n) = nat n" "w \<in> set (equal_weights n) \<Longrightarrow> 0 < n \<Longrightarrow> w \<noteq> NaN"
  by (auto simp: equal_weights_def fdiv_not_NaN fint_pos)

lemma vwapWeights_props:
  assumes "vwapWeights n profile = (ws, b)" "0 < n"
  shows "length ws = nat n" "list_all is_fin profile \<Longrightarrow> w \<in> set ws \<Longrightarrow> w \<noteq> NaN"
  using assms equal_weights_props [where n = n]
  by (auto simp: vwapWeights_def Let_def list_all_iff split: if_splits; metis fdiv_not_NaN)+

lemma effectiveSlices_pos:
  assumes "0 < n"
  shows "0 < effectiveSlices n qty"
proof (cases "feq qty (math_Trunc qty) \<and> fle (Fin 1) qty \<and> flt qty (fint n)")
  case True
  then have "is_fin qty" by (cases qty; cases "fint n") (auto simp: fle_def flt_def)
  with True have "1 \<le> valof qty" by (auto simp: fle_fin)
  then have "1 \<le> trunc_rat (valof qty)" by (simp add: trunc_rat_def one_le_floor)
  with True show ?thesis by (simp add: effectiveSlices_def f64_int_def)
qed (use assms in \<open>auto simp: effectiveSlices_def\<close>)

lemma slices_pos: "0 < twap_slices slices parent" "0 < vwap_slices slices profile parent"
  by (auto simp: twap_slices_def vwap_slices_def deriveSlices_def Let_def intro!: effectiveSlices_pos)

fun algo_slices :: "ExecAlgorithm \<Rightarrow> ParentOrder \<Rightarrow> int" where
  "algo_slices (TWAP slices st) parent = twap_slices slices parent"
| "algo_slices (VWAP slices profile degraded st) parent = vwap_slices slices profile parent"

fun algo_profile :: "ExecAlgorithm \<Rightarrow> f64 list" where
  "algo_profile (TWAP slices st) = []"
| "algo_profile (VWAP slices profile degraded st) = profile"

lemma Schedule_outcome:
  assumes "Schedule parent algo = (Inr plan, algo')"
  obtains ws where "validateParent parent = None" "plan = make_plan parent (algo_slices algo parent) ws"
    "length ws = nat (algo_slices algo parent)" "0 < algo_slices algo parent"
    "list_all is_fin (algo_profile algo) \<Longrightarrow> \<forall>w \<in> set ws. w \<noteq> NaN" "algo_state algo' = ps_reset parent plan"
proof (cases algo)
  case (TWAP slices st)
  let ?n = "twap_slices slices parent"
  show ?thesis
    by (rule that [of "equal_weights ?n"])
      (use assms TWAP slices_pos(1) equal_weights_props [where n = ?n] in \<open>auto simp: twap_Schedule_def Let_def split: option.splits\<close>)
next
  case (VWAP slices profile degraded st)
  let ?n = "vwap_slices slices profile parent"
  obtain ws b where w: "vwapWeights ?n profile = (ws, b)" by force
  show ?thesis
    by (rule that [of ws])
      (use assms VWAP slices_pos(2) vwapWeights_props [OF w] w in \<open>auto simp: vwap_Schedule_def Let_def split: option.splits\<close>)
qed

lemma sum_plan_pos: "sum_plan pid i cs acc = Inr s \<Longrightarrow> c \<in> set cs \<Longrightarrow> \<not> fle (coQty c) (Fin 0)"
  by (induction pid i cs acc rule: sum_plan.induct) (auto split: if_splits)

lemma Attach_outcome:
  assumes "Attach spec d = (Inr plan, d')"
  obtains algo algo' where "asParentID spec \<noteq> []" "new_algo spec = Inr algo"
    "Schedule (spec_parent spec) algo = (Inr plan, algo')" "\<forall>c \<in> set plan. \<not> fle (coQty c) (Fin 0)"
    "fmlookup (dpParents d) (asParentID spec) = None"
    "d' = \<lparr>dpParents = fmupd (asParentID spec)
        \<lparr>prSpec = spec, prAlgo = algo', prPlan = plan, prFilled = Fin 0, prSubmitted = Fin 0, prCancelled = False,
         prCancelReason = []\<rparr> (dpParents d),
      dpChildIdx = register_children (asParentID spec) plan (dpChildIdx d)\<rparr>"
  using assms sum_plan_pos
  by (fastforce simp: Attach_def split: if_splits sum.splits prod.splits option.splits)

lemma new_algo_profile: "new_algo spec = Inr algo \<Longrightarrow> list_all is_fin (asProfile spec) \<Longrightarrow> list_all is_fin (algo_profile algo)"
  by (auto simp: new_algo_def split: if_splits)

lemma scheduled_plan:
  assumes "Schedule (spec_parent spec) algo = (Inr plan, algo')"
  shows "map coOrderID plan = map (childOrderID (asParentID spec)) [0..<length plan]" (is ?ids)
    and "\<forall>c \<in> set plan. asStartAt spec \<le> coSubmitAt c \<and> coSubmitAt c < asEndAt spec \<and> coSymbol c = asSymbol spec \<and>
      coSide c = asSide spec \<and> coParentID c = asParentID spec" (is ?children)
    and "\<exists>step. map coSubmitAt plan = map (\<lambda>i. asStartAt spec + int i * step) [0..<length plan]" (is ?times)
    and "\<exists>ws. map coQty plan = allocateQty (asQty spec) ws \<and> ws \<noteq> [] \<and>
      (list_all is_fin (algo_profile algo) \<longrightarrow> (\<forall>w \<in> set ws. w \<noteq> NaN))" (is ?qtys)
    and "\<not> fle (asQty spec) (Fin 0)" (is ?pos)
    and "algo_state algo' = ps_reset (spec_parent spec) plan" (is ?state)
proof -
  let ?p = "spec_parent spec"
  obtain n ws where w: "validateParent ?p = None" "plan = make_plan ?p n ws" "length ws = nat n" "0 < n"
    "list_all is_fin (algo_profile algo) \<longrightarrow> (\<forall>w \<in> set ws. w \<noteq> NaN)" "algo_state algo' = ps_reset ?p plan"
    using Schedule_outcome [OF assms] by metis
  have v: "asStartAt spec < asEndAt spec" using w(1) by (auto simp: validateParent_def spec_parent_def split: if_splits)
  show ?pos ?state using w(1,6) by (auto simp: validateParent_def spec_parent_def split: if_splits)
  have len: "length plan = nat n" using w(2) make_plan_shape(1) [OF w(3), of ?p] by simp
  have nth: "plan ! i = build_child ?p i (allocateQty (asQty spec) ws ! i) (splitWindow (asStartAt spec) (asEndAt spec) n ! i)"
    if "i < nat n" for i
    using make_plan_shape(2) [OF w(3) that, of ?p] w(2) by (simp add: spec_parent_def)
  have "map coQty plan = allocateQty (asQty spec) ws"
    by (rule nth_equalityI) (simp_all add: len nth allocateQty_length w(3) build_child_def)
  moreover have "ws \<noteq> []" using w(3,4) by auto
  ultimately show ?qtys using w(5) by blast
  show ?ids by (rule nth_equalityI) (simp_all add: len nth build_child_def spec_parent_def)
  have "map coSubmitAt plan =
      map (\<lambda>i. asStartAt spec + int i * ((asEndAt spec - asStartAt spec) sdiv n)) [0..<length plan]"
    by (rule nth_equalityI) (simp_all add: len nth build_child_def splitWindow_nth)
  then show ?times by blast
  show ?children
    using splitWindow_within [OF v] by (auto simp: in_set_conv_nth len nth build_child_def spec_parent_def)
qed

text \<open>C35: an order that the dispatcher accepts is split without loss. For a quantity of whole shares and a volume profile
  without infinities, whatever the algorithm and the weights: the children have positive whole
  quantities that add up to exactly the quantity of the parent; they are numbered from zero under
  distinct order numbers; they are submitted at equal distances from the start of the window on, all
  before its end; and each inherits the parent's symbol and side.\<close>

theorem attach_conserves:
  assumes "Attach spec d = (Inr plan, d')" "asQty spec = Fin (of_int q)" "q \<le> 2 ^ 53" "list_all is_fin (asProfile spec)"
  shows "(\<exists>ks. map coQty plan = map (\<lambda>k. Fin (of_int k)) ks \<and> (\<forall>k \<in> set ks. 0 < k) \<and> sum_list ks = q) \<and>
    map coOrderID plan = map (childOrderID (asParentID spec)) [0..<length plan] \<and> distinct (map coOrderID plan) \<and>
    (\<exists>step. map coSubmitAt plan = map (\<lambda>i. asStartAt spec + int i * step) [0..<length plan]) \<and>
    (\<forall>c \<in> set plan. asStartAt spec \<le> coSubmitAt c \<and> coSubmitAt c < asEndAt spec \<and>
       coSymbol c = asSymbol spec \<and> coSide c = asSide spec)"
proof -
  obtain algo algo' where a: "new_algo spec = Inr algo" "Schedule (spec_parent spec) algo = (Inr plan, algo')"
    "\<forall>c \<in> set plan. \<not> fle (coQty c) (Fin 0)"
    using Attach_outcome [OF assms(1)] by blast
  note plan = scheduled_plan [OF a(2)]
  have q: "0 < q" using plan(5) assms(2) by (auto simp: fle_fin)
  obtain ws where w: "map coQty plan = allocateQty (asQty spec) ws" "ws \<noteq> []" "\<forall>w \<in> set ws. w \<noteq> NaN"
    using plan(4) new_algo_profile [OF a(1) assms(4)] by blast
  have "\<forall>x \<in> set (allocateQty (Fin (of_int q)) ws). \<not> fle x (Fin 0)"
    using a(3) w(1) assms(2) by (metis (no_types, lifting) imageE list.set_map)
  moreover have "\<forall>w \<in> set ws. fmul (Fin (of_int q)) w \<noteq> NaN" using w(3) q by (simp add: fmul_not_NaN)
  ultimately have "\<exists>ks. map coQty plan = map (\<lambda>k. Fin (of_int k)) ks \<and> (\<forall>k \<in> set ks. 0 < k) \<and> sum_list ks = q"
    using allocateQty_exact q assms(3) w(1,2) assms(2) by simp
  moreover have "distinct (map coOrderID plan)" using plan(1) by (simp add: distinct_map inj_on_def childOrderID_inj)
  ultimately show ?thesis using plan(1-3) by blast
qed

definition sample_spec :: AttachSpec where
  "sample_spec = \<lparr>asParentID = ''P'', asRunID = [], asSymbol = ''A'', asSide = DirectionLong, asQty = Fin 11,
     asLimitPrice = Fin 0, asStyle = StyleTWAP, asSlices = 4, asProfile = [], asOrderType = OrderTypeMarket,
     asStartAt = 0, asEndAt = 4 * day_ns\<rparr>"

theorem attach_conserves_witness:
  "\<exists>plan d'. Attach sample_spec NewDispatcher = (Inr plan, d') \<and>
     (\<exists>ks. map coQty plan = map (\<lambda>k. Fin (of_int k)) ks \<and> (\<forall>k \<in> set ks. 0 < k) \<and> sum_list ks = 11)"
proof -
  have "\<not> isl (fst (Attach sample_spec NewDispatcher))" by code_simp
  then obtain plan d' where "Attach sample_spec NewDispatcher = (Inr plan, d')"
    by (cases "Attach sample_spec NewDispatcher"; cases "fst (Attach sample_spec NewDispatcher)") auto
  with attach_conserves [of sample_spec NewDispatcher plan d' 11] show ?thesis
    by (simp add: sample_spec_def)
qed

text \<open>The slices are rounded one by one: eleven shares in seven slices make twelve, and the order is refused.\<close>

lemma allocation_overshoots:
  "map valof (allocateQty (Fin 11) (equal_weights 7)) = [2, 2, 2, 2, 2, 2, 0]"
  "fst (Attach (sample_spec\<lparr>asSlices := 7\<rparr>) NewDispatcher) = Inl (SliceNotPositive ''P'' 6 (Fin 0))"
  by code_simp+

text \<open>An infinite volume yields quantities that are not numbers, and the order is accepted.\<close>

lemma infinite_volume_accepted:
  "map_option (map coQty) (Plan_d ''P''
     (snd (Attach (sample_spec\<lparr>asStyle := StyleVWAP, asSlices := 2, asProfile := [PInf, Fin 1]\<rparr>) NewDispatcher))) =
   Some [NaN, NaN]"
  by code_simp

section \<open>Handing out child orders\<close>

text \<open>A run of the dispatcher: the children handed out so far, in order, and its state.\<close>

inductive dp_run :: "ChildOrder list \<Rightarrow> Dispatcher \<Rightarrow> bool" where
  new: "dp_run [] NewDispatcher"
| attach: "dp_run out d \<Longrightarrow> dp_run out (snd (Attach spec d))"
| bar: "dp_run out d \<Longrightarrow> OnBar_d symb date d = ((cs, errs), d') \<Longrightarrow> dp_run (out @ map fst cs) d'"
| fill: "dp_run out d \<Longrightarrow> dp_run out (snd (OnFill_d orderID qty d))"
| cancel: "dp_run out d \<Longrightarrow> dp_run out (snd (Cancel_d pid reason d))"
| cancel_symbol: "dp_run out d \<Longrightarrow> dp_run out (snd (CancelSymbol symb reason d))"

abbreviation cursor :: "parentRun \<Rightarrow> nat" where
  "cursor run \<equiv> psNextIdx (algo_state (prAlgo run))"

definition run_ok :: "string \<Rightarrow> parentRun \<Rightarrow> bool" where
  "run_ok pid run \<longleftrightarrow> pid \<noteq> [] \<and> poOrderID (psParent (algo_state (prAlgo run))) = pid \<and>
     psPlan (algo_state (prAlgo run)) = prPlan run \<and> psDue (algo_state (prAlgo run)) = [] \<and>
     cursor run \<le> length (prPlan run) \<and>
     (\<forall>c \<in> set (prPlan run). coParentID c = pid \<and> coSubmitAt c < asEndAt (prSpec run) \<and> coSymbol c = asSymbol (prSpec run)) \<and>
     map coOrderID (prPlan run) = map (childOrderID pid) [0..<length (prPlan run)] \<and>
     \<not> flt (qtySumTolerance (asQty (prSpec run))) (fsub (prFilled run) (asQty (prSpec run)))"

definition handed_out :: "string \<Rightarrow> ChildOrder list \<Rightarrow> ChildOrder list" where
  "handed_out pid out = filter (\<lambda>c. coParentID c = pid) out"

definition dp_ok :: "ChildOrder list \<Rightarrow> Dispatcher \<Rightarrow> bool" where
  "dp_ok out d \<longleftrightarrow>
     (\<forall>pid run. fmlookup (dpParents d) pid = Some run \<longrightarrow>
        run_ok pid run \<and> handed_out pid out = take (cursor run) (prPlan run)) \<and>
     (\<forall>c \<in> set out. coParentID c |\<in>| fmdom (dpParents d)) \<and>
     (\<forall>cid pid. fmlookup (dpChildIdx d) cid = Some pid \<longrightarrow> pid |\<in>| fmdom (dpParents d))"

text \<open>What one bar takes out of a parent.\<close>

definition taken :: "symbol \<Rightarrow> gotime \<Rightarrow> parentRun \<Rightarrow> ChildOrder list" where
  "taken symb date run =
     (if prCancelled run \<or> asSymbol (prSpec run) \<noteq> symb then [] else due_at date (algo_state (prAlgo run)))"

lemma algo_state_set [simp]: "algo_state (set_algo_state st algo) = st"
  by (cases algo) simp_all

lemma bar_parent_ok:
  assumes "run_ok pid run"
  obtains run' where "bar_parent symb date run = (Inr (taken symb date run), run')" "run_ok pid run'"
    "prPlan run' = prPlan run" "prCancelled run' = prCancelled run" "prSpec run' = prSpec run"
    "take (cursor run') (prPlan run) = take (cursor run) (prPlan run) @ taken symb date run"
proof (cases "prCancelled run \<or> asSymbol (prSpec run) \<noteq> symb")
  case True
  then show ?thesis using that [of run] assms by (simp add: bar_parent_def taken_def)
next
  case False
  let ?st = "algo_state (prAlgo run)"
  let ?cs = "due_at date ?st"
  let ?st' = "?st\<lparr>psNextIdx := psNextIdx ?st + length ?cs, psDue := []\<rparr>"
  let ?r = "run\<lparr>prAlgo := set_algo_state ?st' (prAlgo run),
      prSubmitted := foldl (\<lambda>s c. fadd s (coQty c)) (prSubmitted run) ?cs\<rparr>"
  have st: "psPlan ?st = prPlan run" "psDue ?st = []" "poOrderID (psParent ?st) \<noteq> []" "cursor run \<le> length (prPlan run)"
    using assms by (auto simp: run_ok_def)
  have drop: "drop (cursor run) (prPlan run) = ?cs @ dropWhile (\<lambda>c. coSubmitAt c \<le> date) (drop (cursor run) (prPlan run))"
    by (simp add: due_at_def st(1))
  then have take: "take (cursor run + length ?cs) (prPlan run) = take (cursor run) (prPlan run) @ ?cs"
    by (metis append_eq_conv_conj take_add)
  have "length ?cs \<le> length (prPlan run) - cursor run"
    using drop by (metis length_append length_drop le_add1)
  then have len: "cursor run + length ?cs \<le> length (prPlan run)" using st(4) by linarith
  have "bar_parent symb date run = (Inr ?cs, ?r)"
    using False st by (simp add: bar_parent_def onBar_def dueChildOrders_def Let_def)
  moreover have "run_ok pid ?r" using assms len by (simp add: run_ok_def)
  ultimately show ?thesis using that [of ?r] False take by (simp add: taken_def)
qed

lemma bar_fold:
  assumes "fold (bar_step symb date) ks ((out, errs), d) = ((out', errs'), d')" "distinct ks"
    and "\<And>pid run. fmlookup (dpParents d) pid = Some run \<Longrightarrow> run_ok pid run" "set ks \<subseteq> fset (fmdom (dpParents d))"
  shows "dpChildIdx d' = dpChildIdx d \<and> errs' = errs \<and>
    map fst out' = map fst out @ concat (map (\<lambda>pid. taken symb date (the (fmlookup (dpParents d) pid))) ks) \<and>
    (\<forall>pid. fmlookup (dpParents d') pid =
       (if pid \<in> set ks then map_option (\<lambda>run. snd (bar_parent symb date run)) (fmlookup (dpParents d) pid)
        else fmlookup (dpParents d) pid))"
  using assms
proof (induction ks arbitrary: out d)
  case (Cons k ks)
  from Cons.prems(4) obtain run where run: "fmlookup (dpParents d) k = Some run" by (auto simp: fmlookup_dom_iff)
  obtain run' where b: "bar_parent symb date run = (Inr (taken symb date run), run')" "run_ok k run'"
    using bar_parent_ok [OF Cons.prems(3) [OF run]] by metis
  let ?d = "d\<lparr>dpParents := fmupd k run' (dpParents d)\<rparr>"
  let ?out = "out @ map (\<lambda>c. (c, asOrderType (prSpec run))) (taken symb date run)"
  have "bar_step symb date k ((out, errs), d) = ((?out, errs), ?d)"
    by (simp add: bar_step_def run b(1))
  with Cons.prems(1) have f: "fold (bar_step symb date) ks ((?out, errs), ?d) = ((out', errs'), d')" by simp
  have ih: "dpChildIdx d' = dpChildIdx ?d \<and> errs' = errs \<and>
    map fst out' = map fst ?out @ concat (map (\<lambda>pid. taken symb date (the (fmlookup (dpParents ?d) pid))) ks) \<and>
    (\<forall>pid. fmlookup (dpParents d') pid =
       (if pid \<in> set ks then map_option (\<lambda>run. snd (bar_parent symb date run)) (fmlookup (dpParents ?d) pid)
        else fmlookup (dpParents ?d) pid))"
    by (rule Cons.IH [OF f]) (use Cons.prems(2,3,4) b(2) in \<open>auto split: if_splits\<close>)
  have eq: "map (\<lambda>pid. taken symb date (the (fmlookup (dpParents ?d) pid))) ks =
      map (\<lambda>pid. taken symb date (the (fmlookup (dpParents d) pid))) ks"
    using Cons.prems(2) by auto
  show ?case using ih [unfolded eq] run b(1) Cons.prems(2) by (auto simp: comp_def)
qed simp

lemma OnBar_outcome:
  assumes "OnBar_d symb date d = ((cs, errs), d')" "\<And>pid run. fmlookup (dpParents d) pid = Some run \<Longrightarrow> run_ok pid run"
  shows "dpChildIdx d' = dpChildIdx d \<and> errs = [] \<and>
    map fst cs = concat (map (\<lambda>pid. taken symb date (the (fmlookup (dpParents d) pid))) (sorted_keys (dpParents d))) \<and>
    (\<forall>pid. fmlookup (dpParents d') pid = map_option (\<lambda>run. snd (bar_parent symb date run)) (fmlookup (dpParents d) pid))"
proof -
  note f = bar_fold [OF assms(1) [unfolded OnBar_d_def] distinct_sorted_keys assms(2), simplified]
  have "fmlookup (dpParents d') pid = map_option (\<lambda>run. snd (bar_parent symb date run)) (fmlookup (dpParents d) pid)" for pid
    using f by (cases "pid |\<in>| fmdom (dpParents d)") (simp_all add: fmdom_notD)
  with f show ?thesis by simp
qed

lemma taken_parent: "run_ok pid run \<Longrightarrow> c \<in> set (taken symb date run) \<Longrightarrow> coParentID c = pid"
  by (auto simp: taken_def due_at_def run_ok_def dest!: set_takeWhileD in_set_dropD split: if_splits)

lemma handed_out_concat:
  assumes "distinct ks" "\<And>pid. pid \<in> set ks \<Longrightarrow> \<forall>c \<in> set (f pid). coParentID c = pid"
  shows "handed_out pid (concat (map f ks)) = (if pid \<in> set ks then f pid else [])"
  using assms
proof (induction ks)
  case (Cons k ks)
  have "handed_out pid (f k) = (if pid = k then f k else [])"
    using Cons.prems(2) [of k] by (auto simp: handed_out_def filter_id_conv filter_empty_conv)
  with Cons show ?case by (auto simp: handed_out_def)
qed (simp add: handed_out_def)

lemma dp_ok_bar:
  assumes "dp_ok out d" "OnBar_d symb date d = ((cs, errs), d')"
  shows "dp_ok (out @ map fst cs) d'"
    and "fmlookup (dpParents d) pid = Some run \<Longrightarrow>
      handed_out pid (out @ map fst cs) = take (cursor run) (prPlan run) @ taken symb date run"
proof -
  let ?t = "\<lambda>pid. taken symb date (the (fmlookup (dpParents d) pid))"
  have ok: "\<And>pid run. fmlookup (dpParents d) pid = Some run \<Longrightarrow> run_ok pid run" using assms(1) by (simp add: dp_ok_def)
  note bar = OnBar_outcome [OF assms(2) ok]
  have par: "\<forall>c \<in> set (?t pid). coParentID c = pid" if "pid \<in> set (sorted_keys (dpParents d))" for pid
  proof -
    from that obtain run where "fmlookup (dpParents d) pid = Some run" by (auto simp: fmlookup_dom_iff)
    with taken_parent [OF ok [OF this]] show ?thesis by simp
  qed
  have out: "handed_out pid (out @ map fst cs) = take (cursor run) (prPlan run) @ taken symb date run"
    if "fmlookup (dpParents d) pid = Some run" for pid run
  proof -
    have "handed_out pid (map fst cs) = taken symb date run"
      using bar that
        handed_out_concat [of "sorted_keys (dpParents d)" ?t pid, OF distinct_sorted_keys par]
      by (simp add: fmlookup_dom_iff)
    moreover have "handed_out pid out = take (cursor run) (prPlan run)" using assms(1) that by (simp add: dp_ok_def)
    ultimately show ?thesis by (simp add: handed_out_def)
  qed
  then show "fmlookup (dpParents d) pid = Some run \<Longrightarrow>
      handed_out pid (out @ map fst cs) = take (cursor run) (prPlan run) @ taken symb date run" .
  have dom: "fmdom (dpParents d') = fmdom (dpParents d)"
    using bar by (auto intro!: fset_eqI simp: fmlookup_dom_iff)
  have "run_ok pid run' \<and> handed_out pid (out @ map fst cs) = take (cursor run') (prPlan run')"
    if "fmlookup (dpParents d') pid = Some run'" for pid run'
  proof -
    from that bar obtain run where run: "fmlookup (dpParents d) pid = Some run" "run' = snd (bar_parent symb date run)" by auto
    with out [OF run(1)] bar_parent_ok [OF ok [OF run(1)], of symb date] show ?thesis by (metis snd_conv)
  qed
  moreover have "\<forall>c \<in> set (map fst cs). coParentID c |\<in>| fmdom (dpParents d)"
    using bar par by fastforce
  ultimately show "dp_ok (out @ map fst cs) d'" using assms(1) bar dom by (auto simp: dp_ok_def)
qed

lemma tolerance_nonneg: "\<not> flt (qtySumTolerance qty) x" if "fle x (Fin 0)"
proof -
  have m: "math_Max (Fin 1) (fabs qty) = NaN \<or> fle (Fin 0) (math_Max (Fin 1) (fabs qty))"
    by (cases qty) (auto simp: math_Max_def fmax_def fle_def flt_def)
  have e: "fle (Fin 0) (rnd (1 / 10 ^ 9))" by (rule rnd_nonneg) simp
  have "qtySumTolerance qty = NaN \<or> fle (Fin 0) (qtySumTolerance qty)"
    using m fmul_nonneg_ext [OF e] by (auto simp: qtySumTolerance_def fmul_def)
  then show ?thesis using that by (metis fle_flt_trans fle_trans flt_NaN(1) flt_def order_less_irrefl)
qed

lemma fsub_zero_le: "\<not> fle qty (Fin 0) \<Longrightarrow> qty = NaN \<or> fle (fsub (Fin 0) qty) (Fin 0)"
proof (cases qty)
  case (Fin r)
  assume "\<not> fle qty (Fin 0)"
  with Fin have "fle (rnd (0 - r)) (rnd 0)" by (intro rnd_mono) (simp add: fle_fin)
  with Fin show ?thesis by (simp add: fsub_fin)
qed (auto simp: fsub_def fadd_def fle_def)

lemma register_children_lookup:
  "fmlookup (register_children pid plan idx) cid = Some p \<Longrightarrow> p = pid \<or> fmlookup idx cid = Some p"
  unfolding register_children_def
  by (induction plan arbitrary: idx) (auto split: if_splits, (metis fmupd_lookup option.inject)+)

lemma Attach_refused: "fst (Attach spec d) = Inl e \<Longrightarrow> snd (Attach spec d) = d"
  by (auto simp: Attach_def split: if_splits sum.splits prod.splits option.splits)

lemma dp_ok_attach:
  assumes "dp_ok out d"
  shows "dp_ok out (snd (Attach spec d))"
proof (cases "fst (Attach spec d)")
  case (Inl e)
  with assms Attach_refused show ?thesis by metis
next
  case (Inr plan)
  then have at: "Attach spec d = (Inr plan, snd (Attach spec d))" by (metis prod.collapse)
  let ?pid = "asParentID spec"
  obtain algo algo' where a: "?pid \<noteq> []" "Schedule (spec_parent spec) algo = (Inr plan, algo')"
    "fmlookup (dpParents d) ?pid = None" "snd (Attach spec d) = \<lparr>dpParents = fmupd ?pid
        \<lparr>prSpec = spec, prAlgo = algo', prPlan = plan, prFilled = Fin 0, prSubmitted = Fin 0, prCancelled = False,
         prCancelReason = []\<rparr> (dpParents d), dpChildIdx = register_children ?pid plan (dpChildIdx d)\<rparr>"
    using Attach_outcome [OF at] by metis
  note plan = scheduled_plan [OF a(2)]
  let ?run = "\<lparr>prSpec = spec, prAlgo = algo', prPlan = plan, prFilled = Fin 0, prSubmitted = Fin 0, prCancelled = False,
         prCancelReason = []\<rparr>"
  have "\<not> flt (qtySumTolerance (asQty spec)) (fsub (Fin 0) (asQty spec))"
    using fsub_zero_le [OF plan(5)] tolerance_nonneg by (auto simp: fsub_def fadd_def)
  then have "run_ok ?pid ?run" using a(1) plan by (simp add: run_ok_def ps_reset_def spec_parent_def)
  moreover have "?pid |\<notin>| fmdom (dpParents d)" using a(3) by (simp add: fmlookup_dom_iff)
  then have "handed_out ?pid out = []" using assms by (auto simp: dp_ok_def handed_out_def filter_empty_conv)
  moreover have "p = ?pid \<or> p |\<in>| fmdom (dpParents d)"
    if "fmlookup (register_children ?pid plan (dpChildIdx d)) cid = Some p" for cid p
    using register_children_lookup [OF that] assms unfolding dp_ok_def by blast
  ultimately show ?thesis using assms unfolding a(4) dp_ok_def by (auto simp: plan(6) ps_reset_def)
qed

lemma dp_ok_update:
  assumes "dp_ok out d" "fmlookup (dpParents d) pid = Some run"
    and "run_ok pid run'" "prAlgo run' = prAlgo run" "prPlan run' = prPlan run"
  shows "dp_ok out (d\<lparr>dpParents := fmupd pid run' (dpParents d)\<rparr>)"
  using assms by (auto simp: dp_ok_def fmlookup_dom_iff)

lemma dp_ok_fill:
  assumes "dp_ok out d"
  shows "dp_ok out (snd (OnFill_d orderID qty d))"
proof (cases "fmlookup (dpChildIdx d) orderID")
  case (Some pid)
  with assms obtain run where run: "fmlookup (dpParents d) pid = Some run"
    unfolding dp_ok_def fmlookup_dom_iff by blast
  let ?nxt = "fadd (prFilled run) qty"
  show ?thesis
  proof (cases "flt (qtySumTolerance (asQty (prSpec run))) (fsub ?nxt (asQty (prSpec run)))")
    case False
    moreover have "run_ok pid run" using assms run by (simp add: dp_ok_def)
    ultimately have "run_ok pid (run\<lparr>prFilled := ?nxt\<rparr>)" by (simp add: run_ok_def)
    from dp_ok_update [OF assms run this] False show ?thesis by (simp add: OnFill_d_def Some run)
  qed (simp add: OnFill_d_def Some run assms)
qed (simp add: OnFill_d_def assms)

lemma run_ok_cancel: "run_ok pid run \<Longrightarrow> run_ok pid (cancel_run reason run)"
  by (simp add: run_ok_def cancel_run_def)

lemma dp_ok_cancel_run:
  assumes "dp_ok out d" "fmlookup (dpParents d) pid = Some run"
  shows "dp_ok out (d\<lparr>dpParents := fmupd pid (cancel_run reason run) (dpParents d)\<rparr>)"
proof (rule dp_ok_update [OF assms])
  show "run_ok pid (cancel_run reason run)" using assms by (simp add: dp_ok_def run_ok_cancel)
qed (simp_all add: cancel_run_def)

lemma dp_ok_cancel: "dp_ok out d \<Longrightarrow> dp_ok out (snd (Cancel_d pid reason d))"
  by (auto simp: Cancel_d_def dp_ok_cancel_run split: option.splits)

lemma dp_ok_cancel_symbol:
  assumes "dp_ok out d"
  shows "dp_ok out (snd (CancelSymbol symb reason d))"
proof -
  let ?f = "\<lambda>pid (out, d). case fmlookup (dpParents d) pid of
       None \<Rightarrow> (out, d)
     | Some run \<Rightarrow>
         if asSymbol (prSpec run) \<noteq> symb \<or> \<not> cancellable run then (out, d)
         else (out @ [progressOf pid (cancel_run reason run)],
               d\<lparr>dpParents := fmupd pid (cancel_run reason run) (dpParents d)\<rparr>)"
  have "dp_ok out (snd st) \<Longrightarrow> dp_ok out (snd (fold ?f ks st))" for ks st
  proof (induction ks arbitrary: st)
    case (Cons k ks)
    have "dp_ok out (snd (?f k st))"
      using Cons.prems dp_ok_cancel_run by (cases st) (auto split: option.splits)
    with Cons.IH show ?case by simp
  qed simp
  with assms show ?thesis by (simp add: CancelSymbol_def)
qed

lemma dp_run_ok: "dp_run out d \<Longrightarrow> dp_ok out d"
proof (induction rule: dp_run.induct)
  case new
  show ?case by (simp add: dp_ok_def NewDispatcher_def)
qed (simp_all add: dp_ok_attach dp_ok_bar(1) dp_ok_fill dp_ok_cancel dp_ok_cancel_symbol)

lemma distinct_by_group:
  assumes "\<And>g. distinct (map f (filter (\<lambda>c. h c = g) xs))" "\<And>x y. x \<in> set xs \<Longrightarrow> y \<in> set xs \<Longrightarrow> f x = f y \<Longrightarrow> h x = h y"
  shows "distinct (map f xs)"
  using assms
proof (induction xs)
  case (Cons x xs)
  have "distinct (map f xs)"
  proof (rule Cons.IH)
    show "distinct (map f (filter (\<lambda>c. h c = g) xs))" for g
      using Cons.prems(1) [of g] by (auto split: if_splits)
    show "h y = h z" if "y \<in> set xs" "z \<in> set xs" "f y = f z" for y z
      by (rule Cons.prems(2)) (use that in simp_all)
  qed
  moreover have "f x \<notin> f ` set xs"
  proof
    assume "f x \<in> f ` set xs"
    then obtain y where y: "y \<in> set xs" "f x = f y" by blast
    with Cons.prems(2) [of x y] have "h y = h x" by simp
    with y have "f x \<in> f ` set (filter (\<lambda>c. h c = h x) xs)" by auto
    with Cons.prems(1) [of "h x"] show False by simp
  qed
  ultimately show ?case by simp
qed simp

lemma handed_out_ids:
  assumes "dp_ok out d" "c \<in> set out"
  shows "\<exists>i. coOrderID c = childOrderID (coParentID c) i"
proof -
  from assms obtain run where run: "fmlookup (dpParents d) (coParentID c) = Some run"
    by (auto simp: dp_ok_def fmlookup_dom_iff)
  with assms(1) have "run_ok (coParentID c) run" "handed_out (coParentID c) out = take (cursor run) (prPlan run)"
    by (simp_all add: dp_ok_def)
  moreover have "c \<in> set (handed_out (coParentID c) out)" using assms(2) by (simp add: handed_out_def)
  ultimately have "run_ok (coParentID c) run" "c \<in> set (take (cursor run) (prPlan run))" by simp_all
  then have "coOrderID c \<in> set (map (childOrderID (coParentID c)) [0..<length (prPlan run)])"
    by (metis (no_types, lifting) imageI in_set_takeD list.set_map run_ok_def)
  then show ?thesis by auto
qed

lemma handed_out_distinct:
  assumes "dp_ok out d"
  shows "distinct (map coOrderID out)"
proof (rule distinct_by_group [where h = coParentID])
  fix pid
  show "distinct (map coOrderID (filter (\<lambda>c. coParentID c = pid) out))"
  proof (cases "fmlookup (dpParents d) pid")
    case None
    then have "filter (\<lambda>c. coParentID c = pid) out = []"
      using assms by (auto simp: dp_ok_def filter_empty_conv fmlookup_dom_iff)
    then show ?thesis by (simp only: list.map distinct.simps)
  next
    case (Some run)
    with assms have r: "run_ok pid run" "filter (\<lambda>c. coParentID c = pid) out = take (cursor run) (prPlan run)"
      by (auto simp: dp_ok_def handed_out_def)
    have "distinct (map coOrderID (prPlan run))"
      using r(1) by (simp add: run_ok_def distinct_map inj_on_def childOrderID_inj)
    then show ?thesis unfolding r(2) by (simp add: take_map [symmetric])
  qed
next
  fix x y assume "x \<in> set out" "y \<in> set out" "coOrderID x = coOrderID y"
  with handed_out_ids [OF assms] show "coParentID x = coParentID y" by (metis childOrderID_inj)
qed

lemma taken_all:
  assumes "run_ok pid run" "\<not> prCancelled run" "asEndAt (prSpec run) \<le> date"
  shows "take (cursor run) (prPlan run) @ taken (asSymbol (prSpec run)) date run = prPlan run"
proof -
  have "\<forall>c \<in> set (drop (cursor run) (prPlan run)). coSubmitAt c \<le> date"
    using assms by (auto simp: run_ok_def dest!: in_set_dropD)
  then have "takeWhile (\<lambda>c. coSubmitAt c \<le> date) (drop (cursor run) (prPlan run)) = drop (cursor run) (prPlan run)"
    by (simp add: takeWhile_eq_all_conv)
  with assms show ?thesis by (simp add: taken_def due_at_def run_ok_def del: takeWhile_eq_all_conv)
qed

text \<open>C36: in every run of the dispatcher, with any attachments, bars, fills and cancellations in any order: no child order
  is handed out twice; what has been handed out for a parent is an initial part of its plan, in the
  order of the plan; no parent is filled above its quantity beyond the tolerance. A bar of the parent's
  symbol dated at or after the end of the window hands out the rest of the plan, without an error, unless
  the parent was cancelled; a cancelled parent hands out nothing more.\<close>

theorem children_exactly_once:
  assumes "dp_run out d"
  shows "distinct (map coOrderID out) \<and>
    (\<forall>pid run. fmlookup (dpParents d) pid = Some run \<longrightarrow>
       (\<exists>i. handed_out pid out = take i (prPlan run)) \<and>
       \<not> flt (qtySumTolerance (asQty (prSpec run))) (fsub (prFilled run) (asQty (prSpec run))) \<and>
       (\<forall>date cs errs d'. OnBar_d (asSymbol (prSpec run)) date d = ((cs, errs), d') \<longrightarrow>
          errs = [] \<and>
          (\<not> prCancelled run \<and> asEndAt (prSpec run) \<le> date \<longrightarrow> handed_out pid (out @ map fst cs) = prPlan run) \<and>
          (prCancelled run \<longrightarrow> handed_out pid (out @ map fst cs) = handed_out pid out)))"
proof -
  have ok: "dp_ok out d" using assms by (rule dp_run_ok)
  have runs: "\<And>pid run. fmlookup (dpParents d) pid = Some run \<Longrightarrow> run_ok pid run" using ok by (simp add: dp_ok_def)
  have "(\<exists>i. handed_out pid out = take i (prPlan run)) \<and>
       \<not> flt (qtySumTolerance (asQty (prSpec run))) (fsub (prFilled run) (asQty (prSpec run))) \<and>
       (\<forall>date cs errs d'. OnBar_d (asSymbol (prSpec run)) date d = ((cs, errs), d') \<longrightarrow>
          errs = [] \<and>
          (\<not> prCancelled run \<and> asEndAt (prSpec run) \<le> date \<longrightarrow> handed_out pid (out @ map fst cs) = prPlan run) \<and>
          (prCancelled run \<longrightarrow> handed_out pid (out @ map fst cs) = handed_out pid out))"
    if run: "fmlookup (dpParents d) pid = Some run" for pid run
  proof (intro conjI allI impI)
    show "\<exists>i. handed_out pid out = take i (prPlan run)" using ok run by (auto simp: dp_ok_def)
    show "\<not> flt (qtySumTolerance (asQty (prSpec run))) (fsub (prFilled run) (asQty (prSpec run)))"
      using runs [OF run] by (simp add: run_ok_def)
    fix date cs errs d' assume bar: "OnBar_d (asSymbol (prSpec run)) date d = ((cs, errs), d')"
    show "errs = []" using OnBar_outcome [OF bar runs] by simp
    note out = dp_ok_bar(2) [OF ok bar run]
    show "handed_out pid (out @ map fst cs) = prPlan run" if "\<not> prCancelled run \<and> asEndAt (prSpec run) \<le> date"
      using taken_all [OF runs [OF run]] that out by simp
    show "handed_out pid (out @ map fst cs) = handed_out pid out" if "prCancelled run"
      using out that ok run by (simp add: taken_def dp_ok_def)
  qed
  with handed_out_distinct [OF ok] show ?thesis by blast
qed

theorem children_exactly_once_witness:
  "\<exists>run cs d'. fmlookup (dpParents (snd (Attach sample_spec NewDispatcher))) ''P'' = Some run \<and>
     \<not> prCancelled run \<and> OnBar_d ''A'' (4 * day_ns) (snd (Attach sample_spec NewDispatcher)) = ((cs, []), d') \<and>
     handed_out ''P'' (map fst cs) = prPlan run"
proof -
  let ?d = "snd (Attach sample_spec NewDispatcher)"
  have r: "dp_run [] ?d" by (rule dp_run.attach [OF dp_run.new])
  have "map_option (\<lambda>run. (prCancelled run, asSymbol (prSpec run), asEndAt (prSpec run) \<le> 4 * day_ns))
      (fmlookup (dpParents ?d) ''P'') = Some (False, ''A'', True)" by code_simp
  then obtain run where run: "fmlookup (dpParents ?d) ''P'' = Some run" "\<not> prCancelled run" "asSymbol (prSpec run) = ''A''"
      "asEndAt (prSpec run) \<le> 4 * day_ns" by auto
  obtain cs errs d' where "OnBar_d ''A'' (4 * day_ns) ?d = ((cs, errs), d')" by (metis surj_pair)
  with children_exactly_once [OF r] run show ?thesis by fastforce
qed

end
