(* ===== verification/Price_Limit.thy ===== *)
theory Price_Limit
  imports Domain Market Float64_Math Tracker
begin

text \<open>
  Daily price limits of the backtest engine (\<open>src/pkg/backtest/pricelimit.go\<close>), the daily bar of a
  stock with its limit flags and the market data of a day (\<open>processStockJob\<close>, \<open>fetchMarketDataForDay\<close> of
  \<open>src/pkg/backtest/engine_daily.go\<close>). The data service is an argument; a stock that cannot be fetched
  has an empty name and a zero listing date.
\<close>

section \<open>Limit rate\<close>

definition stLimitChangeDate :: gotime where
  "stLimitChangeDate = 739802 * day_ns"

definition stLimitBeforeChange :: f64 where
  "stLimitBeforeChange = rnd (5 / 100)"

definition stLimitAfterChange :: f64 where
  "stLimitAfterChange = rnd (10 / 100)"

record PriceLimitInput =
  piiSymbol :: symbol
  piiName :: string
  piiTradeDays :: int
  piiAsOf :: gotime

definition resolvePriceLimit :: "PriceLimitInput \<Rightarrow> PriceLimitConfig \<Rightarrow> int \<Rightarrow> f64" where
  "resolvePriceLimit inp cfg newStockDays =
     (if newStockDays > 0 \<and> piiTradeDays inp < newStockDays \<and> flt (Fin 0) (plNew cfg) then plNew cfg
      else let board = ClassifySymbol (piiSymbol inp); boardLimit = DailyPriceLimit board
           in if IsRiskWarningName (piiName inp)
              then (if board = BoardChiNext \<or> board = BoardSTAR \<or> board = BoardBSE then boardLimit
                    else let before = (if fle (plSTBefore cfg) (Fin 0) then stLimitBeforeChange else plSTBefore cfg);
                             after = (if fle (plST cfg) (Fin 0) then stLimitAfterChange else plST cfg)
                         in if \<not> is_zero_time (piiAsOf inp) \<and> piiAsOf inp < stLimitChangeDate then before else after)
              else if board = BoardUnknown \<and> flt (Fin 0) (plNormal cfg) then plNormal cfg
              else boardLimit)"

definition roundToCent :: "f64 \<Rightarrow> f64" where
  "roundToCent price = fdiv (math_Round (fmul price (Fin 100))) (Fin 100)"

definition LimitPrices :: "f64 \<Rightarrow> f64 \<Rightarrow> f64 \<times> f64" where
  "LimitPrices prevClose rate =
     (roundToCent (fmul prevClose (fadd (Fin 1) rate)), roundToCent (fmul prevClose (fsub (Fin 1) rate)))"

section \<open>Bar of the day\<close>

record DayBar = OHLCV +
  dbSymbol :: symbol
  dbDate :: gotime
  dbLimitUp :: bool
  dbLimitDown :: bool

record Stock =
  stkName :: string
  stkListDate :: gotime

record stockResult =
  srsStock :: Stock
  srsBars :: "DayBar list"
  srsPrice :: f64
  srsPrevClose :: f64
  srsLimitUp :: bool
  srsLimitDown :: bool

text \<open>\<open>Duration.Hours\<close>: whole hours and the fraction are converted separately.\<close>

definition duration_hours :: "duration \<Rightarrow> f64" where
  "duration_hours d = fadd (fint (d sdiv hour_ns)) (fdiv (fint (d smod hour_ns)) (fint hour_ns))"

definition trade_days :: "gotime \<Rightarrow> gotime \<Rightarrow> int" where
  "trade_days date listDate =
     (if is_zero_time listDate then 0
      else f64_int (fmul (fdiv (fdiv (duration_hours (date - listDate)) (Fin 24)) (Fin 7)) (Fin 5)))"

text \<open>
  The data service: the stock record of a symbol and its bars between two dates, \<open>None\<close> when the
  service fails. A job whose bars cannot be fetched yields no result.
\<close>

record MarketService =
  msStock :: "symbol \<Rightarrow> Stock option"
  msOHLCV :: "symbol \<Rightarrow> gotime \<Rightarrow> gotime \<Rightarrow> DayBar list option"

text \<open>The limit rate of the day, and the bar of the day checked against the limit prices.\<close>

definition limit_rate :: "TradingConfig \<Rightarrow> symbol \<Rightarrow> Stock \<Rightarrow> gotime \<Rightarrow> f64" where
  "limit_rate cfg symb stock date =
     resolvePriceLimit
       \<lparr>piiSymbol = symb, piiName = stkName stock, piiTradeDays = trade_days date (stkListDate stock), piiAsOf = date\<rparr>
       (tcPriceLimit cfg) (tcNewStockDays cfg)"

definition check_limits :: "f64 \<Rightarrow> f64 \<Rightarrow> f64 \<Rightarrow> bool \<times> bool \<times> f64" where
  "check_limits prevClose rate close =
     (let (upperLimit, lowerLimit) = LimitPrices prevClose rate;
          limitUp = fle upperLimit close; limitDown = fle close lowerLimit
      in (limitUp, limitDown, if limitUp then upperLimit else if limitDown then lowerLimit else Fin 0))"

definition processStockJob ::
    "MarketService \<Rightarrow> TradingConfig \<Rightarrow> gotime \<Rightarrow> gotime \<Rightarrow> symbol \<Rightarrow> f64 \<Rightarrow> stockResult option" where
  "processStockJob ms cfg startDate date symb jobPrevClose =
     (let stock = (case msStock ms symb of None \<Rightarrow> \<lparr>stkName = [], stkListDate = 0\<rparr> | Some st \<Rightarrow> st)
      in case msOHLCV ms symb startDate date of
          None \<Rightarrow> None
        | Some bars \<Rightarrow>
            (let n = length bars;
                 prevClose = (if n \<ge> 2 \<and> fle jobPrevClose (Fin 0) then barClose (bars ! (n - 2)) else jobPrevClose);
                 checked = (n \<ge> 2 \<and> flt (Fin 0) prevClose);
                 todayBar = last bars;
                 (limitUp, limitDown, limitPrice) =
                   (if checked then check_limits prevClose (limit_rate cfg symb stock date) (barClose todayBar)
                    else (False, False, Fin 0))
             in Some \<lparr>srsStock = stock,
                  srsBars = (if checked then bars[n - 1 := todayBar\<lparr>dbLimitUp := limitUp, dbLimitDown := limitDown\<rparr>] else bars),
                  srsPrice = (if n = 0 then Fin 0 else if flt (Fin 0) limitPrice then limitPrice else barClose todayBar),
                  srsPrevClose = (if checked then barClose todayBar else Fin 0),
                  srsLimitUp = limitUp, srsLimitDown = limitDown\<rparr>))"

section \<open>Market data of a day\<close>

record DayData =
  ddBars :: "DayBar list dict"
  ddPrices :: "f64 dict"
  ddStocks :: "Stock dict"
  ddPrevClose :: "f64 dict"

definition price_of :: "f64 dict \<Rightarrow> symbol \<Rightarrow> f64" where
  "price_of m s = (case fmlookup m s of None \<Rightarrow> Fin 0 | Some p \<Rightarrow> p)"

definition collect_result :: "symbol \<Rightarrow> stockResult option \<Rightarrow> DayData \<Rightarrow> DayData" where
  "collect_result symb res dd =
     (case res of
        None \<Rightarrow> dd
      | Some r \<Rightarrow>
          dd\<lparr>ddStocks := fmupd symb (srsStock r) (ddStocks dd), ddBars := fmupd symb (srsBars r) (ddBars dd),
             ddPrices := (if flt (Fin 0) (srsPrice r) then fmupd symb (srsPrice r) (ddPrices dd) else ddPrices dd),
             ddPrevClose := (if flt (Fin 0) (srsPrevClose r) then fmupd symb (srsPrevClose r) (ddPrevClose dd)
                             else ddPrevClose dd)\<rparr>)"

text \<open>
  The workers send their results over a channel; \<open>arrivals\<close> is the order in which they arrive, a
  rearrangement of the stock pool.
\<close>

definition fetchMarketDataForDay ::
    "MarketService \<Rightarrow> TradingConfig \<Rightarrow> gotime \<Rightarrow> gotime \<Rightarrow> f64 dict \<Rightarrow> symbol list \<Rightarrow> DayData" where
  "fetchMarketDataForDay ms cfg startDate date prevCloseCache arrivals =
     fold (\<lambda>s. collect_result s (processStockJob ms cfg startDate date s (price_of prevCloseCache s))) arrivals
       \<lparr>ddBars = fmempty, ddPrices = fmempty, ddStocks = fmempty, ddPrevClose = prevCloseCache\<rparr>"

definition stockNamesFor :: "Stock dict \<Rightarrow> string dict" where
  "stockNamesFor = fmmap stkName"

section \<open>Limits bracket the previous close\<close>

lemma roundToCent_mono:
  assumes "fle a b" "is_fin a" "is_fin b"
  shows "fle (roundToCent a) (roundToCent b)"
proof -
  have c: "is_fin (Fin 100)" "flt (Fin 0) (Fin 100)" "fle (Fin 0) (Fin 100)" by (simp_all add: flt_fin fle_fin)
  have "fle (fmul a (Fin 100)) (fmul b (Fin 100))" by (rule fmul_mono_nonneg [OF assms(2,3) c(1,3) assms(1)])
  then show ?thesis unfolding roundToCent_def by (intro fdiv_mono math_Round_mono c)
qed

lemma limit_prices_bracket:
  assumes "is_fin p" "f64_wf p" "flt (Fin 0) p" "fle (Fin 0) rate" "fle rate (Fin 1)" "is_fin (fmul p (fadd (Fin 1) rate))"
  shows "fle (snd (LimitPrices p rate)) (roundToCent p) \<and> fle (roundToCent p) (fst (LimitPrices p rate))"
proof -
  let ?down = "fmul p (fsub (Fin 1) rate)"
  have up: "fle p (fmul p (fadd (Fin 1) rate))" by (intro fmul_ge_self one_plus_ge assms)
  have down: "fle ?down p" by (intro fmul_le_self one_minus_le assms)
  have m: "fle (Fin 0) (fsub (Fin 1) rate)" by (rule fsub_nonneg) (simp_all add: assms(5))
  have "fle (fsub (Fin 1) rate) (Fin 1)" by (rule one_minus_le [OF assms(4)])
  with m have f: "is_fin (fsub (Fin 1) rate)" by (cases "fsub (Fin 1) rate") (auto simp: fle_def)
  have "fle (Fin 0) ?down" using assms(1,3) m f by (intro fmul_nonneg) (auto intro: flt_imp_fle)
  with down assms(1) have "is_fin ?down" by (cases ?down; cases p) (auto simp: fle_def)
  from roundToCent_mono [OF down this assms(1)] roundToCent_mono [OF up assms(1,6)]
  show ?thesis by (simp add: LimitPrices_def)
qed

section \<open>The market data does not depend on the workers\<close>

lemma collect_lookup:
  fixes r :: "symbol \<Rightarrow> stockResult option"
  defines "collect \<equiv> fold (\<lambda>s. collect_result s (r s))"
  shows "fmlookup (ddBars (collect xs dd)) s =
      (if s \<in> set xs \<and> r s \<noteq> None then Some (srsBars (the (r s))) else fmlookup (ddBars dd) s)"
    and "fmlookup (ddStocks (collect xs dd)) s =
      (if s \<in> set xs \<and> r s \<noteq> None then Some (srsStock (the (r s))) else fmlookup (ddStocks dd) s)"
    and "fmlookup (ddPrices (collect xs dd)) s =
      (if s \<in> set xs \<and> r s \<noteq> None \<and> flt (Fin 0) (srsPrice (the (r s))) then Some (srsPrice (the (r s)))
       else fmlookup (ddPrices dd) s)"
    and "fmlookup (ddPrevClose (collect xs dd)) s =
      (if s \<in> set xs \<and> r s \<noteq> None \<and> flt (Fin 0) (srsPrevClose (the (r s))) then Some (srsPrevClose (the (r s)))
       else fmlookup (ddPrevClose dd) s)"
  unfolding collect_def
  by (induction xs arbitrary: dd) (auto simp: collect_result_def split: option.splits)

text \<open>
  C7: The market data of a day does not depend on how the workers are scheduled: any two orders in
  which the results of the same stock pool arrive give the same bars, prices, names and previous
  closes.
\<close>

theorem fetch_schedule_independent:
  assumes "set arrivals = set arrivals'"
  shows "fetchMarketDataForDay ms cfg startDate date prev arrivals
       = fetchMarketDataForDay ms cfg startDate date prev arrivals'"
  unfolding fetchMarketDataForDay_def using assms
  by (intro DayData.equality fmap_ext) (simp_all add: collect_lookup)

section \<open>The price of a day stays within the limits\<close>

lemma limit_prices_ordered:
  assumes "is_fin p" "f64_wf p" "flt (Fin 0) p" "fle (Fin 0) rate" "fle rate (Fin 1)" "is_fin (fmul p (fadd (Fin 1) rate))"
  shows "fle (snd (LimitPrices p rate)) (fst (LimitPrices p rate))"
  using limit_prices_bracket [OF assms] fle_trans by blast


definition limits_ok :: "PriceLimitConfig \<Rightarrow> bool" where
  "limits_ok cfg \<longleftrightarrow> fle (plNormal cfg) (Fin 1) \<and> fle (plST cfg) (Fin 1) \<and> fle (plSTBefore cfg) (Fin 1) \<and> fle (plNew cfg) (Fin 1)"

lemma board_limit_range: "fle (Fin 0) (DailyPriceLimit b) \<and> fle (DailyPriceLimit b) (Fin 1)"
proof -
  have "fle (Fin 0) (rnd (20 / 100)) \<and> fle (rnd (20 / 100)) (Fin 1)" "fle (Fin 0) (rnd (30 / 100)) \<and> fle (rnd (30 / 100)) (Fin 1)"
    "fle (Fin 0) (rnd (10 / 100)) \<and> fle (rnd (10 / 100)) (Fin 1)" by code_simp+
  then show ?thesis by (simp add: DailyPriceLimit_def)
qed

lemma st_defaults: "fle (Fin 0) stLimitBeforeChange \<and> fle stLimitBeforeChange (Fin 1)"
  "fle (Fin 0) stLimitAfterChange \<and> fle stLimitAfterChange (Fin 1)"
  by code_simp+

lemma positive_or_default:
  assumes "fle x (Fin 1)" "fle (Fin 0) d \<and> fle d (Fin 1)"
  shows "fle (Fin 0) (if fle x (Fin 0) then d else x) \<and> fle (if fle x (Fin 0) then d else x) (Fin 1)"
  using assms by (cases x) (auto simp: fle_def)

lemma resolvePriceLimit_range:
  assumes "limits_ok cfg"
  shows "fle (Fin 0) (resolvePriceLimit inp cfg days) \<and> fle (resolvePriceLimit inp cfg days) (Fin 1)"
  using assms board_limit_range positive_or_default st_defaults flt_imp_fle
  by (auto simp: resolvePriceLimit_def limits_ok_def Let_def)

lemma up_finite:
  assumes "is_fin (fst (LimitPrices p rate))" "fle p (fmul p (fadd (Fin 1) rate))" "flt (Fin 0) p"
  shows "is_fin (fmul p (fadd (Fin 1) rate))"
proof -
  let ?x = "fmul p (fadd (Fin 1) rate)"
  have "?x \<noteq> NaN" "?x \<noteq> NInf" using assms(2,3) by (auto simp: fle_def flt_def split: f64.splits)
  moreover have "?x \<noteq> PInf"
  proof
    assume "?x = PInf"
    then have "fst (LimitPrices p rate) = roundToCent PInf" by (simp add: LimitPrices_def)
    moreover have "\<not> is_fin (roundToCent PInf)" by code_simp
    ultimately show False using assms(1) by simp
  qed
  ultimately show ?thesis by (cases ?x) (auto simp: is_fin_def)
qed


lemma check_limits_within:
  assumes "fle down up" "flt (Fin 0) down" "close \<noteq> NaN" "LimitPrices p rate = (up, down)"
    and "check_limits p rate close = (limitUp, limitDown, limitPrice)"
  shows "fle down (if flt (Fin 0) limitPrice then limitPrice else close)"
    and "fle (if flt (Fin 0) limitPrice then limitPrice else close) up"
    and "limitUp \<longleftrightarrow> fle up close" "limitDown \<longleftrightarrow> fle close down"
    and "limitPrice = (if limitUp then up else if limitDown then down else Fin 0)"
proof -
  have n: "up \<noteq> NaN" "down \<noteq> NaN" using assms(1) by (auto simp: fle_def)
  have up: "flt (Fin 0) up" using assms(1,2) by (cases up; cases down) (auto simp: fle_def flt_def)
  note refl = fle_refl [OF n(1)] fle_refl [OF n(2)]
  have tot: "fle close up" if "\<not> fle up close" using that n assms(3) by (auto simp: fle_def)
  have tot': "fle down close" if "\<not> fle close down" using that n assms(3) by (auto simp: fle_def)
  note r = assms(5) [unfolded check_limits_def assms(4) Let_def prod.case, simplified]
  have z: "\<not> flt (Fin 0) (Fin 0)" by (simp add: flt_fin)
  show "fle down (if flt (Fin 0) limitPrice then limitPrice else close)"
    "fle (if flt (Fin 0) limitPrice then limitPrice else close) up"
    using r refl tot tot' up assms(1,2) z by (auto split: if_splits)
qed (use assms(5) in \<open>auto simp: check_limits_def assms(4) Let_def\<close>)


definition sample_bar :: "gotime \<Rightarrow> rat \<Rightarrow> DayBar" where
  "sample_bar date close = \<lparr>barOpen = Fin close, barHigh = Fin close, barLow = Fin close, barClose = Fin close,
     barVolume = Fin 65536, dbSymbol = ''600000.SH'', dbDate = date, dbLimitUp = False, dbLimitDown = False\<rparr>"

definition sample_market :: "rat \<Rightarrow> MarketService" where
  "sample_market close = \<lparr>msStock = (\<lambda>s. Some \<lparr>stkName = ''Bank'', stkListDate = day_ns\<rparr>),
     msOHLCV = (\<lambda>s start date. Some [sample_bar start 8, sample_bar date close])\<rparr>"

lemma sample_limits:
  "limits_ok (tcPriceLimit sample_config)" "f64_wf (Fin 8)"
  "LimitPrices (Fin 8) (limit_rate sample_config ''600000.SH'' \<lparr>stkName = ''Bank'', stkListDate = day_ns\<rparr> (sample_day + day_ns))
     = (rnd (88 / 10), rnd (72 / 10))"
  "is_fin (rnd (88 / 10))" "flt (Fin 0) (rnd (72 / 10))"
  by code_simp+


theorem fetch_schedule_independent_witness:
  "fetchMarketDataForDay (sample_market 10) sample_config sample_day (sample_day + day_ns) fmempty [''600000.SH'', ''600001.SH'']
   = fetchMarketDataForDay (sample_market 10) sample_config sample_day (sample_day + day_ns) fmempty [''600001.SH'', ''600000.SH'']"
  by (rule fetch_schedule_independent) auto

end
