(* ===== verification/Engine_Daily.thy ===== *)
theory Engine_Daily
  imports Tracker Execution Exec_Algo Price_Limit
begin

text \<open>
  The daily loop of the backtest engine: \<open>src/pkg/backtest/engine_daily.go\<close>,
  \<open>src/pkg/backtest/exec_algo.go\<close> and the loop of \<open>src/pkg/backtest/engine.go\<close>, over the tracker, the
  execution service, the execution algorithms and the daily price limits.

  The collaborators the engine only calls are fields of \<open>Engine\<close>: the data service, the strategy, the
  position sizing and the stop-loss checker of the risk manager. The market regime is a function of
  the day's market data, so the sizing functions take that data instead. Identifiers come from the
  supply \<open>enUuid\<close>, whose position is part of the state. Logging is left out.
\<close>

section \<open>Signals\<close>

record Signal =
  sgSymbol :: symbol
  sgDate :: gotime
  sgDirection :: Direction
  sgStrength :: f64
  sgLimitPrice :: f64
  sgOrderType :: OrderType
  sgExecAlgo :: string
  sgExecSlices :: int
  sgExecProfile :: "f64 list"

text \<open>What a strategy returns; its date is \<open>None\<close> when the field does not hold a time.\<close>

record StrategySignal =
  ssSymbol :: symbol
  ssAction :: string
  ssStrength :: f64
  ssPrice :: f64
  ssDate :: "gotime option"
  ssDirection :: Direction
  ssOrderType :: OrderType
  ssLimitPrice :: f64
  ssExecAlgo :: string
  ssExecSlices :: int
  ssExecProfile :: "f64 list"

definition resolveDirection :: "StrategySignal \<Rightarrow> Direction" where
  "resolveDirection s =
     (if ssDirection s \<noteq> DirectionOther [] \<and> ssDirection s \<noteq> DirectionHold then ssDirection s
      else if ssAction s = ''buy'' then DirectionLong
      else if ssAction s = ''sell'' then DirectionClose
      else DirectionOther [])"

definition convert_signal :: "gotime \<Rightarrow> StrategySignal \<Rightarrow> Signal option" where
  "convert_signal defaultDate s =
     (if ssAction s = ''hold'' then None
      else if resolveDirection s = DirectionOther [] then None
      else Some \<lparr>sgSymbol = ssSymbol s,
                 sgDate = (case ssDate s of Some d \<Rightarrow> if is_zero_time d then defaultDate else d | None \<Rightarrow> defaultDate),
                 sgDirection = resolveDirection s, sgStrength = ssStrength s,
                 sgLimitPrice = (if feq (ssLimitPrice s) (Fin 0) then ssPrice s else ssLimitPrice s),
                 sgOrderType = (if ssOrderType s = OrderTypeOther [] then OrderTypeMarket else ssOrderType s),
                 sgExecAlgo = ssExecAlgo s, sgExecSlices = ssExecSlices s, sgExecProfile = ssExecProfile s\<rparr>)"

definition convertStrategySignals :: "gotime \<Rightarrow> StrategySignal list \<Rightarrow> Signal list" where
  "convertStrategySignals defaultDate signals = List.map_filter (convert_signal defaultDate) signals"

section \<open>Listing calendar\<close>

record ListingWindow =
  lwList :: gotime
  lwDelist :: "gotime option"

definition IsListed :: "ListingWindow \<Rightarrow> gotime \<Rightarrow> bool" where
  "IsListed w date \<longleftrightarrow>
     \<not> (\<not> is_zero_time (lwList w) \<and> date < lwList w) \<and>
     (case lwDelist w of None \<Rightarrow> True | Some d \<Rightarrow> \<not> d < date)"

section \<open>State of a run\<close>

record TargetPosition =
  tpSymbol :: symbol
  tpTargetQty :: f64
  tpActualQty :: f64
  tpPendingQty :: f64
  tpLastUpdated :: gotime

record execAlgoRunDiag =
  dgFails :: "(AttachFailureKind, int) fmap"
  dgSamples :: "(AttachFailureKind, string) fmap"

text \<open>
  The backtest state with the dispatcher and the diagnostics of the run, which live as long as it
  does.
\<close>

record BacktestState =
  bsID :: string
  bsTracker :: Tracker
  bsTargets :: "TargetPosition dict"
  bsAlgo :: Dispatcher
  bsDiag :: execAlgoRunDiag
  bsUuids :: nat

record StopLossEvent =
  sleSymbol :: symbol
  sleType :: string
  slePrice :: f64
  sleQuantity :: f64

record Engine =
  enService :: MarketService
  enTrading :: TradingConfig
  enExec :: "BacktestExecutionService option"
  enListing :: "ListingWindow dict"
  enRisk :: bool
  enSizes :: "Signal list \<Rightarrow> Portfolio \<Rightarrow> DayData \<Rightarrow> f64 dict option"
  enSize :: "Signal \<Rightarrow> Portfolio \<Rightarrow> DayData \<Rightarrow> f64 \<Rightarrow> f64 option"
  enStops :: "Position list \<Rightarrow> DayData \<Rightarrow> StopLossEvent list"
  enSignals :: "symbol list \<Rightarrow> DayData \<Rightarrow> Portfolio \<Rightarrow> gotime \<Rightarrow> StrategySignal list option"
  enDividends :: "(gotime \<times> symbol \<times> Dividend) list"
  enSplits :: "(gotime \<times> symbol \<times> Split) list"
  enUuid :: "nat \<Rightarrow> string"
  enOrder :: "gotime \<Rightarrow> symbol fset \<Rightarrow> symbol list"
  enNow :: gotime

text \<open>The two entry points of the tracker that draw identifiers.\<close>

definition tracker_execute ::
    "Engine \<Rightarrow> symbol \<Rightarrow> Direction \<Rightarrow> f64 \<Rightarrow> f64 \<Rightarrow> gotime \<Rightarrow> OrderExecutionOpts option \<Rightarrow> BacktestState \<Rightarrow>
     (trade_error + Trade) \<times> BacktestState" where
  "tracker_execute e symb direction qty price date opts st =
     (case ExecuteTrade (enUuid e (bsUuids st)) (enUuid e (bsUuids st + 1)) symb direction qty price date opts (bsTracker st) of
        (r, t) \<Rightarrow> (r, st\<lparr>bsTracker := t, bsUuids := bsUuids st + 2\<rparr>))"

definition tracker_close ::
    "Engine \<Rightarrow> symbol \<Rightarrow> f64 \<Rightarrow> gotime \<Rightarrow> BacktestState \<Rightarrow> (trade_error + Trade) \<times> BacktestState" where
  "tracker_close e symb price date st =
     (case ClosePosition (enUuid e (bsUuids st)) (enUuid e (bsUuids st + 1)) symb price date (bsTracker st) of
        (r, t) \<Rightarrow> (r, st\<lparr>bsTracker := t, bsUuids := bsUuids st + 2\<rparr>))"

section \<open>Targets\<close>

definition heldQty :: "BacktestState \<Rightarrow> symbol \<Rightarrow> f64" where
  "heldQty st symb =
     (case GetPosition symb (bsTracker st) of
        None \<Rightarrow> Fin 0
      | Some pos \<Rightarrow> if flt (posQuantity pos) (Fin 0) then Fin 0 else posQuantity pos)"

text \<open>A negative result means that the signal places no order.\<close>

definition computeEffectiveTarget :: "BacktestState \<Rightarrow> symbol \<Rightarrow> f64 \<Rightarrow> Direction \<Rightarrow> f64" where
  "computeEffectiveTarget st symb targetQty direction =
     (if direction \<noteq> DirectionLong \<and> direction \<noteq> DirectionShort then targetQty
      else let effectiveTarget = fsub targetQty (heldQty st symb)
           in if fle effectiveTarget (Fin 0) then Fin (- 1) else effectiveTarget)"

definition update_target :: "symbol \<Rightarrow> (TargetPosition \<Rightarrow> TargetPosition) \<Rightarrow> BacktestState \<Rightarrow> BacktestState" where
  "update_target symb f st =
     (case fmlookup (bsTargets st) symb of None \<Rightarrow> st | Some tp \<Rightarrow> st\<lparr>bsTargets := fmupd symb (f tp) (bsTargets st)\<rparr>)"

definition refresh_pending :: "gotime \<Rightarrow> TargetPosition \<Rightarrow> TargetPosition" where
  "refresh_pending date tp = tp\<lparr>tpPendingQty := fsub (tpTargetQty tp) (tpActualQty tp), tpLastUpdated := date\<rparr>"

definition reconcileTargetPosition :: "symbol \<Rightarrow> gotime \<Rightarrow> BacktestState \<Rightarrow> BacktestState" where
  "reconcileTargetPosition symb date st =
     (case fmlookup (bsTargets st) symb of
        None \<Rightarrow> st
      | Some tp \<Rightarrow>
          (let owned = heldQty st symb
           in if feq owned (tpActualQty tp) then st
              else update_target symb (\<lambda>tp. refresh_pending date (tp\<lparr>tpActualQty := owned\<rparr>)) st))"

text \<open>The target of the day is recorded before anything is traded.\<close>

definition record_target :: "symbol \<Rightarrow> f64 \<Rightarrow> gotime \<Rightarrow> BacktestState \<Rightarrow> BacktestState" where
  "record_target symb targetQty date st =
     (let tp = (case fmlookup (bsTargets st) symb of
                  None \<Rightarrow> \<lparr>tpSymbol = symb, tpTargetQty = Fin 0, tpActualQty = Fin 0, tpPendingQty = Fin 0, tpLastUpdated = date\<rparr>
                | Some tp \<Rightarrow> tp)
      in st\<lparr>bsTargets := fmupd symb (tp\<lparr>tpTargetQty := targetQty, tpLastUpdated := date\<rparr>) (bsTargets st)\<rparr>)"

text \<open>
  The trade that is passed on is a copy of the tracker's, so its own \<open>PendingQty\<close> is not seen by
  anyone else.
\<close>

definition updateTargetPositionAfterTrade :: "Trade \<Rightarrow> Signal \<Rightarrow> gotime \<Rightarrow> BacktestState \<Rightarrow> BacktestState" where
  "updateTargetPositionAfterTrade trade signal date st =
     (let symb = sgSymbol signal;
          st = update_target symb (\<lambda>tp.
                 if sgDirection signal = DirectionLong \<or> sgDirection signal = DirectionShort
                 then refresh_pending date (tp\<lparr>tpActualQty := fadd (tpActualQty tp) (trQuantity trade)\<rparr>)
                 else if sgDirection signal = DirectionClose
                 then tp\<lparr>tpPendingQty := Fin 0, tpTargetQty := Fin 0, tpActualQty := Fin 0, tpLastUpdated := date\<rparr>
                 else tp\<lparr>tpLastUpdated := date\<rparr>) st
      in case fmlookup (bsTargets st) symb of
          None \<Rightarrow> st
        | Some tp \<Rightarrow> if fle (tpPendingQty tp) (Fin 0) \<and> fle (tpTargetQty tp) (Fin 0)
                     then st\<lparr>bsTargets := fmdrop symb (bsTargets st)\<rparr> else st)"

section \<open>Execution algorithms in the engine\<close>

fun direction_string :: "Direction \<Rightarrow> string" where
  "direction_string DirectionLong = ''long''"
| "direction_string DirectionShort = ''short''"
| "direction_string DirectionClose = ''close''"
| "direction_string DirectionHold = ''hold''"
| "direction_string (DirectionOther s) = s"

definition execAlgoParentID :: "gotime \<Rightarrow> symbol \<Rightarrow> Direction \<Rightarrow> string" where
  "execAlgoParentID date symb dir =
     (let (y, m, d) = civil_date date
      in ''EA-'' @ pad_int 4 y @ pad_int 2 m @ pad_int 2 d @ ''-'' @ symb @ ''-'' @ direction_string dir)"

definition exec_spec :: "Signal \<Rightarrow> f64 \<Rightarrow> string \<Rightarrow> gotime \<Rightarrow> AttachSpec" where
  "exec_spec signal qty runID date =
     (let (n, until) = ResolveExecWindow date (sgExecSlices signal) (sgExecProfile signal)
      in \<lparr>asParentID = execAlgoParentID date (sgSymbol signal) (sgDirection signal), asRunID = runID,
          asSymbol = sgSymbol signal, asSide = sgDirection signal, asQty = qty, asLimitPrice = sgLimitPrice signal,
          asStyle = sgExecAlgo signal, asSlices = n, asProfile = sgExecProfile signal,
          asOrderType = (if sgOrderType signal = OrderTypeOther [] then OrderTypeMarket else sgOrderType signal),
          asStartAt = date, asEndAt = until\<rparr>)"

definition attachExecAlgoSignal ::
    "Signal \<Rightarrow> f64 \<Rightarrow> string \<Rightarrow> gotime \<Rightarrow> Dispatcher \<Rightarrow> (exec_error + bool) \<times> Dispatcher" where
  "attachExecAlgoSignal signal qty runID date d =
     (if sgExecAlgo signal = [] then (Inr False, d)
      else if \<not> IsKnownStyle (sgExecAlgo signal)
      then (Inl (ErrUnknownAlgo (sgExecAlgo signal) (execAlgoParentID date (sgSymbol signal) (sgDirection signal))), d)
      else case Attach (exec_spec signal qty runID date) d of
          (Inl err, d) \<Rightarrow> (Inl err, d)
        | (Inr _, d) \<Rightarrow> (Inr True, d))"

definition newExecAlgoRunDiag :: execAlgoRunDiag where
  "newExecAlgoRunDiag = \<lparr>dgFails = fmempty, dgSamples = fmempty\<rparr>"

definition diag_record :: "AttachFailureKind \<Rightarrow> string \<Rightarrow> execAlgoRunDiag \<Rightarrow> execAlgoRunDiag" where
  "diag_record kind parentID dg =
     \<lparr>dgFails = fmupd kind (case fmlookup (dgFails dg) kind of None \<Rightarrow> 1 | Some n \<Rightarrow> n + 1) (dgFails dg),
      dgSamples = (case fmlookup (dgSamples dg) kind of None \<Rightarrow> fmupd kind parentID (dgSamples dg) | Some _ \<Rightarrow> dgSamples dg)\<rparr>"

definition diag_empty :: "execAlgoRunDiag \<Rightarrow> bool" where
  "diag_empty dg \<longleftrightarrow> fmdom (dgFails dg) = {||}"

text \<open>The loop over the map stops at the first other kind, so its order does not matter.\<close>

definition invalidReasonCodes :: "execAlgoRunDiag \<Rightarrow> string list" where
  "invalidReasonCodes dg =
     (let count = (\<lambda>kind. case fmlookup (dgFails dg) kind of None \<Rightarrow> 0 | Some n \<Rightarrow> n)
      in if diag_empty dg then []
         else (if count AttachFailureUnknownStyle > 0 then [''exec_algo_unknown_style''] else []) @
              (if fBex (fmdom (dgFails dg)) (\<lambda>kind. kind \<noteq> AttachFailureUnknownStyle \<and> count kind > 0)
               then [''exec_algo_attach_failed''] else []))"

section \<open>Executing a signal\<close>

datatype engine_error =
    NoExecutionService
  | ServiceError execution_error
  | TrackerError trade_error

definition signal_order :: "Signal \<Rightarrow> f64 \<Rightarrow> gotime \<Rightarrow> OrderExecutionOpts \<Rightarrow> Order" where
  "signal_order signal quantity date opts =
     \<lparr>ordID = [], ordSymbol = sgSymbol signal, ordDirection = sgDirection signal, ordOrderType = optOrderType opts,
      ordQuantity = quantity, ordLimitPrice = optLimitPrice opts, ordStopPrice = Fin 0, ordTrailAmount = Fin 0,
      ordTrailPercent = Fin 0, ordHighWaterMark = Fin 0, ordTimestamp = date, ordFilledQty = Fin 0,
      ordFillPrice = Fin 0, ordStatus = []\<rparr>"

definition signal_quote :: "symbol \<Rightarrow> f64 \<Rightarrow> gotime \<Rightarrow> OHLCV option \<Rightarrow> ExecQuote" where
  "signal_quote symb price date dayBar =
     (case dayBar of
        None \<Rightarrow> \<lparr>eqSymbol = symb, eqOpen = Fin 0, eqHigh = Fin 0, eqLow = Fin 0, eqClose = price, eqVolume = Fin 0, eqDate = date\<rparr>
      | Some bar \<Rightarrow> \<lparr>eqSymbol = symb, eqOpen = barOpen bar, eqHigh = barHigh bar, eqLow = barLow bar, eqClose = barClose bar,
                     eqVolume = barVolume bar, eqDate = date\<rparr>)"

definition executeViaExecutionService ::
    "Engine \<Rightarrow> Signal \<Rightarrow> f64 \<Rightarrow> f64 \<Rightarrow> gotime \<Rightarrow> OrderExecutionOpts \<Rightarrow> BacktestState \<Rightarrow>
     (engine_error + Trade) \<times> BacktestState" where
  "executeViaExecutionService e signal quantity price date opts st =
     (case enExec e of
        None \<Rightarrow> (Inl NoExecutionService, st)
      | Some svc \<Rightarrow>
          (let tid = enUuid e (bsUuids st); st = st\<lparr>bsUuids := bsUuids st + 1\<rparr>
           in case ExecuteOrder tid svc (signal_order signal quantity date opts)
                     (signal_quote (sgSymbol signal) price date (optDayBar opts)) of
               Inl err \<Rightarrow> (Inl (ServiceError err), st)
             | Inr trade \<Rightarrow>
                 (case ApplyTrade trade (bsTracker st) of
                    (Inl err, t) \<Rightarrow> (Inl (TrackerError err), st\<lparr>bsTracker := t\<rparr>)
                  | (Inr trade, t) \<Rightarrow> (Inr trade, st\<lparr>bsTracker := t\<rparr>))))"

text \<open>The order of a signal: through the execution service when there is one, else by the tracker.\<close>

definition signal_order_trade ::
    "Engine \<Rightarrow> Signal \<Rightarrow> f64 \<Rightarrow> f64 \<Rightarrow> gotime \<Rightarrow> OrderExecutionOpts \<Rightarrow> BacktestState \<Rightarrow>
     (engine_error + Trade) \<times> BacktestState" where
  "signal_order_trade e signal quantity price date opts st =
     (if enExec e \<noteq> None then executeViaExecutionService e signal quantity price date opts st
      else case (if sgDirection signal = DirectionClose then tracker_close e (sgSymbol signal) price date st
                 else tracker_execute e (sgSymbol signal) (sgDirection signal) quantity price date (Some opts) st) of
          (Inl err, st) \<Rightarrow> (Inl (TrackerError err), st)
        | (Inr trade, st) \<Rightarrow> (Inr trade, st))"

definition direct_trade ::
    "Engine \<Rightarrow> Signal \<Rightarrow> f64 \<Rightarrow> f64 \<Rightarrow> gotime \<Rightarrow> OrderExecutionOpts \<Rightarrow> BacktestState \<Rightarrow> BacktestState" where
  "direct_trade e signal effectiveTarget price date opts st =
     (let symb = sgSymbol signal
      in case sgDirection signal of
          DirectionClose \<Rightarrow>
            (case signal_order_trade e signal effectiveTarget price date opts st of
               (Inl _, st) \<Rightarrow> st
             | (Inr _, st) \<Rightarrow> st\<lparr>bsTargets := fmdrop symb (bsTargets st)\<rparr>)
        | DirectionHold \<Rightarrow> st
        | DirectionOther _ \<Rightarrow> st
        | _ \<Rightarrow>
            (case signal_order_trade e signal effectiveTarget price date opts st of
               (Inl _, st) \<Rightarrow> update_target symb (refresh_pending date) st
             | (Inr trade, st) \<Rightarrow> updateTargetPositionAfterTrade trade signal date st))"

definition executeSignalTrade ::
    "Engine \<Rightarrow> Signal \<Rightarrow> f64 \<Rightarrow> f64 dict \<Rightarrow> gotime \<Rightarrow> OrderExecutionOpts \<Rightarrow> BacktestState \<Rightarrow> BacktestState" where
  "executeSignalTrade e signal effectiveTarget prices date opts st =
     (let price = price_of prices (sgSymbol signal)
      in if fle price (Fin 0) then st
         else case attachExecAlgoSignal signal effectiveTarget (bsID st) date (bsAlgo st) of
             (Inl err, d) \<Rightarrow>
               update_target (sgSymbol signal) (refresh_pending date)
                 (st\<lparr>bsAlgo := d,
                     bsDiag := diag_record (the (ClassifyAttachError (Some err)))
                       (execAlgoParentID date (sgSymbol signal) (sgDirection signal)) (bsDiag st)\<rparr>)
           | (Inr attached, d) \<Rightarrow>
               (let st = st\<lparr>bsAlgo := d\<rparr>
                in if attached then st else direct_trade e signal effectiveTarget price date opts st))"

section \<open>The signals of a day\<close>

definition day_bar :: "DayData \<Rightarrow> symbol \<Rightarrow> DayBar option" where
  "day_bar dd symb =
     (case fmlookup (ddBars dd) symb of None \<Rightarrow> None | Some bars \<Rightarrow> if bars = [] then None else Some (last bars))"

definition limit_blocked :: "DayBar option \<Rightarrow> Direction \<Rightarrow> bool" where
  "limit_blocked bar direction \<longleftrightarrow>
     (case bar of None \<Rightarrow> False
      | Some b \<Rightarrow> (dbLimitUp b \<and> (direction = DirectionLong \<or> direction = DirectionShort)) \<or>
                  (dbLimitDown b \<and> direction = DirectionClose))"

definition signal_opts :: "DayData \<Rightarrow> Signal \<Rightarrow> OrderExecutionOpts" where
  "signal_opts dd signal =
     \<lparr>optOrderType = sgOrderType signal, optLimitPrice = sgLimitPrice signal,
      optDayBar = map_option OHLCV.truncate (day_bar dd (sgSymbol signal))\<rparr>"

text \<open>One signal; \<open>sizing\<close> is the position size the risk manager gives it, if any.\<close>

definition process_signal ::
    "Engine \<Rightarrow> DayData \<Rightarrow> gotime \<Rightarrow> Signal \<Rightarrow> f64 option \<Rightarrow> BacktestState \<Rightarrow> BacktestState" where
  "process_signal e dd date signal sizing st =
     (if limit_blocked (day_bar dd (sgSymbol signal)) (sgDirection signal) then st
      else case sizing of
          None \<Rightarrow> st
        | Some targetQty \<Rightarrow>
            if fle targetQty (Fin 0) then st
            else let symb = sgSymbol signal;
                     st = record_target symb targetQty date st;
                     effectiveTarget = computeEffectiveTarget st symb targetQty (sgDirection signal)
                 in if flt effectiveTarget (Fin 0) then st
                    else if flt (Fin 0) effectiveTarget
                    then executeSignalTrade e signal effectiveTarget (ddPrices dd) date (signal_opts dd signal) st
                    else st)"

definition processSignalsFallback :: "Engine \<Rightarrow> DayData \<Rightarrow> gotime \<Rightarrow> Signal list \<Rightarrow> BacktestState \<Rightarrow> BacktestState" where
  "processSignalsFallback e dd date signals st =
     fold (\<lambda>signal st.
         process_signal e dd date signal
           (enSize e signal (GetPortfolio (enNow e) (ddPrices dd) (bsTracker st)) dd (price_of (ddPrices dd) (sgSymbol signal))) st)
       signals st"

definition processSignalsAndExecuteTrades ::
    "Engine \<Rightarrow> DayData \<Rightarrow> gotime \<Rightarrow> Signal list \<Rightarrow> BacktestState \<Rightarrow> BacktestState" where
  "processSignalsAndExecuteTrades e dd date signals st =
     (let validSignals = filter (\<lambda>sig. \<not> sgDate sig < date) signals
      in if validSignals = [] then st
         else case enSizes e validSignals (GetPortfolio (enNow e) (ddPrices dd) (bsTracker st)) dd of
             None \<Rightarrow> processSignalsFallback e dd date validSignals st
           | Some sizes \<Rightarrow>
               fold (\<lambda>signal. process_signal e dd date signal (fmlookup sizes (sgSymbol signal))) validSignals st)"

section \<open>Children of execution algorithms\<close>

definition executeExecAlgoChild ::
    "Engine \<Rightarrow> BacktestExecutionService \<Rightarrow> ChildOrder \<times> OrderType \<Rightarrow> DayBar \<Rightarrow> gotime \<Rightarrow> BacktestState \<Rightarrow> BacktestState" where
  "executeExecAlgoChild e svc due dayBar date st =
     (let (c, orderType) = due;
          quote = signal_quote (coSymbol c) (Fin 0) date (Some (OHLCV.truncate dayBar));
          ord = \<lparr>ordID = coOrderID c, ordSymbol = coSymbol c, ordDirection = coSide c, ordOrderType = orderType,
                 ordQuantity = coQty c, ordLimitPrice = coLimitPrice c, ordStopPrice = Fin 0, ordTrailAmount = Fin 0,
                 ordTrailPercent = Fin 0, ordHighWaterMark = Fin 0, ordTimestamp = date, ordFilledQty = Fin 0,
                 ordFillPrice = Fin 0, ordStatus = []\<rparr>;
          tid = enUuid e (bsUuids st); st = st\<lparr>bsUuids := bsUuids st + 1\<rparr>
      in case ExecuteOrder tid svc ord quote of
          Inl _ \<Rightarrow> st
        | Inr trade \<Rightarrow>
            (case OnFill_d (coOrderID c) (trQuantity trade) (bsAlgo st) of
               (Some _, d) \<Rightarrow> st\<lparr>bsAlgo := d\<rparr>
             | (None, d) \<Rightarrow>
                 (case ApplyTrade trade (bsTracker st) of
                    (Inl _, t) \<Rightarrow> st\<lparr>bsAlgo := d, bsTracker := t\<rparr>
                  | (Inr trade, t) \<Rightarrow>
                      update_target (coSymbol c)
                        (\<lambda>tp. refresh_pending date (tp\<lparr>tpActualQty := fadd (tpActualQty tp) (trQuantity trade)\<rparr>))
                        (st\<lparr>bsAlgo := d, bsTracker := t\<rparr>))))"

definition symbol_children ::
    "Engine \<Rightarrow> BacktestExecutionService \<Rightarrow> DayData \<Rightarrow> gotime \<Rightarrow> symbol \<Rightarrow> BacktestState \<Rightarrow> BacktestState" where
  "symbol_children e svc dd date symb st =
     (case day_bar dd symb of
        None \<Rightarrow> st
      | Some bar \<Rightarrow>
          (case OnBar_d (dbSymbol bar) (dbDate bar) (bsAlgo st) of
             ((due, _), d) \<Rightarrow>
               fold (\<lambda>dc. executeExecAlgoChild e svc dc bar date) due (st\<lparr>bsAlgo := d\<rparr>)))"

definition processExecAlgoChildren :: "Engine \<Rightarrow> DayData \<Rightarrow> gotime \<Rightarrow> BacktestState \<Rightarrow> BacktestState" where
  "processExecAlgoChildren e dd date st =
     (if Len_d (bsAlgo st) = 0 then st
      else case enExec e of
          None \<Rightarrow> st
        | Some svc \<Rightarrow> fold (symbol_children e svc dd date) (Symbols_d (bsAlgo st)) st)"

definition cancelExecAlgoParentsForSymbol :: "symbol \<Rightarrow> string \<Rightarrow> BacktestState \<Rightarrow> BacktestState" where
  "cancelExecAlgoParentsForSymbol symb reason st =
     (if Len_d (bsAlgo st) = 0 then st else st\<lparr>bsAlgo := snd (CancelSymbol symb reason (bsAlgo st))\<rparr>)"

section \<open>Changes from outside the signals\<close>

definition stop_step :: "Engine \<Rightarrow> gotime \<Rightarrow> StopLossEvent \<Rightarrow> BacktestState \<Rightarrow> BacktestState" where
  "stop_step e date event st =
     (if sleType event \<noteq> ''stop_loss'' \<and> sleType event \<noteq> ''take_profit'' then st
      else case tracker_execute e (sleSymbol event) DirectionClose (sleQuantity event) (slePrice event) date None st of
          (Inl _, st) \<Rightarrow> st
        | (Inr _, st) \<Rightarrow>
            cancelExecAlgoParentsForSymbol (sleSymbol event)
              (if sleType event = ''take_profit'' then ''take_profit'' else ''stop_loss'')
              (reconcileTargetPosition (sleSymbol event) date st))"

definition open_positions :: "BacktestState \<Rightarrow> Position list" where
  "open_positions st = List.map_filter (fmlookup (tkPositions (bsTracker st))) (sorted_keys (tkPositions (bsTracker st)))"

definition processStopLosses :: "Engine \<Rightarrow> DayData \<Rightarrow> gotime \<Rightarrow> BacktestState \<Rightarrow> BacktestState" where
  "processStopLosses e dd date st =
     (if \<not> enRisk e then st
      else let positions = open_positions st
           in fold (stop_step e date) (if positions = [] then [] else enStops e positions dd) st)"

definition events_on :: "gotime \<Rightarrow> (gotime \<times> symbol \<times> 'a) list \<Rightarrow> (symbol \<times> 'a) list" where
  "events_on day xs = map snd (filter (\<lambda>(d, _). truncate_day d = day) xs)"

text \<open>Dividends and splits of the day, and the symbols of the splits.\<close>

definition processCorporateActions :: "Engine \<Rightarrow> gotime \<Rightarrow> BacktestState \<Rightarrow> symbol list \<times> BacktestState" where
  "processCorporateActions e date st =
     (let day = truncate_day date;
          st = fold (\<lambda>(s, dv) st. st\<lparr>bsTracker := ProcessDividend s dv (bsTracker st)\<rparr>) (events_on day (enDividends e)) st;
          splits = events_on day (enSplits e);
          st = fold (\<lambda>(s, sp) st. reconcileTargetPosition s day (st\<lparr>bsTracker := ProcessSplit s sp (bsTracker st)\<rparr>)) splits st
      in (map fst splits, st))"

text \<open>The price of a forced close: the day's price, else the last price of the position.\<close>

definition close_price :: "f64 dict \<Rightarrow> symbol \<Rightarrow> Position \<Rightarrow> f64 option" where
  "close_price prices symb pos =
     (let price = price_of prices symb
      in if \<not> fle price (Fin 0) then Some price
         else if flt (Fin 0) (posCurrentPrice pos) then Some (posCurrentPrice pos) else None)"

definition forceCloseAllPositions :: "Engine \<Rightarrow> f64 dict \<Rightarrow> gotime \<Rightarrow> BacktestState \<Rightarrow> BacktestState" where
  "forceCloseAllPositions e prices lastTradingDay st =
     (let openPositions = tkPositions (bsTracker st)
      in fold (\<lambda>symb st.
             case fmlookup openPositions symb of
               None \<Rightarrow> st
             | Some pos \<Rightarrow>
                 if flt FlatThreshold (go_abs (posQuantity pos))
                 then (case close_price prices symb pos of
                         None \<Rightarrow> st | Some price \<Rightarrow> snd (tracker_close e symb price lastTradingDay st))
                 else st)
           (sorted_keys openPositions) st)"

text \<open>One position of \<open>forceCloseDelisted\<close>: the symbols closed so far and the state.\<close>

definition delist_step ::
    "Engine \<Rightarrow> f64 dict \<Rightarrow> gotime \<Rightarrow> Position dict \<Rightarrow> symbol \<Rightarrow> symbol list \<times> BacktestState \<Rightarrow> symbol list \<times> BacktestState" where
  "delist_step e prices date positions symb acc =
     (case (acc, fmlookup positions symb, fmlookup (enListing e) symb) of
        ((gone, st), Some pos, Some w) \<Rightarrow>
          (if fle (go_abs (posQuantity pos)) FlatThreshold \<or> IsListed w date then (gone, st)
           else case close_price prices symb pos of
               None \<Rightarrow> (gone, st)
             | Some price \<Rightarrow>
                 (case tracker_close e symb price date st of
                    (Inl _, st) \<Rightarrow> (gone, st)
                  | (Inr _, st) \<Rightarrow> (gone @ [symb], reconcileTargetPosition symb date st)))
      | _ \<Rightarrow> acc)"

definition forceCloseDelisted :: "Engine \<Rightarrow> f64 dict \<Rightarrow> gotime \<Rightarrow> BacktestState \<Rightarrow> symbol list \<times> BacktestState" where
  "forceCloseDelisted e prices date st =
     (if fmdom (enListing e) = {||} then ([], st)
      else let positions = tkPositions (bsTracker st)
           in fold (delist_step e prices date positions) (sorted_keys positions) ([], st))"

section \<open>The run\<close>

definition held_symbol :: "Tracker \<Rightarrow> symbol \<Rightarrow> bool" where
  "held_symbol t symb \<longleftrightarrow>
     (case fmlookup (tkPositions t) symb of None \<Rightarrow> False | Some pos \<Rightarrow> flt FlatThreshold (go_abs (posQuantity pos)))"

definition eligibleUniverse :: "Engine \<Rightarrow> symbol list \<Rightarrow> gotime \<Rightarrow> (symbol \<Rightarrow> bool) \<Rightarrow> symbol list" where
  "eligibleUniverse e pool date isHeld =
     (if fmdom (enListing e) = {||} then pool
      else filter (\<lambda>s. case fmlookup (enListing e) s of None \<Rightarrow> False | Some w \<Rightarrow> IsListed w date \<or> isHeld s) pool)"

definition extractLatestPrices :: "DayBar list dict \<Rightarrow> f64 dict" where
  "extractLatestPrices bars = fmmap (\<lambda>bs. barClose (last bs)) (fmfilter (\<lambda>s. fmlookup bars s \<noteq> Some []) bars)"

definition getSignals :: "Engine \<Rightarrow> symbol list \<Rightarrow> DayData \<Rightarrow> gotime \<Rightarrow> Tracker \<Rightarrow> Signal list option" where
  "getSignals e universe dd date t =
     map_option (convertStrategySignals date)
       (enSignals e universe dd (GetPortfolio (enNow e) (extractLatestPrices (ddBars dd)) t) date)"

definition carry_close :: "DayData \<Rightarrow> symbol \<Rightarrow> f64 dict \<Rightarrow> f64 dict" where
  "carry_close dd symb prev =
     (case day_bar dd symb of
        None \<Rightarrow> prev
      | Some bar \<Rightarrow> if dbLimitUp bar \<or> flt (Fin 0) (barClose bar) then fmupd symb (barClose bar) prev else prev)"

record LoopState =
  lsState :: BacktestState
  lsPrevClose :: "f64 dict"
  lsMaxUniverse :: nat

definition on_tracker :: "(Tracker \<Rightarrow> Tracker) \<Rightarrow> BacktestState \<Rightarrow> BacktestState" where
  "on_tracker f st = st\<lparr>bsTracker := f (bsTracker st)\<rparr>"

text \<open>The trading part of a day, once its market data is there.\<close>

definition trade_day :: "Engine \<Rightarrow> symbol list \<Rightarrow> DayData \<Rightarrow> gotime \<Rightarrow> BacktestState \<Rightarrow> BacktestState" where
  "trade_day e universe dd date st =
     (let st = on_tracker (SetStockNames (stockNamesFor (ddStocks dd))) st;
          (gone, st) = forceCloseDelisted e (ddPrices dd) date st;
          st = fold (\<lambda>s. cancelExecAlgoParentsForSymbol s ''delisted'') gone st;
          st = on_tracker (SetAsOf date) st;
          signals = (case getSignals e universe dd date (bsTracker st) of None \<Rightarrow> [] | Some ss \<Rightarrow> ss);
          st = processSignalsAndExecuteTrades e dd date signals st;
          st = processExecAlgoChildren e dd date st;
          st = processStopLosses e dd date st;
          (split, st) = processCorporateActions e date st;
          st = fold (\<lambda>s. cancelExecAlgoParentsForSymbol s ''corporate_action_split'') split st;
          st = on_tracker (\<lambda>t. snd (RecordDailyValue date (ddPrices dd) t)) st
      in on_tracker (\<lambda>t. AdvanceDay (enOrder e date (fmdom (tkPositions t))) t) st)"

definition run_day :: "Engine \<Rightarrow> symbol list \<Rightarrow> gotime \<Rightarrow> gotime \<Rightarrow> LoopState \<Rightarrow> LoopState" where
  "run_day e pool startDate date ls =
     (let universe = eligibleUniverse e pool date (held_symbol (bsTracker (lsState ls)));
          dd = fetchMarketDataForDay (enService e) (enTrading e) startDate date (lsPrevClose ls) universe
      in \<lparr>lsState = trade_day e universe dd date (lsState ls),
          lsPrevClose = fold (carry_close dd) universe (ddPrevClose dd),
          lsMaxUniverse = max (lsMaxUniverse ls) (length universe)\<rparr>)"

text \<open>\<open>cancelled date\<close>: the context is done when the loop reaches that day.\<close>

fun run_days :: "Engine \<Rightarrow> (gotime \<Rightarrow> bool) \<Rightarrow> symbol list \<Rightarrow> gotime \<Rightarrow> gotime list \<Rightarrow> LoopState \<Rightarrow> LoopState option" where
  "run_days e cancelled pool startDate [] ls = Some ls"
| "run_days e cancelled pool startDate (date # dates) ls =
     (if cancelled date then None else run_days e cancelled pool startDate dates (run_day e pool startDate date ls))"

datatype backtest_error = TradingDaysFailed | NoTradingDays | ContextDone

text \<open>
  The run on the trading days the data service returns. The loop declares a \<open>pricesCache\<close> of its own,
  so the one the final close and the final valuation use is still the nil map.
\<close>

definition runBacktestInternal ::
    "Engine \<Rightarrow> (gotime \<Rightarrow> bool) \<Rightarrow> symbol list \<Rightarrow> gotime \<Rightarrow> gotime list option \<Rightarrow> BacktestState \<Rightarrow>
     backtest_error + LoopState" where
  "runBacktestInternal e cancelled pool startDate tradingDays st =
     (case tradingDays of
        None \<Rightarrow> Inl TradingDaysFailed
      | Some days \<Rightarrow>
          if days = [] then Inl NoTradingDays
          else case run_days e cancelled pool startDate (sort days)
                      \<lparr>lsState = st, lsPrevClose = fmempty, lsMaxUniverse = 0\<rparr> of
              None \<Rightarrow> Inl ContextDone
            | Some ls \<Rightarrow>
                (let lastTradingDay = last (sort days); prices = fmempty;
                     st = forceCloseAllPositions e prices lastTradingDay (lsState ls)
                 in Inr (ls\<lparr>lsState := on_tracker (\<lambda>t. snd (RecordDailyValue lastTradingDay prices t)) st\<rparr>)))"

definition newBacktestState :: "string \<Rightarrow> f64 \<Rightarrow> f64 \<Rightarrow> f64 \<Rightarrow> TradingConfig \<Rightarrow> BacktestState" where
  "newBacktestState backtestID initialCapital commissionRate slippageRate trading =
     \<lparr>bsID = backtestID, bsTracker = NewTracker initialCapital commissionRate slippageRate trading,
      bsTargets = fmempty, bsAlgo = NewDispatcher, bsDiag = newExecAlgoRunDiag, bsUuids = 0\<rparr>"

end
