(* ===== verification/Ledger.thy ===== *)
theory Ledger
  imports Prelude
begin

text \<open>
  The T+1 share ledger: what every component that holds A-share positions promises. A ledger entry is
  the pair of the shares bought today and the shares held since an earlier day; only the latter may
  be sold. The locale \<open>t1_book\<close> states the contract over a step relation of a component, and its
  lemmas hold for every run. The backtest tracker and the mock trader both interpret it.
\<close>

section \<open>Events and entries\<close>

datatype t1_event =
    Buy symbol int
  | Sell symbol int
  | Roll
  | Quiet

type_synonym entry = "int \<times> int"

definition held :: "entry \<Rightarrow> int" where
  "held e = fst e + snd e"

fun ledger_step :: "t1_event \<Rightarrow> (symbol \<Rightarrow> entry) \<Rightarrow> symbol \<Rightarrow> entry" where
  "ledger_step (Buy s n) l = l(s := (fst (l s) + n, snd (l s)))"
| "ledger_step (Sell s n) l = l(s := (fst (l s), snd (l s) - n))"
| "ledger_step Roll l = (\<lambda>s. (0, held (l s)))"
| "ledger_step Quiet l = l"

fun enabled :: "t1_event \<Rightarrow> (symbol \<Rightarrow> entry) \<Rightarrow> bool" where
  "enabled (Buy s n) l = (0 < n)"
| "enabled (Sell s n) l = (0 < n \<and> n \<le> snd (l s))"
| "enabled Roll l = True"
| "enabled Quiet l = True"

fun bought :: "symbol \<Rightarrow> t1_event list \<Rightarrow> int" where
  "bought s [] = 0"
| "bought s (Buy s' n # es) = (if s' = s then n else 0) + bought s es"
| "bought s (_ # es) = bought s es"

fun sold :: "symbol \<Rightarrow> t1_event list \<Rightarrow> int" where
  "sold s [] = 0"
| "sold s (Sell s' n # es) = (if s' = s then n else 0) + sold s es"
| "sold s (_ # es) = sold s es"

lemma bought_append [simp]: "bought s (es @ fs) = bought s es + bought s fs"
  by (induction s es rule: bought.induct) auto

lemma sold_append [simp]: "sold s (es @ fs) = sold s es + sold s fs"
  by (induction s es rule: sold.induct) auto

section \<open>Runs\<close>

inductive run :: "('s \<Rightarrow> t1_event \<Rightarrow> 's \<Rightarrow> bool) \<Rightarrow> 's \<Rightarrow> t1_event list \<Rightarrow> 's \<Rightarrow> bool"
  for step where
  run_Nil: "run step s [] s"
| run_Cons: "step s e s' \<Longrightarrow> run step s' es s'' \<Longrightarrow> run step s (e # es) s''"

inductive_cases run_NilE: "run step s [] s'"
inductive_cases run_ConsE: "run step s (e # es) s'"

lemma run_append:
  "run step s es s' \<Longrightarrow> run step s' fs s'' \<Longrightarrow> run step s (es @ fs) s''"
  by (induction rule: run.induct) (auto intro: run.intros)

lemma run_appendE:
  assumes "run step s (es @ fs) s''"
  obtains s' where "run step s es s'" "run step s' fs s''"
  using assms
proof (induction es arbitrary: s thesis)
  case Nil
  then show ?case by (auto intro: run.intros)
next
  case (Cons e es)
  from Cons.prems(2) obtain s1 where s1: "step s e s1" "run step s1 (es @ fs) s''"
    by (auto elim: run_ConsE)
  from Cons.IH [OF _ s1(2)] obtain s2 where "run step s1 es s2" "run step s2 fs s''" by blast
  with s1(1) show ?case by (auto intro: Cons.prems(1) run.intros)
qed

section \<open>The contract\<close>

locale t1_book =
  fixes inv :: "'s \<Rightarrow> bool"
    and led :: "'s \<Rightarrow> symbol \<Rightarrow> entry"
    and step :: "'s \<Rightarrow> t1_event \<Rightarrow> 's \<Rightarrow> bool"
  assumes inv_step: "inv s \<Longrightarrow> step s e s' \<Longrightarrow> inv s'"
    and led_step: "inv s \<Longrightarrow> step s e s' \<Longrightarrow> led s' = ledger_step e (led s)"
    and step_enabled: "inv s \<Longrightarrow> step s e s' \<Longrightarrow> enabled e (led s)"
    and led_nonneg: "inv s \<Longrightarrow> 0 \<le> fst (led s y) \<and> 0 \<le> snd (led s y)"
begin

lemma inv_run: "run step s es s' \<Longrightarrow> inv s \<Longrightarrow> inv s'"
  by (induction rule: run.induct) (auto intro: inv_step)

lemma held_step:
  "inv s \<Longrightarrow> step s e s' \<Longrightarrow> held (led s' y) = held (led s y) + bought y [e] - sold y [e]"
  using led_step [of s e s'] by (cases e) (auto simp: held_def)

lemma conservation:
  "run step s es s' \<Longrightarrow> inv s \<Longrightarrow> held (led s' y) = held (led s y) + bought y es - sold y es"
proof (induction rule: run.induct)
  case (run_Cons s e s' es s'')
  then show ?case
    using held_step [of s e s' y] inv_step [of s e s'] bought_append [of y "[e]" es] sold_append [of y "[e]" es]
    by simp
qed simp

lemma same_day:
  "run step s es s' \<Longrightarrow> inv s \<Longrightarrow> Roll \<notin> set es \<Longrightarrow> snd (led s' y) = snd (led s y) - sold y es"
proof (induction rule: run.induct)
  case (run_Cons s e s' es s'')
  then show ?case
    using led_step [of s e s'] inv_step [of s e s'] by (cases e) auto
qed simp

lemma sold_le_settled:
  assumes "run step s es s'" "inv s" "Roll \<notin> set es"
  shows "sold y es \<le> snd (led s y)"
  using same_day [OF assms] led_nonneg [OF inv_run [OF assms(1,2)], of y] by simp

text \<open>
  The T+1 rule over a whole run: what has been sold when the last day ends is covered by what was
  held at the start and bought before that day began.
\<close>

lemma t_plus_one:
  assumes "run step s (es @ fs) s'" "inv s" "Roll \<notin> set fs"
  shows "sold y (es @ fs) \<le> held (led s y) + bought y es"
proof -
  from assms(1) obtain m where m: "run step s es m" "run step m fs s'" by (rule run_appendE)
  have "inv m" using inv_run [OF m(1) assms(2)] .
  then have "sold y fs \<le> held (led m y)"
    using sold_le_settled [OF m(2) _ assms(3), of y] led_nonneg [of m y] by (simp add: held_def)
  then show ?thesis using conservation [OF m(1) assms(2), of y] by simp
qed

end

end
