(* ===== verification/Tracker_Settlement.thy ===== *)
theory Tracker_Settlement
  imports Tracker Ledger
begin

text \<open>
  T+1 settlement and share accounting of the backtest tracker. \<open>tk_step\<close> is the step relation of the
  tracker on whole-share long positions: both order entry points, rejected orders, dividends,
  valuations and the end of a day. Every step refines the abstract ledger of \<open>Ledger\<close>, so the
  tracker interprets the contract \<open>t1_book\<close>. The bound 2^53 is where binary64 stops holding every
  integer. Short positions and stock dividends are outside this relation: a stock dividend adds to
  today's quantity without setting the buy date, and a later buy on another day drops it.
\<close>

lemma go_abs_shares: "0 \<le> n \<Longrightarrow> go_abs (shares n) = shares n"
  by (simp add: go_abs_def flt_fin)

section \<open>Long positions in whole shares\<close>

definition pos_ok :: "gotime \<Rightarrow> Position \<Rightarrow> entry \<Rightarrow> bool" where
  "pos_ok day pos e \<longleftrightarrow>
     posQuantityToday pos = shares (fst e) \<and> posQuantityYesterday pos = shares (snd e) \<and>
     posQuantity pos = shares (held e) \<and> 0 \<le> fst e \<and> 0 \<le> snd e \<and> 0 < held e \<and> held e \<le> 2 ^ 53 \<and>
     (0 < fst e \<longrightarrow> truncate_day (posBuyDate pos) = day)"

definition entry_of :: "Position option \<Rightarrow> entry" where
  "entry_of p = (case p of None \<Rightarrow> (0, 0)
     | Some pos \<Rightarrow> (\<lfloor>valof (posQuantityToday pos)\<rfloor>, \<lfloor>valof (posQuantityYesterday pos)\<rfloor>))"

definition opos_ok :: "gotime \<Rightarrow> Position option \<Rightarrow> bool" where
  "opos_ok day p \<longleftrightarrow> (case p of None \<Rightarrow> True | Some pos \<Rightarrow> pos_ok day pos (entry_of p))"

lemma opos_ok_simps [simp]: "opos_ok day None" "opos_ok day (Some pos) = pos_ok day pos (entry_of (Some pos))"
  by (simp_all add: opos_ok_def)

lemma pos_ok_entry: "pos_ok day pos e \<Longrightarrow> entry_of (Some pos) = e"
  by (cases e) (simp add: pos_ok_def entry_of_def)

lemma entry_of_nonneg: "opos_ok day p \<Longrightarrow> 0 \<le> fst (entry_of p) \<and> 0 \<le> snd (entry_of p) \<and> 0 \<le> held (entry_of p) \<and> held (entry_of p) \<le> 2 ^ 53"
  by (cases p) (auto simp: pos_ok_def, simp_all add: entry_of_def held_def)

lemma pos_okE:
  assumes "pos_ok day pos e"
  obtains a b where "e = (a, b)" "posQuantityToday pos = shares a" "posQuantityYesterday pos = shares b"
    "posQuantity pos = shares (a + b)" "0 \<le> a" "0 \<le> b" "0 < a + b" "a + b \<le> 2 ^ 53"
    "0 < a \<longrightarrow> truncate_day (posBuyDate pos) = day"
  using assms by (cases e) (auto simp: pos_ok_def held_def)

lemma buy_position_ok:
  assumes "opos_ok day old" "truncate_day ts = day" "0 < n" "held (entry_of old) + n \<le> 2 ^ 53"
  obtains pos where "buy_position old symb (shares n) ep ts = Some pos"
    "pos_ok day pos (fst (entry_of old) + n, snd (entry_of old))"
proof (cases old)
  case None
  with assms show ?thesis
    by (intro that [of "the (buy_position old symb (shares n) ep ts)"])
       (auto simp: buy_position_def pos_ok_def held_def entry_of_def zero_Position_def)
next
  case (Some pos)
  with assms(1) have "pos_ok day pos (entry_of old)" by simp
  then show ?thesis
  proof (cases rule: pos_okE)
    case (1 a b)
    have s: "fadd (shares (a + b)) (shares n) = shares (a + b + n)" "fadd (shares a) (shares n) = shares (a + n)"
      "fadd (Fin 0) (shares n) = shares n"
      using fadd_int [of "a + b" n] fadd_int [of a n] fadd_int [of 0 n] 1 assms(3,4) by (auto simp: held_def)
    have nf: "\<not> IsFlat (shares (a + b + n))" unfolding IsFlat_shares using 1 assms(3) by simp
    show ?thesis
      using 1 assms(2-4) Some s nf
      by (intro that [of "the (buy_position old symb (shares n) ep ts)"])
        (auto simp: buy_position_def pos_ok_def held_def Let_def algebra_simps simp del: of_int_add)
  qed
qed

lemma close_long_ok:
  assumes "pos_ok day pos (a, b)" "0 < m"
  shows "close_long t symb pos (shares m) ep ts trade =
     (if b = 0 then (if truncate_day (posBuyDate pos) = truncate_day ts
                     then Inl (TPlusOneBoughtToday (truncate_day (posBuyDate pos)) (truncate_day ts))
                     else Inl TPlusOneNoShares)
      else (let n = min b m; fb = ComputeFees (fmul (shares n) ep) True (feeSchedule t ts)
            in Inr (pos\<lparr>posQuantityYesterday := shares (b - n),
                        posRealizedPnL := fadd (posRealizedPnL pos)
                          (fsub (fsub (fmul (fsub ep (posAvgCost pos)) (shares n)) (Commission fb)) (StampTax fb)),
                        posQuantity := shares (a + b - n)\<rparr>,
                    fadd (tkCash t) (fsub (fmul (shares n) ep) (Total fb)),
                    trade\<lparr>trQuantity := shares n, trCommission := Commission fb,
                          trTransferFee := TransferFee fb, trStampTax := StampTax fb\<rparr>)))"
proof -
  from assms(1) have p: "posQuantityToday pos = shares a" "posQuantityYesterday pos = shares b"
    "posQuantity pos = shares (a + b)" and ab: "0 \<le> a" "0 \<le> b" "0 < a + b" "a + b \<le> 2 ^ 53"
    by (auto simp: pos_ok_def held_def)
  have z: "fle (shares k) (Fin 0) \<longleftrightarrow> k \<le> 0" "feq (shares k) (Fin 0) \<longleftrightarrow> k = 0" for k
    by (auto simp: fle_fin feq_def)
  have n: "min b (min m (a + b)) = min b m" using ab by (simp add: min_def)
  have s: "fsub (shares b) (shares (min b m)) = shares (b - min b m)"
    "fsub (shares (a + b)) (shares (min b m)) = shares (a + b - min b m)"
    using fsub_int [of b "min b m"] fsub_int [of "a + b" "min b m"] ab assms(2) by (auto simp: min_def)
  have q: "fmin (posQuantityYesterday pos) (fmin (shares m) (go_abs (posQuantity pos))) = shares (min b m)"
    using ab by (simp only: p go_abs_shares fmin_shares n)
  have "min b m \<le> 0 \<longleftrightarrow> b = 0" using ab assms(2) by (auto simp: min_def)
  then show ?thesis
    unfolding close_long_def Let_def q unfolding p z s by (auto simp del: of_int_add of_int_diff)
qed

lemma close_position_ok:
  assumes "fmlookup (tkPositions t) symb = Some pos" "pos_ok day pos (a, b)" "0 < m"
  shows "close_position t symb (shares m) ep ts trade =
     (case close_long t symb pos (shares m) ep ts trade of
        Inl e \<Rightarrow> (Inl e, t)
      | Inr (pos', cash', trade') \<Rightarrow>
          (Inr trade',
           t\<lparr>tkCash := cash',
             tkPositions := (if a + b = min b m then fmdrop symb (tkPositions t)
                             else fmupd symb pos' (tkPositions t))\<rparr>))"
proof -
  from assms(2) have p: "posQuantity pos = shares (a + b)" "0 < a + b" by (auto simp: pos_ok_def held_def)
  then have c: "fle (go_abs (posQuantity pos)) (Fin 0) = False" "flt (Fin 0) (posQuantity pos) = True"
    by (simp_all add: go_abs_shares fle_fin flt_fin del: of_int_add)
  have f: "IsFlat (shares (a + b - n)) \<longleftrightarrow> a + b = n" for n unfolding IsFlat_shares by auto
  show ?thesis
    unfolding close_position_def assms(1) option.case c if_False if_True close_long_ok [OF assms(2,3)] Let_def
    by (cases "b = 0") (simp_all add: f del: of_int_add of_int_diff)
qed

lemma close_position_led:
  assumes "opos_ok day (fmlookup (tkPositions t) symb)" "0 < m"
    and "close_position t symb (shares m) ep ts trade = (Inr tr, t')"
  obtains n p where "n = min (snd (entry_of (fmlookup (tkPositions t) symb))) m" "0 < n" "trQuantity tr = shares n"
    "tkPositions t' = put_position symb p (tkPositions t)" "opos_ok day p"
    "entry_of p = (fst (entry_of (fmlookup (tkPositions t) symb)), snd (entry_of (fmlookup (tkPositions t) symb)) - n)"
proof (cases "fmlookup (tkPositions t) symb")
  case None
  with assms(3) show ?thesis by (simp add: close_position_def)
next
  case (Some pos)
  obtain a b where ab: "entry_of (Some pos) = (a, b)" by fastforce
  with assms(1) Some have ok: "pos_ok day pos (a, b)" by simp
  let ?n = "min b m"
  from assms(3) have b: "b \<noteq> 0"
    by (auto simp: close_position_ok [OF Some ok assms(2)] close_long_ok [OF ok assms(2)] split: if_splits)
  let ?p = "if a + b = ?n then None else
     Some (pos\<lparr>posQuantityYesterday := shares (b - ?n),
        posRealizedPnL := fadd (posRealizedPnL pos)
          (fsub (fsub (fmul (fsub ep (posAvgCost pos)) (shares ?n))
            (Commission (ComputeFees (fmul (shares ?n) ep) True (feeSchedule t ts))))
            (StampTax (ComputeFees (fmul (shares ?n) ep) True (feeSchedule t ts)))),
        posQuantity := shares (a + b - ?n)\<rparr>)"
  have okp: "pos_ok day (the ?p) (a, b - ?n)" if "a + b \<noteq> ?n"
    using ok that assms(2) by (auto simp: pos_ok_def held_def min_def)
  then have e: "entry_of ?p = (a, b - ?n)" and o: "opos_ok day ?p"
    using pos_ok_entry ok by (auto simp: pos_ok_def entry_of_def min_def split: if_splits)
  show ?thesis
  proof (rule that [of ?n ?p])
    show "0 < ?n" using b ok assms(2) by (auto simp: pos_ok_def)
    show "tkPositions t' = put_position symb ?p (tkPositions t)" "trQuantity tr = shares ?n"
      using assms(3) b
      by (auto simp: close_position_ok [OF Some ok assms(2)] close_long_ok [OF ok assms(2)] Let_def put_position_def)
  qed (use Some ab e o in auto)
qed

section \<open>The tracker as a T+1 ledger\<close>

definition tk_inv :: "gotime \<times> Tracker \<Rightarrow> bool" where
  "tk_inv x \<longleftrightarrow> (\<forall>s. opos_ok (fst x) (fmlookup (tkPositions (snd x)) s))"

definition tk_led :: "gotime \<times> Tracker \<Rightarrow> symbol \<Rightarrow> entry" where
  "tk_led x s = entry_of (fmlookup (tkPositions (snd x)) s)"

inductive tk_step :: "gotime \<times> Tracker \<Rightarrow> t1_event \<Rightarrow> gotime \<times> Tracker \<Rightarrow> bool" where
  apply_buy: "trDirection trade = DirectionLong \<Longrightarrow> trQuantity trade = shares n \<Longrightarrow>
    truncate_day (trTimestamp trade) = d \<Longrightarrow> held (tk_led (d, t) (trSymbol trade)) + n \<le> 2 ^ 53 \<Longrightarrow>
    ApplyTrade trade t = (Inr tr, t') \<Longrightarrow> tk_step (d, t) (Buy (trSymbol trade) n) (d, t')"
| apply_sell: "trDirection trade = DirectionClose \<Longrightarrow> trQuantity trade = shares m \<Longrightarrow>
    truncate_day (trTimestamp trade) = d \<Longrightarrow>
    ApplyTrade trade t = (Inr tr, t') \<Longrightarrow> trQuantity tr = shares n \<Longrightarrow> tk_step (d, t) (Sell (trSymbol trade) n) (d, t')"
| execute_buy: "truncate_day ts = d \<Longrightarrow> held (tk_led (d, t) symb) + n \<le> 2 ^ 53 \<Longrightarrow> 0 < n \<Longrightarrow>
    ExecuteTrade tid oid symb DirectionLong (shares n) p ts None t = (Inr tr, t') \<Longrightarrow>
    tk_step (d, t) (Buy symb n) (d, t')"
| execute_sell: "truncate_day ts = d \<Longrightarrow> 0 < m \<Longrightarrow>
    ExecuteTrade tid oid symb DirectionClose (shares m) p ts None t = (Inr tr, t') \<Longrightarrow> trQuantity tr = shares n \<Longrightarrow>
    tk_step (d, t) (Sell symb n) (d, t')"
| apply_rejected: "ApplyTrade trade t = (Inl e, t') \<Longrightarrow> tk_step (d, t) Quiet (d, t')"
| execute_rejected: "ExecuteTrade tid oid symb dir q p ts opts t = (Inl e, t') \<Longrightarrow> tk_step (d, t) Quiet (d, t')"
| advance: "iteration_order (tkPositions t) order \<Longrightarrow> d < d' \<Longrightarrow> tk_step (d, t) Roll (d', AdvanceDay order t)"
| dividend: "tk_step (d, t) Quiet (d, ProcessDividend symb dv t)"
| record_value: "tk_step (d, t) Quiet (d, snd (RecordDailyValue date prices t))"
| portfolio_value: "tk_step (d, t) Quiet (d, snd (GetPortfolioValue prices t))"
| set_as_of: "tk_step (d, t) Quiet (d, SetAsOf date t)"
| set_names: "tk_step (d, t) Quiet (d, SetStockNames names t)"

definition same_book :: "Position dict \<Rightarrow> Position dict \<Rightarrow> bool" where
  "same_book m m' \<longleftrightarrow> (\<forall>s. rel_option (\<lambda>p q. posQuantity p = posQuantity q \<and> posQuantityToday p = posQuantityToday q \<and>
      posQuantityYesterday p = posQuantityYesterday q \<and> posBuyDate p = posBuyDate q) (fmlookup m s) (fmlookup m' s))"

lemma same_bookD:
  assumes "same_book m m'"
  shows "opos_ok d (fmlookup m' s) = opos_ok d (fmlookup m s)" "entry_of (fmlookup m' s) = entry_of (fmlookup m s)"
proof -
  from assms have "rel_option (\<lambda>p q. posQuantity p = posQuantity q \<and> posQuantityToday p = posQuantityToday q \<and>
      posQuantityYesterday p = posQuantityYesterday q \<and> posBuyDate p = posBuyDate q) (fmlookup m s) (fmlookup m' s)"
    by (simp add: same_book_def)
  then show "opos_ok d (fmlookup m' s) = opos_ok d (fmlookup m s)" "entry_of (fmlookup m' s) = entry_of (fmlookup m s)"
    by (cases; auto simp: pos_ok_def entry_of_def)+
qed

lemma same_book_refl [simp]: "same_book m m"
  by (auto simp: same_book_def intro: option.rel_refl)

lemma same_book_mark [simp]: "same_book (tkPositions t) (tkPositions (mark_position symb p t))"
  by (auto simp: same_book_def mark_position_def intro: option.rel_refl split: option.split)

lemma same_book_quiet:
  "same_book (tkPositions t) (tkPositions (ProcessDividend symb dv t))"
  "same_book (tkPositions t) (tkPositions (snd (RecordDailyValue date prices t)))"
  "same_book (tkPositions t) (tkPositions (snd (GetPortfolioValue prices t)))"
  "same_book (tkPositions t) (tkPositions (SetAsOf date t))"
  "same_book (tkPositions t) (tkPositions (SetStockNames names t))"
  by (auto simp: same_book_def ProcessDividend_def RecordDailyValue_def GetPortfolioValue_def SetAsOf_def
      SetStockNames_def Let_def gpv_mark_def mtm_def option.rel_map intro!: option.rel_refl split: option.split)

lemma put_book:
  assumes "tk_inv (d, t)" "same_book (put_position symb p (tkPositions t)) (tkPositions t')" "opos_ok d p"
  shows "tk_inv (d, t') \<and> tk_led (d, t') = (tk_led (d, t))(symb := entry_of p)"
proof -
  have "fmlookup (put_position symb p (tkPositions t)) s = (if s = symb then p else fmlookup (tkPositions t) s)" for s
    by (cases p) (auto simp: put_position_def)
  then show ?thesis
    using assms(1,3) same_bookD [OF assms(2)] by (auto simp: tk_inv_def tk_led_def fun_eq_iff)
qed

lemma quiet_book:
  assumes "tk_inv (d, t)" "same_book (tkPositions t) (tkPositions t')"
  shows "tk_inv (d, t') \<and> tk_led (d, t') = tk_led (d, t)"
  using assms(1) same_bookD [OF assms(2)] by (auto simp: tk_inv_def tk_led_def)

lemma buy_step_led:
  assumes "tk_inv (d, t)" "truncate_day ts = d" "0 < n" "held (tk_led (d, t) symb) + n \<le> 2 ^ 53"
    and "buy_step t symb (shares n) ep cost ts trade = (Inr tr, t1)"
    and "same_book (tkPositions t1) (tkPositions t')"
  shows "tk_inv (d, t') \<and> tk_led (d, t') = ledger_step (Buy symb n) (tk_led (d, t))"
proof -
  let ?old = "fmlookup (tkPositions t) symb"
  from assms(5) have t1: "tkPositions t1 = put_position symb (buy_position ?old symb (shares n) ep ts) (tkPositions t)"
    by (auto elim: buy_step_Inr)
  have "opos_ok d ?old" using assms(1) by (simp add: tk_inv_def)
  then obtain pos where "buy_position ?old symb (shares n) ep ts = Some pos"
    "pos_ok d pos (fst (entry_of ?old) + n, snd (entry_of ?old))"
    using buy_position_ok [OF _ assms(2,3), of ?old symb ep] assms(4) by (auto simp: tk_led_def)
  then show ?thesis
    using put_book [OF assms(1), of symb "Some pos" t'] assms(6) t1 pos_ok_entry [of d pos]
    by (auto simp: tk_led_def)
qed

lemma close_step_led:
  assumes "tk_inv (d, t)" "0 < m"
    and "close_position t symb (shares m) ep ts trade = (Inr tr, t1)" "trQuantity tr = shares n"
    and "same_book (tkPositions t1) (tkPositions t')"
  shows "tk_inv (d, t') \<and> tk_led (d, t') = ledger_step (Sell symb n) (tk_led (d, t)) \<and> enabled (Sell symb n) (tk_led (d, t))"
proof -
  have "opos_ok d (fmlookup (tkPositions t) symb)" using assms(1) by (simp add: tk_inv_def)
  from close_position_led [OF this assms(2,3)] obtain p where
    "n = min (snd (entry_of (fmlookup (tkPositions t) symb))) m" "0 < n"
    "tkPositions t1 = put_position symb p (tkPositions t)" "opos_ok d p"
    "entry_of p = (fst (entry_of (fmlookup (tkPositions t) symb)), snd (entry_of (fmlookup (tkPositions t) symb)) - n)"
    using assms(4) by (metis f64.inject of_int_eq_iff)
  then show ?thesis
    using put_book [OF assms(1), of symb p t'] assms(5) by (auto simp: tk_led_def)
qed

lemma ExecuteTrade_None:
  assumes "ExecuteTrade tid oid symb dir q p ts None t = (Inr tr, t')"
  obtains ep trade cost pro t1 ord where
    "trade_step t dir symb q q ep cost pro ts trade = (Inr tr, t1)"
    "t' = Record ord (book_trade symb p tr t1)"
  using assms
  by (auto simp: ExecuteTrade_def Let_def limit_fill_def liquidity_fill_def split: prod.splits sum.splits)

lemma rollover_ok:
  assumes "opos_ok d p"
  shows "opos_ok d' (map_option rollover_position p) \<and>
         entry_of (map_option rollover_position p) = (0, held (entry_of p))"
proof (cases p)
  case None
  then show ?thesis by (simp add: entry_of_def held_def)
next
  case (Some pos)
  with assms have "pos_ok d pos (entry_of p)" by simp
  then have "pos_ok d' (rollover_position pos) (0, held (entry_of p))"
  proof (cases rule: pos_okE)
    case (1 a b)
    have "fadd (shares b) (shares a) = shares (b + a)" using fadd_int [of b a] 1 by simp
    with 1 show ?thesis
      by (auto simp: rollover_position_def pos_ok_def held_def flt_fin algebra_simps simp del: of_int_add)
  qed
  with Some show ?thesis by (simp add: pos_ok_entry)
qed

lemma advance_led:
  assumes "tk_inv (d, t)"
  shows "tk_inv (d', AdvanceDay order t) \<and> tk_led (d', AdvanceDay order t) = ledger_step Roll (tk_led (d, t))"
proof -
  have "fmlookup (tkPositions (AdvanceDay order t)) s = map_option rollover_position (fmlookup (tkPositions t) s)" for s
    by (simp add: AdvanceDay_def Let_def)
  moreover have ok: "opos_ok d (fmlookup (tkPositions t) s)" for s using assms by (simp add: tk_inv_def)
  note rollover_ok [OF ok, of d']
  ultimately show ?thesis by (simp add: tk_inv_def tk_led_def fun_eq_iff)
qed

lemma tk_step_ok:
  assumes "tk_step x e y" "tk_inv x"
  shows "tk_inv y \<and> tk_led y = ledger_step e (tk_led x) \<and> enabled e (tk_led x)"
  using assms
proof (cases rule: tk_step.cases)
  case (apply_buy trade n d t tr t')
  from apply_buy(8) obtain t1 cost where
    "buy_step t (trSymbol trade) (shares n) (trPrice trade) cost (trTimestamp trade) trade = (Inr tr, t1)"
    "same_book (tkPositions t1) (tkPositions t')" "0 < n"
    by (auto elim!: ApplyTrade_Inr simp: trade_step_def apply_buy(4,5) fle_fin)
  with buy_step_led [OF _ apply_buy(6) this(3) apply_buy(7) this(1,2)] apply_buy(1-3) assms(2)
  show ?thesis by simp
next
  case (apply_sell trade m d t tr t' n)
  from apply_sell(7) obtain t1 where
    "close_position t (trSymbol trade) (shares m) (trPrice trade) (trTimestamp trade) trade = (Inr tr, t1)"
    "same_book (tkPositions t1) (tkPositions t')" "0 < m"
    by (auto elim!: ApplyTrade_Inr simp: trade_step_def apply_sell(4,5) fle_fin)
  with close_step_led [OF _ _ this(1) apply_sell(8) this(2)] apply_sell(1-3) assms(2) show ?thesis by simp
next
  case (execute_buy ts d t symb n tid oid p tr t')
  from execute_buy(7) obtain t1 ep cost trade where
    "buy_step t symb (shares n) ep cost ts trade = (Inr tr, t1)" "same_book (tkPositions t1) (tkPositions t')"
    by (auto elim!: ExecuteTrade_None simp: trade_step_def)
  with buy_step_led [OF _ execute_buy(4,6,5) this] execute_buy(1-3,6) assms(2) show ?thesis by simp
next
  case (execute_sell ts d m tid oid symb p t tr t' n)
  from execute_sell(6) obtain t1 ep trade where
    "close_position t symb (shares m) ep ts trade = (Inr tr, t1)" "same_book (tkPositions t1) (tkPositions t')"
    by (auto elim!: ExecuteTrade_None simp: trade_step_def)
  with close_step_led [OF _ execute_sell(5) this(1) execute_sell(7) this(2)] execute_sell(1-3) assms(2)
  show ?thesis by simp
next
  case (apply_rejected trade t e t' d)
  then have "tkPositions t' = tkPositions t" by (auto elim: ApplyTrade_Inl)
  with quiet_book [of d t t'] apply_rejected(1-3) assms(2) show ?thesis by simp
next
  case (execute_rejected tid oid symb dir q p ts opts t e t' d)
  then have "tkPositions t' = tkPositions t" by (auto elim: ExecuteTrade_Inl)
  with quiet_book [of d t t'] execute_rejected(1-3) assms(2) show ?thesis by simp
next
  case (advance t order d d')
  with assms(2) show ?thesis using advance_led by simp
next
  case (dividend d t symb dv)
  with quiet_book [OF _ same_book_quiet(1)] assms(2) show ?thesis by simp
next
  case (record_value d t date prices)
  with quiet_book [OF _ same_book_quiet(2)] assms(2) show ?thesis by simp
next
  case (portfolio_value d t prices)
  with quiet_book [OF _ same_book_quiet(3)] assms(2) show ?thesis by simp
next
  case (set_as_of d t date)
  with quiet_book [OF _ same_book_quiet(4)] assms(2) show ?thesis by simp
next
  case (set_names d t names)
  with quiet_book [OF _ same_book_quiet(5)] assms(2) show ?thesis by simp
qed

interpretation tk: t1_book tk_inv tk_led tk_step
proof
  show "0 \<le> fst (tk_led s y) \<and> 0 \<le> snd (tk_led s y)" if "tk_inv s" for s y
    using that entry_of_nonneg by (auto simp: tk_inv_def tk_led_def)
qed (use tk_step_ok in blast)+

lemma tk_inv_new: "tk_inv (d, NewTracker c cr sl cfg)"
  by (simp add: tk_inv_def NewTracker_def Let_def)

lemma tk_led_new: "tk_led (d, NewTracker c cr sl cfg) s = (0, 0)"
  by (simp add: tk_led_def NewTracker_def Let_def entry_of_def)



section \<open>Concrete runs\<close>

definition sample_bought :: Tracker where
  "sample_bought = snd (ApplyTrade (sample_trade DirectionLong 100 sample_day) sample_tracker)"

definition sample_settled :: Tracker where
  "sample_settled = AdvanceDay [''600000.SH''] sample_bought"

definition sample_sold :: Tracker where
  "sample_sold = snd (ApplyTrade (sample_trade DirectionClose 40 (sample_day + day_ns)) sample_settled)"

lemma sample_buy_accepted:
  "fst (ApplyTrade (sample_trade DirectionLong 100 sample_day) sample_tracker)
     = Inr (sample_trade DirectionLong 100 sample_day)"
  by code_simp

lemma sample_sell_accepted:
  "case fst (ApplyTrade (sample_trade DirectionClose 40 (sample_day + day_ns)) sample_settled) of
     Inr tr \<Rightarrow> trQuantity tr = Fin 40 | Inl _ \<Rightarrow> False"
  by code_simp

lemma sample_positions: "fmdom (tkPositions sample_bought) = {|''600000.SH''|}"
  by code_simp

lemma sample_days: "truncate_day sample_day = sample_day" "truncate_day (sample_day + day_ns) = sample_day + day_ns"
  "sample_day < sample_day + day_ns"
  by code_simp+

lemma sample_run_settled:
  "run tk_step (sample_day, sample_tracker) [Buy ''600000.SH'' 100, Roll] (sample_day + day_ns, sample_settled)"
proof -
  have buy: "tk_step (sample_day, sample_tracker) (Buy ''600000.SH'' 100) (sample_day, sample_bought)"
    using tk_step.apply_buy [of "sample_trade DirectionLong 100 sample_day" 100 sample_day sample_tracker _ sample_bought]
      sample_buy_accepted sample_days(1) tk_led_new
    by (simp add: sample_trade_def sample_bought_def sample_tracker_def held_def prod_eq_iff)
  have roll: "tk_step (sample_day, sample_bought) Roll (sample_day + day_ns, sample_settled)"
    unfolding sample_settled_def
    by (rule tk_step.advance) (simp_all add: iteration_order_def sample_positions sample_days(3))
  show ?thesis using buy roll by (auto intro: run.intros)
qed

lemma sample_run:
  "run tk_step (sample_day, sample_tracker)
     ([Buy ''600000.SH'' 100, Roll] @ [Sell ''600000.SH'' 40]) (sample_day + day_ns, sample_sold)"
proof -
  from sample_sell_accepted obtain tr where
    "ApplyTrade (sample_trade DirectionClose 40 (sample_day + day_ns)) sample_settled = (Inr tr, sample_sold)"
    "trQuantity tr = shares 40"
    by (auto simp: sample_sold_def prod_eq_iff split: sum.splits)
  then have "tk_step (sample_day + day_ns, sample_settled) (Sell ''600000.SH'' 40) (sample_day + day_ns, sample_sold)"
    using tk_step.apply_sell [of "sample_trade DirectionClose 40 (sample_day + day_ns)" 40] sample_days(2)
    by (simp add: sample_trade_def)
  then show ?thesis by (blast intro: run_append [OF sample_run_settled] run.intros)
qed



end
