(* ===== verification/Tracker_Log.thy ===== *)
theory Tracker_Log
  imports Tracker_Settlement
begin

text \<open>
  The trade log of the backtest tracker. The steps of \<open>Tracker_Settlement\<close> keep the log in agreement
  with the share ledger, which turns the T+1 rule into a statement about the recorded trades alone.
\<close>

section \<open>Shares in a trade log\<close>

definition trade_shares :: "Trade \<Rightarrow> int" where
  "trade_shares tr = \<lfloor>valof (trQuantity tr)\<rfloor>"

definition log_shares :: "Direction \<Rightarrow> symbol \<Rightarrow> (gotime \<Rightarrow> bool) \<Rightarrow> Trade list \<Rightarrow> int" where
  "log_shares dir y P trs = sum_list (map trade_shares
     (filter (\<lambda>tr. trDirection tr = dir \<and> trSymbol tr = y \<and> P (truncate_day (trTimestamp tr))) trs))"

lemma log_shares_Nil [simp]: "log_shares dir y P [] = 0"
  by (simp add: log_shares_def)

lemma log_shares_snoc [simp]:
  "log_shares dir y P (trs @ [tr]) = log_shares dir y P trs +
     (if trDirection tr = dir \<and> trSymbol tr = y \<and> P (truncate_day (trTimestamp tr)) then trade_shares tr else 0)"
  by (simp add: log_shares_def)

lemma log_shares_cong:
  "(\<And>tr. tr \<in> set trs \<Longrightarrow> P (truncate_day (trTimestamp tr)) = Q (truncate_day (trTimestamp tr))) \<Longrightarrow>
   log_shares dir y P trs = log_shares dir y Q trs"
  unfolding log_shares_def by (intro arg_cong [where f = "\<lambda>l. sum_list (map trade_shares l)"] filter_cong) auto

lemma log_shares_split:
  assumes "\<forall>tr \<in> set trs. truncate_day (trTimestamp tr) \<le> d"
  shows "log_shares dir y (\<lambda>x. x < d) trs + log_shares dir y (\<lambda>x. x = d) trs = log_shares dir y (\<lambda>x. x \<le> d) trs"
  by (induction trs rule: rev_induct) auto

section \<open>The log of a step\<close>

text \<open>The trade a step records: none when it is quiet or the day changes.\<close>

definition logged :: "gotime \<Rightarrow> t1_event \<Rightarrow> Trade list \<Rightarrow> bool" where
  "logged d e trs \<longleftrightarrow>
     (case e of
        Buy s n \<Rightarrow> (\<exists>tr. trs = [tr] \<and> trDirection tr = DirectionLong \<and> trSymbol tr = s \<and> trQuantity tr = shares n \<and>
                        truncate_day (trTimestamp tr) = d)
      | Sell s n \<Rightarrow> (\<exists>tr. trs = [tr] \<and> trDirection tr = DirectionClose \<and> trSymbol tr = s \<and> trQuantity tr = shares n \<and>
                        truncate_day (trTimestamp tr) = d)
      | _ \<Rightarrow> trs = [])"

lemma close_position_logged:
  assumes "close_position t symb q ep ts trade = (Inr tr, t')"
  shows "tkTrades t' = tkTrades t \<and> trDirection tr = trDirection trade \<and> trSymbol tr = trSymbol trade \<and>
         trTimestamp tr = trTimestamp trade"
  using assms
  by (auto simp: close_position_def close_long_def close_short_def Let_def
      split: option.splits if_splits sum.splits prod.splits)

lemma ExecuteTrade_logged:
  assumes "ExecuteTrade tid oid symb dir q p ts None t = (Inr tr, t')" "dir = DirectionLong \<or> dir = DirectionClose"
  shows "tkTrades t' = tkTrades t @ [tr] \<and> trDirection tr = dir \<and> trSymbol tr = symb \<and> trTimestamp tr = ts \<and>
         (dir = DirectionLong \<longrightarrow> trQuantity tr = q)"
  using assms
  by (auto simp: ExecuteTrade_def Let_def limit_fill_def liquidity_fill_def trade_step_def
      elim!: buy_step_Inr dest!: close_position_logged split: prod.splits sum.splits)

lemma ApplyTrade_logged:
  assumes "ApplyTrade trade t = (Inr tr, t')" "trDirection trade = DirectionLong \<or> trDirection trade = DirectionClose"
  shows "tkTrades t' = tkTrades t @ [tr] \<and> trDirection tr = trDirection trade \<and> trSymbol tr = trSymbol trade \<and>
         trTimestamp tr = trTimestamp trade \<and> (trDirection trade = DirectionLong \<longrightarrow> trQuantity tr = trQuantity trade)"
  using assms
  by (auto elim!: ApplyTrade_Inr buy_step_Inr simp: trade_step_def dest!: close_position_logged)

lemma tk_step_logged:
  assumes "tk_step (d, t) e (d', t')"
  obtains trs where "tkTrades t' = tkTrades t @ trs" "logged d e trs"
proof -
  have "\<exists>trs. tkTrades t' = tkTrades t @ trs \<and> logged d e trs"
    using assms
  proof (cases rule: tk_step.cases)
    case (apply_rejected trade err)
    then show ?thesis by (auto elim!: ApplyTrade_Inl simp: logged_def)
  next
    case (execute_rejected tid oid symb dir q p ts opts err)
    then show ?thesis by (auto elim!: ExecuteTrade_Inl simp: logged_def Record_def)
  qed (auto dest!: ApplyTrade_logged ExecuteTrade_logged simp: logged_def AdvanceDay_def ProcessDividend_def
        RecordDailyValue_def GetPortfolioValue_def SetAsOf_def SetStockNames_def Let_def split: option.split)
  then show thesis using that by blast
qed

section \<open>The log agrees with the ledger\<close>

definition log_inv :: "gotime \<times> Tracker \<Rightarrow> bool" where
  "log_inv x \<longleftrightarrow>
     (\<forall>tr \<in> set (tkTrades (snd x)). truncate_day (trTimestamp tr) \<le> fst x) \<and>
     (\<forall>y. fst (tk_led x y) = log_shares DirectionLong y (\<lambda>z. z = fst x) (tkTrades (snd x)) \<and>
          snd (tk_led x y) = log_shares DirectionLong y (\<lambda>z. z < fst x) (tkTrades (snd x))
                           - log_shares DirectionClose y (\<lambda>z. z \<le> fst x) (tkTrades (snd x))) \<and>
     (\<forall>D y. log_shares DirectionClose y (\<lambda>z. z \<le> D) (tkTrades (snd x))
          \<le> log_shares DirectionLong y (\<lambda>z. z < D) (tkTrades (snd x)))"

lemma trade_shares_eq [simp]: "trQuantity tr = shares n \<Longrightarrow> trade_shares tr = n"
  by (simp add: trade_shares_def)

lemma log_all_past:
  assumes "\<forall>tr \<in> set trs. truncate_day (trTimestamp tr) \<le> d" "d < D"
  shows "log_shares dir y (\<lambda>z. z < D) trs = log_shares dir y (\<lambda>z. z \<le> d) trs"
    "log_shares dir y (\<lambda>z. z \<le> D) trs = log_shares dir y (\<lambda>z. z \<le> d) trs"
    "log_shares dir y (\<lambda>z. z = D) trs = 0"
proof -
  show "log_shares dir y (\<lambda>z. z < D) trs = log_shares dir y (\<lambda>z. z \<le> d) trs"
    "log_shares dir y (\<lambda>z. z \<le> D) trs = log_shares dir y (\<lambda>z. z \<le> d) trs"
    using assms by (intro log_shares_cong; force)+
  have "log_shares dir y (\<lambda>z. z = D) trs = log_shares dir y (\<lambda>z. False) trs"
    using assms by (intro log_shares_cong) force
  then show "log_shares dir y (\<lambda>z. z = D) trs = 0" by (simp add: log_shares_def)
qed

lemma log_inv_roll:
  assumes "log_inv (d, t)" "d < d'" "tkTrades t' = tkTrades t" "tk_led (d', t') = ledger_step Roll (tk_led (d, t))"
  shows "log_inv (d', t')"
proof -
  let ?trs = "tkTrades t"
  have past: "\<forall>tr \<in> set ?trs. truncate_day (trTimestamp tr) \<le> d" using assms(1) by (simp add: log_inv_def)
  note all = log_all_past [OF past assms(2)] log_shares_split [OF past]
  have "held (tk_led (d, t) y) = log_shares DirectionLong y (\<lambda>z. z \<le> d) ?trs - log_shares DirectionClose y (\<lambda>z. z \<le> d) ?trs" for y
    using assms(1) all(4) [of DirectionLong y] by (simp add: log_inv_def held_def)
  then show ?thesis
    using assms past all by (force simp: log_inv_def)
qed

lemma log_inv_sell:
  assumes "log_inv (d, t)" "enabled (Sell s n) (tk_led (d, t))" "tk_inv (d, t)"
    and "tkTrades t' = tkTrades t @ [tr]" "trDirection tr = DirectionClose" "trSymbol tr = s"
    "trQuantity tr = shares n" "truncate_day (trTimestamp tr) = d"
    and "tk_led (d, t') = ledger_step (Sell s n) (tk_led (d, t))"
  shows "log_inv (d, t')"
proof -
  let ?trs = "tkTrades t"
  have past: "\<forall>tr \<in> set ?trs. truncate_day (trTimestamp tr) \<le> d" using assms(1) by (simp add: log_inv_def)
  have led: "fst (tk_led (d, t) s) = log_shares DirectionLong s (\<lambda>z. z = d) ?trs"
    "snd (tk_led (d, t) s) = log_shares DirectionLong s (\<lambda>z. z < d) ?trs - log_shares DirectionClose s (\<lambda>z. z \<le> d) ?trs"
    using assms(1) by (auto simp: log_inv_def)
  have nn: "0 \<le> fst (tk_led (d, t) s)" using tk.led_nonneg [OF assms(3)] by simp
  have "log_shares DirectionClose s (\<lambda>z. z \<le> D) ?trs + n \<le> log_shares DirectionLong s (\<lambda>z. z < D) ?trs" if "d \<le> D" for D
  proof (cases "d = D")
    case True
    with led(2) assms(2) show ?thesis by simp
  next
    case False
    with that log_all_past [OF past, of D] log_shares_split [OF past, of DirectionLong s] led nn assms(2)
    show ?thesis by simp
  qed
  then show ?thesis using assms by (auto simp: log_inv_def)
qed

lemma log_inv_buy:
  assumes "log_inv (d, t)" "0 < n" "tkTrades t' = tkTrades t @ [tr]" "trDirection tr = DirectionLong" "trSymbol tr = s"
    "trQuantity tr = shares n" "truncate_day (trTimestamp tr) = d"
    and "tk_led (d, t') = ledger_step (Buy s n) (tk_led (d, t))"
  shows "log_inv (d, t')"
proof -
  have "log_shares DirectionClose y (\<lambda>z. z \<le> D) (tkTrades t) \<le> log_shares DirectionLong y (\<lambda>z. z < D) (tkTrades t)" for y D
    using assms(1) by (simp add: log_inv_def)
  then have "log_shares DirectionClose s (\<lambda>z. z \<le> D) (tkTrades t) \<le> log_shares DirectionLong s (\<lambda>z. z < D) (tkTrades t) + n" for D
    using assms(2) by (meson add_increasing2 less_imp_le)
  with assms show ?thesis by (auto simp: log_inv_def)
qed

lemma tk_step_days: "tk_step (d, t) e (d', t') \<Longrightarrow> if e = Roll then d < d' else d' = d"
  by (auto elim: tk_step.cases)

lemma log_inv_step:
  assumes "tk_step x e x'" "tk_inv x" "log_inv x"
  shows "log_inv x'"
proof -
  obtain d t d' t' where x: "x = (d, t)" "x' = (d', t')" by (metis surj_pair)
  note ok = tk_step_ok [OF assms(1,2)] and day = tk_step_days [OF assms(1) [unfolded x]]
  obtain trs where trs: "tkTrades t' = tkTrades t @ trs" "logged d e trs"
    using tk_step_logged [OF assms(1) [unfolded x]] by blast
  show ?thesis
  proof (cases e)
    case (Buy s n)
    with trs(2) obtain tr where "trs = [tr]" "trDirection tr = DirectionLong" "trSymbol tr = s" "trQuantity tr = shares n"
      "truncate_day (trTimestamp tr) = d" by (auto simp: logged_def)
    with log_inv_buy [of d t n t' tr s] trs(1) Buy ok day assms(3) x show ?thesis by simp
  next
    case (Sell s n)
    with trs(2) obtain tr where "trs = [tr]" "trDirection tr = DirectionClose" "trSymbol tr = s" "trQuantity tr = shares n"
      "truncate_day (trTimestamp tr) = d" by (auto simp: logged_def)
    with log_inv_sell [of d t s n t' tr] trs(1) Sell ok day assms(2,3) x show ?thesis by simp
  next
    case Roll
    with trs have "tkTrades t' = tkTrades t" by (simp add: logged_def)
    with log_inv_roll [of d t d' t'] Roll ok day assms(3) x show ?thesis by simp
  next
    case Quiet
    with trs ok day assms(3) x show ?thesis by (simp add: logged_def log_inv_def)
  qed
qed

lemma log_inv_run: "run tk_step x es x' \<Longrightarrow> tk_inv x \<Longrightarrow> log_inv x \<Longrightarrow> tk_inv x' \<and> log_inv x'"
  by (induction rule: run.induct) (auto dest: tk.inv_step log_inv_step)

lemma log_inv_new: "log_inv (d, NewTracker c cr sl cfg)"
  by (simp add: log_inv_def tk_led_new) (simp add: NewTracker_def Let_def)


lemma sample_log:
  "log_shares DirectionClose ''600000.SH'' (\<lambda>z. z \<le> sample_day + day_ns) (tkTrades sample_sold) = 40"
  "log_shares DirectionLong ''600000.SH'' (\<lambda>z. z < sample_day + day_ns) (tkTrades sample_sold) = 100"
  by code_simp+


end
