(* ===== verification/Engine_Run.thy ===== *)
theory Engine_Run
  imports Engine_Daily Tracker_Log
begin

text \<open>
  The daily loop of the engine as a run of the tracker: every part of a long-only backtest through the
  execution service is a sequence of the tracker's steps, so the T+1 rule and the share accounting of
  \<open>Tracker_Log\<close> hold for the trade log of the whole run.
\<close>

section \<open>Long-only engines\<close>

definition whole_size :: "f64 \<Rightarrow> bool" where
  "whole_size q \<longleftrightarrow> fle q (Fin 0) \<or> (\<exists>n. q = shares n \<and> 0 < n \<and> n \<le> 2 ^ 53)"

text \<open>
  The collaborators of a long-only backtest: orders go through the execution service, sizes are whole
  shares, no strategy signal is short or asks for an execution algorithm, stop-loss events close whole
  shares, and no stock is split.
\<close>

definition long_only :: "Engine \<Rightarrow> bool" where
  "long_only e \<longleftrightarrow>
     enExec e \<noteq> None \<and> enSplits e = [] \<and>
     (\<forall>date S. distinct (enOrder e date S) \<and> fset_of_list (enOrder e date S) = S) \<and>
     (\<forall>sigs pf dd sizes s q. enSizes e sigs pf dd = Some sizes \<longrightarrow> fmlookup sizes s = Some q \<longrightarrow> whole_size q) \<and>
     (\<forall>sig pf dd p q. enSize e sig pf dd p = Some q \<longrightarrow> whole_size q) \<and>
     (\<forall>u dd pf date ss s. enSignals e u dd pf date = Some ss \<longrightarrow> s \<in> set ss \<longrightarrow>
        resolveDirection s \<noteq> DirectionShort \<and> ssExecAlgo s = []) \<and>
     (\<forall>ps dd ev. ev \<in> set (enStops e ps dd) \<longrightarrow> (\<exists>m. sleQuantity ev = shares m \<and> 0 < m))"

section \<open>The engine as a run of the tracker\<close>

text \<open>A part of a day: a run of tracker steps on that day, with no execution algorithm attached.\<close>

definition day_run :: "gotime \<Rightarrow> BacktestState \<Rightarrow> BacktestState \<Rightarrow> bool" where
  "day_run d st st' \<longleftrightarrow> (bsAlgo st = NewDispatcher \<longrightarrow> tk_inv (d, bsTracker st) \<longrightarrow>
     bsAlgo st' = NewDispatcher \<and> (\<exists>es. run tk_step (d, bsTracker st) es (d, bsTracker st')))"

lemma day_run_same: "bsAlgo st' = bsAlgo st \<Longrightarrow> bsTracker st' = bsTracker st \<Longrightarrow> day_run d st st'"
  by (auto simp: day_run_def intro: run.intros)

lemma day_run_step:
  assumes "bsAlgo st' = bsAlgo st" "tk_inv (d, bsTracker st) \<Longrightarrow> \<exists>e. tk_step (d, bsTracker st) e (d, bsTracker st')"
  shows "day_run d st st'"
  using assms by (auto simp: day_run_def intro: run.intros)

lemma day_run_trans: "day_run d st st1 \<Longrightarrow> day_run d st1 st2 \<Longrightarrow> day_run d st st2"
  unfolding day_run_def by (meson run_append tk.inv_run)

lemma day_run_fold: "(\<And>x st. x \<in> set xs \<Longrightarrow> day_run d st (f x st)) \<Longrightarrow> day_run d st (fold f xs st)"
proof (induction xs arbitrary: st)
  case Nil
  show ?case by (simp add: day_run_same)
next
  case (Cons x xs)
  have "day_run d st (f x st)" by (rule Cons.prems) simp
  moreover have "day_run d (f x st) (fold f xs (f x st))" by (rule Cons.IH) (simp add: Cons.prems)
  ultimately show ?case by (auto intro: day_run_trans)
qed

lemma day_run_bs_fields [simp]:
  "bsTracker (update_target s f st) = bsTracker st" "bsAlgo (update_target s f st) = bsAlgo st"
  "bsTracker (reconcileTargetPosition s date st) = bsTracker st" "bsAlgo (reconcileTargetPosition s date st) = bsAlgo st"
  "bsTracker (record_target s q date st) = bsTracker st" "bsAlgo (record_target s q date st) = bsAlgo st"
  "bsTracker (updateTargetPositionAfterTrade tr sig date st) = bsTracker st"
  "bsAlgo (updateTargetPositionAfterTrade tr sig date st) = bsAlgo st"
  by (simp_all add: update_target_def reconcileTargetPosition_def record_target_def updateTargetPositionAfterTrade_def
      Let_def split: option.split)

lemma sell_whole:
  assumes "tk_inv (d, t)" "0 < m" "ExecuteTrade tid oid symb DirectionClose (shares m) p ts None t = (Inr tr, t')"
  shows "\<exists>n. trQuantity tr = shares n"
proof -
  from assms(3) obtain ep trade t1 where c: "close_position t symb (shares m) ep ts trade = (Inr tr, t1)"
    by (auto elim!: ExecuteTrade_None simp: trade_step_def)
  have "opos_ok d (fmlookup (tkPositions t) symb)" using assms(1) by (simp add: tk_inv_def)
  from close_position_led [OF this assms(2) c] show ?thesis by metis
qed

lemma execute_close_step:
  assumes "tk_inv (d, t)" "0 < m" "truncate_day ts = d"
    and "ExecuteTrade tid oid symb DirectionClose (shares m) p ts None t = (r, t')"
  shows "\<exists>e. tk_step (d, t) e (d, t')"
proof (cases r)
  case (Inl err)
  with assms(4) show ?thesis by (auto intro: tk_step.execute_rejected)
next
  case (Inr tr)
  with assms sell_whole [OF assms(1,2)] show ?thesis by (metis tk_step.execute_sell)
qed

lemma pos_ok_abs: "pos_ok d pos e \<Longrightarrow> go_abs (posQuantity pos) = shares (held e) \<and> 0 < held e"
  by (simp add: pos_ok_def go_abs_shares)

lemma tracker_close_run:
  assumes "truncate_day date = d" "tracker_close e symb price date st = (r, st')"
  shows "day_run d st st'"
proof (cases "fmlookup (tkPositions (bsTracker st)) symb")
  case None
  with assms(2) show ?thesis by (auto simp: tracker_close_def ClosePosition_def intro: day_run_same)
next
  case (Some pos)
  show ?thesis
  proof (rule day_run_step)
    show "bsAlgo st' = bsAlgo st" using assms(2) by (auto simp: tracker_close_def split: prod.splits)
    assume inv: "tk_inv (d, bsTracker st)"
    then have "opos_ok d (Some pos)" using Some unfolding tk_inv_def by (metis snd_conv fst_conv)
    then have "pos_ok d pos (entry_of (Some pos))" by simp
    then obtain m where "go_abs (posQuantity pos) = shares m" "0 < m" using pos_ok_abs by blast
    with execute_close_step [OF inv _ assms(1)] assms(2) Some show "\<exists>e. tk_step (d, bsTracker st) e (d, bsTracker st')"
      by (auto simp: tracker_close_def ClosePosition_def split: prod.splits)
  qed
qed


lemma tracker_stop_run:
  assumes "truncate_day date = d" "tracker_execute e symb DirectionClose (shares m) price date None st = (r, st')" "0 < m"
  shows "day_run d st st'"
proof (rule day_run_step)
  show "bsAlgo st' = bsAlgo st" using assms(2) by (auto simp: tracker_execute_def split: prod.splits)
  assume inv: "tk_inv (d, bsTracker st)"
  from execute_close_step [OF inv assms(3,1)] assms(2) show "\<exists>e. tk_step (d, bsTracker st) e (d, bsTracker st')"
    by (auto simp: tracker_execute_def split: prod.splits)
qed

lemma ExecuteOrder_trade:
  assumes "ExecuteOrder tid svc ord quote = Inr tr"
  shows "trSymbol tr = ordSymbol ord" "trDirection tr = ordDirection ord" "trQuantity tr = ordQuantity ord"
    "trTimestamp tr = eqDate quote"
  using assms by (auto simp: ExecuteOrder_def split: if_splits sum.splits)

lemma apply_sell_step:
  assumes "tk_inv (d, t)" "trDirection trade = DirectionClose" "trQuantity trade = shares m" "truncate_day (trTimestamp trade) = d"
    and "ApplyTrade trade t = (Inr tr, t')"
  shows "\<exists>e. tk_step (d, t) e (d, t')"
proof -
  from assms(5) obtain t1 where c: "close_position t (trSymbol trade) (shares m) (trPrice trade) (trTimestamp trade) trade = (Inr tr, t1)"
    and m: "0 < m"
    by (auto elim!: ApplyTrade_Inr simp: trade_step_def assms(2,3) fle_fin)
  have "opos_ok d (fmlookup (tkPositions t) (trSymbol trade))" using assms(1) by (simp add: tk_inv_def)
  from close_position_led [OF this m c] obtain n where "trQuantity tr = shares n" by metis
  with assms(2-5) show ?thesis by (metis tk_step.apply_sell)
qed

text \<open>An order through the service: a buy up to the bound, or a close of whole shares.\<close>

lemma service_run:
  assumes "truncate_day date = d" "executeViaExecutionService e sig q price date opts st = (r, st')"
    and "tk_inv (d, bsTracker st) \<Longrightarrow>
       sgDirection sig = DirectionLong \<and> (\<exists>n. q = shares n \<and> held (tk_led (d, bsTracker st) (sgSymbol sig)) + n \<le> 2 ^ 53) \<or>
       sgDirection sig = DirectionClose \<and> (\<exists>m. q = shares m)"
  shows "day_run d st st'"
proof -
  obtain svc where svc: "enExec e = Some svc \<or> st' = st"
    using assms(2) by (cases "enExec e") (auto simp: executeViaExecutionService_def)
  let ?ord = "signal_order sig q date opts" and ?quote = "signal_quote (sgSymbol sig) price date (optDayBar opts)"
  have d: "eqDate ?quote = date" by (simp add: signal_quote_def split: option.split)
  consider (same) "bsTracker st' = bsTracker st" "bsAlgo st' = bsAlgo st"
    | (applied) tid tr r' where "ExecuteOrder tid svc ?ord ?quote = Inr tr"
        "ApplyTrade tr (bsTracker st) = (r', bsTracker st')" "bsAlgo st' = bsAlgo st"
    using svc assms(2)
    by (auto simp: executeViaExecutionService_def Let_def split: option.splits sum.splits prod.splits)
  then show ?thesis
  proof cases
    case same
    then show ?thesis by (intro day_run_same)
  next
    case applied
    note tr = ExecuteOrder_trade [OF applied(1)]
    show ?thesis
    proof (rule day_run_step)
      assume inv: "tk_inv (d, bsTracker st)"
      show "\<exists>e. tk_step (d, bsTracker st) e (d, bsTracker st')"
      proof (cases r')
        case (Inl err)
        with applied(2) show ?thesis by (auto intro: tk_step.apply_rejected)
      next
        case (Inr tr')
        have ts: "truncate_day (trTimestamp tr) = d" using tr d assms(1) by simp
        from assms(3) [OF inv] show ?thesis
        proof (elim disjE conjE exE)
          fix n assume "sgDirection sig = DirectionLong" "q = shares n" "held (tk_led (d, bsTracker st) (sgSymbol sig)) + n \<le> 2 ^ 53"
          with tr ts applied(2) Inr tk_step.apply_buy [of tr n d "bsTracker st" tr' "bsTracker st'"] show ?thesis
            by (auto simp: signal_order_def)
        next
          fix m assume "sgDirection sig = DirectionClose" "q = shares m"
          with tr ts applied(2) Inr apply_sell_step [OF inv, of tr m tr' "bsTracker st'"] show ?thesis
            by (auto simp: signal_order_def)
        qed
      qed
    qed (rule applied(3))
  qed
qed


lemma heldQty_shares:
  assumes "tk_inv (d, bsTracker st)"
  shows "heldQty st s = shares (held (tk_led (d, bsTracker st) s))"
    and "0 \<le> held (tk_led (d, bsTracker st) s)" "held (tk_led (d, bsTracker st) s) \<le> 2 ^ 53"
proof -
  have ok: "opos_ok d (fmlookup (tkPositions (bsTracker st)) s)" using assms by (simp add: tk_inv_def)
  from entry_of_nonneg [OF ok] show "0 \<le> held (tk_led (d, bsTracker st) s)" "held (tk_led (d, bsTracker st) s) \<le> 2 ^ 53"
    by (simp_all add: tk_led_def)
  show "heldQty st s = shares (held (tk_led (d, bsTracker st) s))"
    using ok by (cases "fmlookup (tkPositions (bsTracker st)) s")
      (auto simp: heldQty_def GetPosition_def tk_led_def pos_ok_def flt_fin entry_of_def held_def)
qed

lemma effective_long:
  assumes "tk_inv (d, bsTracker st)" "0 < n" "n \<le> 2 ^ 53"
  shows "computeEffectiveTarget st s (shares n) DirectionLong =
     (let h = held (tk_led (d, bsTracker st) s) in if n \<le> h then Fin (- 1) else shares (n - h))"
proof -
  note h = heldQty_shares [OF assms(1), of s]
  have "fsub (shares n) (heldQty st s) = shares (n - held (tk_led (d, bsTracker st) s))"
    unfolding h(1) by (rule fsub_int) (use h(2,3) assms(2,3) in auto)
  then show ?thesis by (auto simp: computeEffectiveTarget_def Let_def fle_fin)
qed

lemma direct_trade_run:
  assumes "enExec e \<noteq> None" "truncate_day date = d" "sgDirection sig \<noteq> DirectionShort"
    and "tk_inv (d, bsTracker st) \<Longrightarrow> sgDirection sig = DirectionLong \<Longrightarrow>
       \<exists>n. q = shares n \<and> held (tk_led (d, bsTracker st) (sgSymbol sig)) + n \<le> 2 ^ 53"
    and "sgDirection sig = DirectionClose \<Longrightarrow> \<exists>m. q = shares m"
  shows "day_run d st (direct_trade e sig q price date opts st)"
proof (cases "sgDirection sig = DirectionLong \<or> sgDirection sig = DirectionClose")
  case True
  obtain r st1 where r: "executeViaExecutionService e sig q price date opts st = (r, st1)" by fastforce
  have "day_run d st st1" by (rule service_run [OF assms(2) r]) (use True assms(4,5) in blast)
  moreover have "bsTracker (direct_trade e sig q price date opts st) = bsTracker st1 \<and>
      bsAlgo (direct_trade e sig q price date opts st) = bsAlgo st1"
    using True assms(1) r by (auto simp: direct_trade_def signal_order_trade_def Let_def split: sum.splits)
  ultimately show ?thesis by (auto intro: day_run_trans day_run_same)
next
  case False
  with assms(3) have "direct_trade e sig q price date opts st = st"
    by (cases "sgDirection sig") (auto simp: direct_trade_def Let_def)
  then show ?thesis by (simp add: day_run_same)
qed

lemma process_signal_run:
  assumes "enExec e \<noteq> None" "truncate_day date = d" "sgDirection sig \<noteq> DirectionShort" "sgExecAlgo sig = []"
    and "\<And>q. sizing = Some q \<Longrightarrow> whole_size q"
  shows "day_run d st (process_signal e dd date sig sizing st)"
proof (cases "\<exists>n. sizing = Some (shares n) \<and> 0 < n \<and> n \<le> 2 ^ 53 \<and> \<not> limit_blocked (day_bar dd (sgSymbol sig)) (sgDirection sig)")
  case False
  with assms(5) have "process_signal e dd date sig sizing st = st"
    by (auto simp: process_signal_def whole_size_def split: option.splits)
  then show ?thesis by (simp add: day_run_same)
next
  case True
  then obtain n where n: "sizing = Some (shares n)" "0 < n" "n \<le> 2 ^ 53"
    "\<not> limit_blocked (day_bar dd (sgSymbol sig)) (sgDirection sig)" by blast
  let ?st = "record_target (sgSymbol sig) (shares n) date st"
  let ?q = "computeEffectiveTarget ?st (sgSymbol sig) (shares n) (sgDirection sig)"
  let ?trade = "direct_trade e sig ?q (price_of (ddPrices dd) (sgSymbol sig)) date (signal_opts dd sig) (?st\<lparr>bsAlgo := bsAlgo ?st\<rparr>)"
  have eq: "process_signal e dd date sig sizing st =
      (if flt (Fin 0) ?q \<and> \<not> fle (price_of (ddPrices dd) (sgSymbol sig)) (Fin 0) then ?trade else ?st)"
    using n by (auto simp: process_signal_def executeSignalTrade_def attachExecAlgoSignal_def assms(4) fle_fin Let_def flt_def)
  have same: "day_run d st (?st\<lparr>bsAlgo := bsAlgo ?st\<rparr>)" by (rule day_run_same) simp_all
  show ?thesis
  proof (cases "flt (Fin 0) ?q")
    case q: True
    have "day_run d (?st\<lparr>bsAlgo := bsAlgo ?st\<rparr>) ?trade"
    proof (rule direct_trade_run [OF assms(1-3)])
      assume inv: "tk_inv (d, bsTracker (?st\<lparr>bsAlgo := bsAlgo ?st\<rparr>))" and l: "sgDirection sig = DirectionLong"
      then have inv': "tk_inv (d, bsTracker ?st)" by simp
      note eff = effective_long [OF inv' n(2,3), of "sgSymbol sig"]
      have "?q = shares (n - held (tk_led (d, bsTracker st) (sgSymbol sig)))"
        using eff q l by (auto simp: Let_def flt_fin split: if_splits)
      then show "\<exists>m. ?q = shares m \<and> held (tk_led (d, bsTracker (?st\<lparr>bsAlgo := bsAlgo ?st\<rparr>)) (sgSymbol sig)) + m \<le> 2 ^ 53"
        using n(3) by (intro exI [of _ "n - held (tk_led (d, bsTracker st) (sgSymbol sig))"]) simp
    next
      assume "sgDirection sig = DirectionClose"
      then show "\<exists>m. ?q = shares m" by (auto simp: computeEffectiveTarget_def)
    qed
    with same show ?thesis unfolding eq by (auto intro: day_run_trans day_run_same)
  next
    case False
    then show ?thesis unfolding eq by (auto intro: day_run_same)
  qed
qed


lemma signals_run:
  assumes "long_only e" "truncate_day date = d" "\<And>sig. sig \<in> set sigs \<Longrightarrow> sgDirection sig \<noteq> DirectionShort \<and> sgExecAlgo sig = []"
  shows "day_run d st (processSignalsAndExecuteTrades e dd date sigs st)"
proof -
  have ex: "enExec e \<noteq> None" using assms(1) by (simp add: long_only_def)
  let ?valid = "filter (\<lambda>sig. \<not> sgDate sig < date) sigs"
  have sig: "sgDirection sig \<noteq> DirectionShort" "sgExecAlgo sig = []" if "sig \<in> set ?valid" for sig
    using that assms(3) by auto
  show ?thesis
  proof (cases "enSizes e ?valid (GetPortfolio (enNow e) (ddPrices dd) (bsTracker st)) dd")
    case None
    have "day_run d st (processSignalsFallback e dd date ?valid st)"
      unfolding processSignalsFallback_def
      by (intro day_run_fold process_signal_run [OF ex assms(2)] sig) (use assms(1) in \<open>auto simp: long_only_def\<close>)
    with None show ?thesis by (simp add: processSignalsAndExecuteTrades_def Let_def day_run_same)
  next
    case (Some sizes)
    then have w: "whole_size q" if "fmlookup sizes s = Some q" for s q
      using that assms(1) unfolding long_only_def by blast
    have "day_run d st (fold (\<lambda>sig. process_signal e dd date sig (fmlookup sizes (sgSymbol sig))) ?valid st)"
      by (intro day_run_fold process_signal_run [OF ex assms(2)] sig w)
    with Some show ?thesis by (simp add: processSignalsAndExecuteTrades_def Let_def day_run_same)
  qed
qed

lemma converted_signals:
  assumes "long_only e" "getSignals e u dd date t = Some sigs" "sig \<in> set sigs"
  shows "sgDirection sig \<noteq> DirectionShort \<and> sgExecAlgo sig = []"
proof -
  from assms(2) obtain pf ss where ss: "enSignals e u dd pf date = Some ss" "sigs = convertStrategySignals date ss"
    by (auto simp: getSignals_def)
  with assms(3) obtain s' where "s' \<in> set ss" "convert_signal date s' = Some sig"
    by (auto simp: convertStrategySignals_def List.map_filter_def)
  moreover from this(1) ss(1) assms(1) have "resolveDirection s' \<noteq> DirectionShort \<and> ssExecAlgo s' = []"
    unfolding long_only_def by blast
  ultimately show ?thesis by (auto simp: convert_signal_def split: if_splits)
qed

lemma no_parents [simp]: "Len_d NewDispatcher = 0"
  by (simp add: Len_d_def ActiveParents_def select_parents_def NewDispatcher_def sorted_keys_def
      List.map_filter_def sorted_list_of_fset.rep_eq)

lemma children_run: "day_run d st (processExecAlgoChildren e dd date st)"
  by (auto simp: day_run_def processExecAlgoChildren_def intro: run.intros)

lemma cancel_run_day: "day_run d st (cancelExecAlgoParentsForSymbol s reason st)"
  by (auto simp: day_run_def cancelExecAlgoParentsForSymbol_def intro: run.intros)

lemma quiet_run:
  "day_run d st (on_tracker (SetStockNames names) st)" "day_run d st (on_tracker (SetAsOf date) st)"
  "day_run d st (on_tracker (\<lambda>t. snd (RecordDailyValue date prices t)) st)"
  "day_run d st (st\<lparr>bsTracker := ProcessDividend s dv (bsTracker st)\<rparr>)"
  by (rule day_run_step; auto simp: on_tracker_def intro: tk_step.intros)+

lemma stop_step_run:
  assumes "truncate_day date = d" "\<exists>m. sleQuantity ev = shares m \<and> 0 < m"
  shows "day_run d st (stop_step e date ev st)"
proof -
  obtain m where m: "sleQuantity ev = shares m" "0 < m" using assms(2) by blast
  obtain r st1 where r: "tracker_execute e (sleSymbol ev) DirectionClose (shares m) (slePrice ev) date None st = (r, st1)" by fastforce
  note step = tracker_stop_run [OF assms(1) r m(2)]
  have rec: "day_run d st1 (reconcileTargetPosition (sleSymbol ev) date st1)" by (intro day_run_same) simp_all
  show ?thesis
    using day_run_trans [OF day_run_trans [OF step rec] cancel_run_day] step
    by (auto simp: stop_step_def m(1) r day_run_same split: sum.split)
qed

lemma stops_run:
  assumes "long_only e" "truncate_day date = d"
  shows "day_run d st (processStopLosses e dd date st)"
proof -
  have "day_run d st (fold (stop_step e date) (if open_positions st = [] then [] else enStops e (open_positions st) dd) st)"
    by (intro day_run_fold stop_step_run [OF assms(2)]) (use assms(1) in \<open>auto simp: long_only_def split: if_splits\<close>)
  then show ?thesis by (simp add: processStopLosses_def Let_def day_run_same)
qed

lemma corporate_run:
  assumes "long_only e"
  shows "day_run d st (snd (processCorporateActions e date st))" "fst (processCorporateActions e date st) = []"
proof -
  have "events_on day (enSplits e) = []" for day using assms by (simp add: long_only_def events_on_def)
  moreover have "day_run d st (fold (\<lambda>(s, dv) st. st\<lparr>bsTracker := ProcessDividend s dv (bsTracker st)\<rparr>) evs st)" for evs
    by (intro day_run_fold) (auto intro: quiet_run)
  ultimately show "day_run d st (snd (processCorporateActions e date st))" "fst (processCorporateActions e date st) = []"
    by (simp_all add: processCorporateActions_def Let_def)
qed

lemma delist_step_run:
  assumes "truncate_day date = d"
  shows "day_run d (snd acc) (snd (delist_step e prices date positions s acc))"
proof -
  obtain gone st where acc: "acc = (gone, st)" by fastforce
  have "day_run d st st1 \<and> day_run d st (reconcileTargetPosition s date st1)"
    if "tracker_close e s price date st = (r, st1)" for price r st1
    using day_run_trans [OF tracker_close_run [OF assms that], of "reconcileTargetPosition s date st1"]
      tracker_close_run [OF assms that] by (simp add: day_run_same)
  then show ?thesis
    by (auto simp: delist_step_def acc day_run_same split: option.split prod.split sum.split)
qed

lemma delisted_run:
  assumes "truncate_day date = d"
  shows "day_run d st (snd (forceCloseDelisted e prices date st))"
proof -
  have "day_run d (snd acc) (snd (fold (delist_step e prices date positions) xs acc))" for xs acc positions
  proof (induction xs arbitrary: acc)
    case Nil
    show ?case by (simp add: day_run_same)
  next
    case (Cons x xs)
    show ?case
      using day_run_trans [OF delist_step_run [OF assms] Cons.IH] by simp
  qed
  from this [of "([], st)"] show ?thesis by (simp add: forceCloseDelisted_def Let_def day_run_same)
qed


lemma trade_day_run:
  assumes "long_only e" "truncate_day date = d" "d < d'" "bsAlgo st = NewDispatcher" "tk_inv (d, bsTracker st)"
  shows "bsAlgo (trade_day e universe dd date st) = NewDispatcher \<and>
         (\<exists>es. run tk_step (d, bsTracker st) es (d', bsTracker (trade_day e universe dd date st)))"
proof -
  define st1 where "st1 = on_tracker (SetStockNames (stockNamesFor (ddStocks dd))) st"
  define st2 where "st2 = fold (\<lambda>s. cancelExecAlgoParentsForSymbol s ''delisted'')
      (fst (forceCloseDelisted e (ddPrices dd) date st1)) (snd (forceCloseDelisted e (ddPrices dd) date st1))"
  define st3 where "st3 = on_tracker (SetAsOf date) st2"
  define sigs where "sigs = (case getSignals e universe dd date (bsTracker st3) of None \<Rightarrow> [] | Some ss \<Rightarrow> ss)"
  define st4 where "st4 = processStopLosses e dd date (processExecAlgoChildren e dd date
      (processSignalsAndExecuteTrades e dd date sigs st3))"
  define st5 where "st5 = on_tracker (\<lambda>t. snd (RecordDailyValue date (ddPrices dd) t)) (snd (processCorporateActions e date st4))"
  have eq: "trade_day e universe dd date st =
      on_tracker (\<lambda>t. AdvanceDay (enOrder e date (fmdom (tkPositions t))) t) st5"
    using corporate_run(2) [OF assms(1), of date st4]
    by (simp add: trade_day_def Let_def st1_def st2_def st3_def sigs_def st4_def st5_def split_beta)
  have "day_run d st st1" unfolding st1_def by (rule quiet_run)
  moreover have "day_run d st1 st2" unfolding st2_def
    by (rule day_run_trans [OF delisted_run [OF assms(2), of st1 e "ddPrices dd"]]) (intro day_run_fold cancel_run_day)
  moreover have "day_run d st2 st3" unfolding st3_def by (rule quiet_run)
  moreover have "day_run d st3 (processSignalsAndExecuteTrades e dd date sigs st3)"
  proof (rule signals_run [OF assms(1,2)])
    show "sgDirection sig \<noteq> DirectionShort \<and> sgExecAlgo sig = []" if "sig \<in> set sigs" for sig
      using that converted_signals [OF assms(1), of universe dd date "bsTracker st3" sigs sig]
      by (cases "getSignals e universe dd date (bsTracker st3)") (auto simp: sigs_def)
  qed
  then have "day_run d st3 st4" unfolding st4_def
    using day_run_trans [OF _ day_run_trans [OF children_run stops_run [OF assms(1,2)]]] by blast
  moreover have "day_run d st4 st5" unfolding st5_def
    by (rule day_run_trans [OF corporate_run(1) [OF assms(1)]]) (rule quiet_run)
  ultimately have "day_run d st st5" by (blast intro: day_run_trans)
  then obtain es where es: "bsAlgo st5 = NewDispatcher" "run tk_step (d, bsTracker st) es (d, bsTracker st5)"
    using assms(4,5) by (auto simp: day_run_def)
  have "tk_step (d, bsTracker st5) Roll (d', bsTracker (trade_day e universe dd date st))"
    using assms(1,3) by (auto simp: eq on_tracker_def long_only_def iteration_order_def intro!: tk_step.advance)
  then have "run tk_step (d, bsTracker st) (es @ [Roll]) (d', bsTracker (trade_day e universe dd date st))"
    by (blast intro: run_append [OF es(2)] run.intros)
  then show ?thesis using es(1) by (auto simp: eq on_tracker_def)
qed

fun days_ordered :: "gotime list \<Rightarrow> bool" where
  "days_ordered (a # b # ds) = (truncate_day a < truncate_day b \<and> days_ordered (b # ds))"
| "days_ordered _ = True"

lemma run_days_run:
  assumes "long_only e" "days_ordered dates" "run_days e cancelled pool startDate dates ls = Some ls'"
    and "bsAlgo (lsState ls) = NewDispatcher" "tk_inv (d, bsTracker (lsState ls))" "dates \<noteq> [] \<Longrightarrow> d = truncate_day (hd dates)"
  shows "\<exists>es d'. run tk_step (d, bsTracker (lsState ls)) es (d', bsTracker (lsState ls'))"
  using assms(2-)
proof (induction dates arbitrary: ls d)
  case Nil
  then show ?case by (auto intro: run.intros)
next
  case (Cons date dates)
  define d' where "d' = (if dates = [] then d + 1 else truncate_day (hd dates))"
  let ?ls = "run_day e pool startDate date ls"
  have d: "truncate_day date = d" using Cons.prems(5) by simp
  have "d < d'" using Cons.prems(1) d by (cases dates) (auto simp: d'_def)
  from trade_day_run [OF assms(1) d this Cons.prems(3,4)] obtain es where
    es: "bsAlgo (lsState ?ls) = NewDispatcher" "run tk_step (d, bsTracker (lsState ls)) es (d', bsTracker (lsState ?ls))"
    by (auto simp: run_day_def Let_def)
  have "\<exists>es d''. run tk_step (d', bsTracker (lsState ?ls)) es (d'', bsTracker (lsState ls'))"
  proof (rule Cons.IH)
    show "days_ordered dates" using Cons.prems(1) by (cases dates) auto
    show "run_days e cancelled pool startDate dates ?ls = Some ls'" using Cons.prems(2) by (simp split: if_splits)
    show "tk_inv (d', bsTracker (lsState ?ls))" using tk.inv_run [OF es(2) Cons.prems(4)] .
    show "d' = truncate_day (hd dates)" if "dates \<noteq> []" using that by (simp add: d'_def)
  qed (rule es(1))
  with es(2) show ?case by (blast intro: run_append)
qed




section \<open>A concrete engine\<close>

definition sample_strategy_signal :: "Direction \<Rightarrow> StrategySignal" where
  "sample_strategy_signal dir = \<lparr>ssSymbol = ''600000.SH'', ssAction = [], ssStrength = Fin 1, ssPrice = Fin 0, ssDate = None,
     ssDirection = dir, ssOrderType = OrderTypeMarket, ssLimitPrice = Fin 0, ssExecAlgo = [], ssExecSlices = 0, ssExecProfile = []\<rparr>"

text \<open>Buys 100 shares on the first day, closes them on every later one.\<close>

definition sample_engine :: Engine where
  "sample_engine =
     \<lparr>enService = \<lparr>msStock = (\<lambda>s. Some \<lparr>stkName = ''Bank'', stkListDate = day_ns\<rparr>),
                    msOHLCV = (\<lambda>s start date. Some [sample_bar date 8])\<rparr>,
      enTrading = sample_config,
      enExec = Some (NewBacktestExecutionService (DefaultExecutionConfig\<lparr>ecSlippageModel := ''none'',
                 ecCommissionRate := Fin (1 / 1024)\<rparr>)),
      enListing = fmempty, enRisk = False,
      enSizes = (\<lambda>sigs pf dd. Some (fmap_of_list [(''600000.SH'', Fin 100)])),
      enSize = (\<lambda>sig pf dd p. None), enStops = (\<lambda>ps dd. []),
      enSignals = (\<lambda>u dd pf date. Some [sample_strategy_signal (if date = sample_day then DirectionLong else DirectionClose)]),
      enDividends = [], enSplits = [], enUuid = itoa, enOrder = (\<lambda>date S. sorted_list_of_fset S), enNow = 0\<rparr>"

definition sample_backtest :: BacktestState where
  "sample_backtest = newBacktestState ''bt'' (Fin 65536) (Fin (1 / 1024)) (Fin (1 / 128)) sample_config"

definition sample_loop :: LoopState where
  "sample_loop = \<lparr>lsState = sample_backtest, lsPrevClose = fmempty, lsMaxUniverse = 0\<rparr>"

lemma sample_engine_long_only: "long_only sample_engine"
proof -
  have w: "whole_size (Fin 100)" unfolding whole_size_def by (rule disjI2, rule exI [of _ 100]) simp
  show ?thesis
    by (auto simp: long_only_def sample_engine_def w sample_strategy_signal_def resolveDirection_def
        sorted_list_of_fset.rep_eq fset_of_list.rep_eq fset_inject [symmetric] split: if_splits)
qed

definition sample_after :: LoopState where
  "sample_after = run_day sample_engine [''600000.SH''] sample_day (sample_day + day_ns)
     (run_day sample_engine [''600000.SH''] sample_day sample_day sample_loop)"


end
