(* ===== verification/Tracker_Rules.thy ===== *)
theory Tracker_Rules
  imports Tracker
begin

text \<open>
  Further rules of the backtest tracker: the daily risk-warning buy cap over a day of trades, the
  agreement of the two valuations, the end of a day on a book without short positions, and concrete
  runs that show four defects of the code.
\<close>

section \<open>The risk-warning cap over a day\<close>

definition capped :: "string dict \<Rightarrow> symbol \<Rightarrow> bool" where
  "capped names s \<longleftrightarrow> (case fmlookup names s of None \<Rightarrow> False
     | Some name \<Rightarrow> name \<noteq> [] \<and> IsRiskWarningName name \<and> \<not> fle (RiskWarningDailyBuyCap s) (Fin 0))"

definition bought_on :: "gotime \<Rightarrow> symbol \<Rightarrow> Trade list \<Rightarrow> f64" where
  "bought_on d s trs = foldl fadd (Fin 0) (map trQuantity
     (filter (\<lambda>tr. trSymbol tr = s \<and> trDirection tr = DirectionLong \<and> truncate_day (trTimestamp tr) = d) trs))"

definition rw_count :: "Tracker \<Rightarrow> symbol \<Rightarrow> f64" where
  "rw_count t s = (case fmlookup (tkDailyRWBuy t) s of None \<Rightarrow> Fin 0 | Some q \<Rightarrow> q)"

definition rw_inv :: "gotime \<Rightarrow> Tracker \<Rightarrow> bool" where
  "rw_inv d t \<longleftrightarrow> (\<forall>s. capped (tkStockNames t) s \<longrightarrow>
     bought_on d s (tkTrades t) = (if tkDailyRWBuyDay t = d then rw_count t s else Fin 0) \<and>
     fle (Fin 0) (bought_on d s (tkTrades t)) \<and>
     fle (bought_on d s (tkTrades t)) (RiskWarningDailyBuyCap s))"

lemma bought_on_snoc:
  "bought_on d s (trs @ [tr]) =
     (if trSymbol tr = s \<and> trDirection tr = DirectionLong \<and> truncate_day (trTimestamp tr) = d
      then fadd (bought_on d s trs) (trQuantity tr) else bought_on d s trs)"
  by (simp add: bought_on_def)

lemma cap_not_NaN: "RiskWarningDailyBuyCap s \<noteq> NaN"
  by (auto simp: RiskWarningDailyBuyCap_def RiskWarningDailyBuyCapMainBoard_def RiskWarningDailyBuyCapBSE_def
      rnd_def split: Board.splits)

text \<open>The counter after the check on a day: reset when the day is new, kept otherwise.\<close>

lemma enforce_count:
  assumes "enforceRiskWarningDailyBuy symb q ts t = (r, t')" "truncate_day ts = d"
  shows "tkStockNames t' = tkStockNames t" "tkTrades t' = tkTrades t"
    and "capped (tkStockNames t) s \<Longrightarrow> \<not> fle q (Fin 0) \<Longrightarrow>
      (if tkDailyRWBuyDay t' = d then rw_count t' s else Fin 0) =
      (if s = symb \<and> r = None then fadd (if tkDailyRWBuyDay t = d then rw_count t s else Fin 0) q
       else (if tkDailyRWBuyDay t = d then rw_count t s else Fin 0))"
    and "capped (tkStockNames t) symb \<Longrightarrow> \<not> fle q (Fin 0) \<Longrightarrow> r = None \<Longrightarrow>
      \<not> flt (RiskWarningDailyBuyCap symb) (fadd (if tkDailyRWBuyDay t = d then rw_count t symb else Fin 0) q)"
  using assms
  by (auto simp: enforceRiskWarningDailyBuy_def Let_def rw_count_def capped_def split: if_splits option.splits)

lemma close_position_trade:
  assumes "close_position t symb q ep ts trade = (Inr tr, t')"
  shows "trDirection tr = trDirection trade \<and> tkStockNames t' = tkStockNames t \<and> tkTrades t' = tkTrades t \<and> tkDailyRWBuy t' = tkDailyRWBuy t \<and>
         tkDailyRWBuyDay t' = tkDailyRWBuyDay t"
  using assms
  by (auto simp: close_position_def close_long_def close_short_def Let_def
      split: option.splits if_splits sum.splits prod.splits)

lemma ApplyTrade_not_long:
  assumes "trDirection trade \<noteq> DirectionLong" "ApplyTrade trade t = (r, t')"
  shows "tkStockNames t' = tkStockNames t \<and> tkDailyRWBuy t' = tkDailyRWBuy t \<and>
     tkDailyRWBuyDay t' = tkDailyRWBuyDay t \<and>
     (tkTrades t' = tkTrades t \<or> (\<exists>tr. tkTrades t' = tkTrades t @ [tr] \<and> trDirection tr \<noteq> DirectionLong))"
proof (cases "fle (trQuantity trade) (Fin 0)")
  case True
  with assms(2) show ?thesis by (simp add: ApplyTrade_def)
next
  case False
  with assms show ?thesis
    by (cases "trDirection trade")
      (auto simp: ApplyTrade_def trade_step_def short_step_def Let_def
        dest!: close_position_trade close_position_Inl split: sum.splits prod.splits)
qed

lemma ApplyTrade_is_long:
  assumes "trDirection trade = DirectionLong" "ApplyTrade trade t = (r, t')" "\<not> fle (trQuantity trade) (Fin 0)"
  obtains (same) "t' = t"
    | (checked) r1 t1 where
      "enforceRiskWarningDailyBuy (trSymbol trade) (trQuantity trade) (trTimestamp trade) t = (r1, t1)"
      "tkStockNames t' = tkStockNames t1" "tkDailyRWBuy t' = tkDailyRWBuy t1"
      "tkDailyRWBuyDay t' = tkDailyRWBuyDay t1"
      "tkTrades t' = tkTrades t1 @ (if r1 = None then [trade] else [])"
proof -
  obtain r1 t1 where e: "enforceRiskWarningDailyBuy (trSymbol trade) (trQuantity trade) (trTimestamp trade) t = (r1, t1)"
    by fastforce
  show thesis
    using assms e same checked [OF e]
    by (cases r1) (auto simp: ApplyTrade_def trade_step_def buy_step_def Let_def split: if_splits)
qed

lemma rw_inv_long:
  assumes "rw_inv d t" "truncate_day (trTimestamp trade) = d" "fle (Fin 0) (trQuantity trade)"
    "\<not> fle (trQuantity trade) (Fin 0)" "trDirection trade = DirectionLong"
    and e: "enforceRiskWarningDailyBuy (trSymbol trade) (trQuantity trade) (trTimestamp trade) t = (r1, t1)"
      "tkStockNames t' = tkStockNames t1" "tkDailyRWBuy t' = tkDailyRWBuy t1"
      "tkDailyRWBuyDay t' = tkDailyRWBuyDay t1"
      "tkTrades t' = tkTrades t1 @ (if r1 = None then [trade] else [])"
  shows "rw_inv d t'"
  unfolding rw_inv_def
proof (intro allI impI)
  fix s assume "capped (tkStockNames t') s"
  then have c: "capped (tkStockNames t) s" using e enforce_count(1) [OF e(1) assms(2)] by simp
  note count = enforce_count(2) [OF e(1) assms(2)] enforce_count(3) [OF e(1) assms(2) c assms(4)]
    enforce_count(4) [OF e(1) assms(2) _ assms(4)]
  let ?old = "bought_on d s (tkTrades t)"
  from assms(1) c have old: "?old = (if tkDailyRWBuyDay t = d then rw_count t s else Fin 0)" "fle (Fin 0) ?old"
    "fle ?old (RiskWarningDailyBuyCap s)" by (auto simp: rw_inv_def)
  have rw: "rw_count t' s = rw_count t1 s" using e by (simp add: rw_count_def)
  let ?hit = "s = trSymbol trade \<and> r1 = None"
  have new: "bought_on d s (tkTrades t') = (if ?hit then fadd ?old (trQuantity trade) else ?old)"
    using e(5) count(1) assms(2,5) by (auto simp: bought_on_snoc)
  have "fle (bought_on d s (tkTrades t')) (RiskWarningDailyBuyCap s)"
  proof (cases ?hit)
    case True
    then have "\<not> flt (RiskWarningDailyBuyCap s) (fadd ?old (trQuantity trade))"
      unfolding old(1) using count(3) c by blast
    then show ?thesis
      using True new fadd_nonneg_not_NaN [OF old(2) assms(3)] by (simp add: not_flt_iff cap_not_NaN)
  next
    case False
    from new [unfolded if_not_P [OF False]] old(3) show ?thesis by (simp only:)
  qed
  then show "bought_on d s (tkTrades t') = (if tkDailyRWBuyDay t' = d then rw_count t' s else Fin 0) \<and>
     fle (Fin 0) (bought_on d s (tkTrades t')) \<and> fle (bought_on d s (tkTrades t')) (RiskWarningDailyBuyCap s)"
    using new count(2) old e(4) rw fadd_nonneg [OF old(2) assms(3)] by auto
qed

lemma ApplyTrade_rw:
  assumes "rw_inv d t" "truncate_day (trTimestamp trade) = d" "trQuantity trade \<noteq> NaN"
  shows "rw_inv d (snd (ApplyTrade trade t)) \<and> tkStockNames (snd (ApplyTrade trade t)) = tkStockNames t"
proof (cases "fle (trQuantity trade) (Fin 0)")
  case True
  with assms show ?thesis by (simp add: ApplyTrade_def)
next
  case q: False
  with assms(3) have q0: "fle (Fin 0) (trQuantity trade)"
    by (auto simp: fle_def)
  obtain r t' where r: "ApplyTrade trade t = (r, t')" by fastforce
  show ?thesis
  proof (cases "trDirection trade = DirectionLong")
    case False
    from ApplyTrade_not_long [OF this r] assms(1) r show ?thesis
      by (auto simp: rw_inv_def rw_count_def bought_on_snoc)
  next
    case long: True
    from long r q show ?thesis
    proof (cases rule: ApplyTrade_is_long)
      case same
      with assms(1) r show ?thesis by simp
    next
      case (checked r1 t1)
      with rw_inv_long [OF assms(1,2) q0 q long checked] enforce_count(1) [OF checked(1) assms(2)] r
      show ?thesis by simp
    qed
  qed
qed

definition apply_all :: "Trade list \<Rightarrow> Tracker \<Rightarrow> Tracker" where
  "apply_all trs t = fold (\<lambda>trade t. snd (ApplyTrade trade t)) trs t"

lemma apply_all_rw:
  assumes "rw_inv d t" "\<forall>tr \<in> set trs. truncate_day (trTimestamp tr) = d \<and> trQuantity tr \<noteq> NaN"
  shows "rw_inv d (apply_all trs t) \<and> tkStockNames (apply_all trs t) = tkStockNames t"
  using assms
proof (induction trs arbitrary: t)
  case Nil
  then show ?case by (simp add: apply_all_def)
next
  case (Cons trade trs)
  then have "rw_inv d (snd (ApplyTrade trade t)) \<and> tkStockNames (snd (ApplyTrade trade t)) = tkStockNames t"
    using ApplyTrade_rw by simp
  with Cons.IH [of "snd (ApplyTrade trade t)"] Cons.prems(2) show ?case by (simp add: apply_all_def)
qed


definition sample_rw_tracker :: Tracker where
  "sample_rw_tracker = SetStockNames (fmap_of_list [(''600000.SH'', ''ST Steel'')]) sample_tracker"

definition sample_rw_trade :: "int \<Rightarrow> Trade" where
  "sample_rw_trade n = (sample_trade DirectionLong n sample_day)\<lparr>trPrice := Fin (1 / 16)\<rparr>"

lemma sample_rw_setup:
  "capped (tkStockNames sample_rw_tracker) ''600000.SH''" "tkDailyRWBuyDay sample_rw_tracker \<noteq> sample_day"
  "tkTrades sample_rw_tracker = []" "truncate_day sample_day = sample_day"
  by code_simp+


section \<open>Valuation\<close>

lemma neg_bit_fneg: "a \<noteq> NaN \<Longrightarrow> neg_bit (fneg a) = (\<not> neg_bit a)"
  by (cases a) auto

lemma fneg_classes [simp]: "fneg a = NaN \<longleftrightarrow> a = NaN" "is_inf (fneg a) = is_inf a" "is_zero (fneg a) = is_zero a"
  "valof (fneg a) = - valof a"
  by (cases a; auto simp: is_inf_def is_zero_def is_fin_def)+

lemma fneg_f64_of: "fneg (f64_of s x) = f64_of (\<not> s) (- x)"
  using r64.odd [of x] by (auto simp: f64_of_def Let_def overflow_bound_def)

lemma fneg_fmul_fneg: "fneg (fmul (fneg a) b) = fmul a b"
proof (cases "a = NaN \<or> b = NaN \<or> is_inf a \<or> is_inf b")
  case True
  then show ?thesis by (auto simp: fmul_def Let_def neg_bit_fneg)
next
  case False
  then show ?thesis by (auto simp: fmul_def Let_def neg_bit_fneg fneg_f64_of)
qed

lemma add_signed_eq:
  assumes "\<not> is_zero (posQuantity pos)"
  shows "add_signed (mtm price pos) acc = fadd acc (fmul (posQuantity pos) price)"
proof (cases "flt (Fin 0) (posQuantity pos)")
  case True
  then have "go_abs (posQuantity pos) = posQuantity pos" by (auto simp: go_abs_def flt_def)
  with True show ?thesis by (simp add: add_signed_def mtm_def)
next
  case False
  have "go_abs (posQuantity pos) = fneg (posQuantity pos)"
    using False assms by (cases "posQuantity pos") (auto simp: go_abs_def flt_def is_zero_def is_fin_def)
  with False show ?thesis by (simp add: add_signed_def mtm_def fsub_def fneg_fmul_fneg)
qed

lemma sorted_keys_filter: "sorted_keys (fmmap_keys f (fmfilter P m)) = filter P (sorted_keys m)"
proof (rule sorted_distinct_set_unique)
  show "set (sorted_keys (fmmap_keys f (fmfilter P m))) = set (filter P (sorted_keys m))"
    by (auto simp: set_sorted_keys)
qed (simp_all add: sorted_sorted_keys distinct_sorted_keys sorted_wrt_filter)

lemma fold_filter_guard:
  "(\<And>x acc. x \<in> set xs \<Longrightarrow> g x acc = (if P x then f x acc else acc)) \<Longrightarrow> fold f (filter P xs) acc = fold g xs acc"
  by (induction xs arbitrary: acc) auto

text \<open>
  The two valuations of the tracker agree bit for bit: the total value of the snapshot that
  \<open>GetPortfolio\<close> hands to strategies is the value \<open>GetPortfolioValue\<close> returns, with long and short
  positions, missing prices, infinities and NaN included, as long as no position has quantity zero.
\<close>

lemma GetPortfolio_total:
  assumes "\<forall>s pos. fmlookup (tkPositions t) s = Some pos \<longrightarrow> \<not> is_zero (posQuantity pos)"
  shows "pfTotalValue (GetPortfolio now prices t) = fst (GetPortfolioValue prices t)"
  using assms
  by (auto simp: GetPortfolio_def GetPortfolioValue_def Let_def sorted_keys_filter gpv_add_def add_signed_eq
      intro!: fold_filter_guard split: option.splits)
lemma fmpred_all: "fmpred P m \<Longrightarrow> \<forall>s v. fmlookup m s = Some v \<longrightarrow> P s v"
  by (auto dest: fmpredD)

section \<open>End of a day\<close>

lemma accrue_long:
  assumes "\<forall>s pos. fmlookup m s = Some pos \<longrightarrow> fle (Fin 0) (posQuantity pos)"
  shows "fold (accrue m r) order cash = cash"
  using assms by (induction order) (auto simp: accrue_def split: option.split)

text \<open>
  On a book without short positions the end of a day charges no lending cost, leaves cash,
  trades and quantities alone, and does not depend on the order in which Go iterates the map.
\<close>

lemma AdvanceDay_long_book:
  assumes "\<forall>s pos. fmlookup (tkPositions t) s = Some pos \<longrightarrow> fle (Fin 0) (posQuantity pos)"
  shows "AdvanceDay order t = t\<lparr>tkPositions := fmmap rollover_position (tkPositions t)\<rparr> \<and>
         (\<forall>s. map_option posQuantity (fmlookup (tkPositions (AdvanceDay order t)) s)
            = map_option posQuantity (fmlookup (tkPositions t) s))"
proof -
  have q: "posQuantity (rollover_position pos) = posQuantity pos" for pos
    by (simp add: rollover_position_def)
  have "\<forall>s pos. fmlookup (fmmap rollover_position (tkPositions t)) s = Some pos \<longrightarrow> fle (Fin 0) (posQuantity pos)"
    using assms q by auto
  from accrue_long [OF this] show ?thesis
    by (cases t) (simp add: AdvanceDay_def Let_def q option.map_comp comp_def)
qed

section \<open>Concrete runs that show defects\<close>

text \<open>
  Buying back a short credits the purchase instead of paying it: shorting 100 shares at 8 and
  closing them at 8, without any cost, leaves 1600 more cash than at the start.
\<close>

definition free_tracker :: Tracker where
  "free_tracker = sample_tracker\<lparr>tkCommissionRate := Fin 0, tkSlippageRate := Fin 0,
     tkTrading := sample_config\<lparr>tcMinCommission := Fin 0, tcTransferFeeRate := Fin 0\<rparr>\<rparr>"

definition free_trade :: "Direction \<Rightarrow> Trade" where
  "free_trade dir = (sample_trade dir 100 sample_day)\<lparr>trCommission := Fin 0\<rparr>"

lemma short_round_trip_gains:
  "let t = snd (ApplyTrade (free_trade DirectionClose) (snd (ApplyTrade (free_trade DirectionShort) free_tracker)))
   in tkCash t = Fin (65536 + 1600) \<and> fmdom (tkPositions t) = {||}"
  by code_simp

text \<open>
  A stock dividend between two buys strands shares: 100 shares, a dividend of one share per share,
  then a buy of 100 the same day leave 300 shares of which only 200 are ever counted as sellable.
\<close>

lemma split_then_buy_strands_shares:
  "let t1 = AdvanceDay [''600000.SH''] (snd (ApplyTrade (sample_trade DirectionLong 100 sample_day) sample_tracker));
       t2 = ProcessSplit ''600000.SH'' \<lparr>StkDivRatio = Fin 1, CashDivRatio = Fin 0\<rparr> t1;
       t3 = snd (ApplyTrade (sample_trade DirectionLong 100 (sample_day + day_ns)) t2);
       t4 = AdvanceDay [''600000.SH''] t3
   in map_option (\<lambda>pos. (posQuantity pos, posQuantityToday pos, posQuantityYesterday pos))
        (fmlookup (tkPositions t4) ''600000.SH'') = Some (Fin 300, Fin 0, Fin 200)"
  by code_simp

text \<open>
  The lending cost of short positions is deducted in map order, so the cash after a day depends on
  that order.
\<close>

definition two_shorts :: Tracker where
  "two_shorts = (SetShortSellingRate (Fin 252) sample_tracker)\<lparr>tkCash := Fin 18014398509481984,
     tkPositions := fmap_of_list
       [(''A'', (zero_Position ''A'')\<lparr>posQuantity := Fin (- 1), posAvgCost := Fin 1\<rparr>),
        (''B'', (zero_Position ''B'')\<lparr>posQuantity := Fin (- 1), posAvgCost := Fin 2\<rparr>)]\<rparr>"

lemma lending_cost_order_matters:
  "tkCash (AdvanceDay [''A'', ''B''] two_shorts) = Fin 18014398509481982 \<and>
   tkCash (AdvanceDay [''B'', ''A''] two_shorts) = Fin 18014398509481980"
  by code_simp

text \<open>
  \<open>Reset\<close> keeps the risk-warning counter: a buy that a new tracker accepts is refused after a reset.
\<close>

lemma reset_keeps_risk_warning_counter:
  "(case fst (ApplyTrade (sample_rw_trade 400000) sample_rw_tracker) of Inr _ \<Rightarrow> True | Inl _ \<Rightarrow> False) \<and>
   (case fst (ApplyTrade (sample_rw_trade 400000)
        (Reset (Fin 65536) (snd (ApplyTrade (sample_rw_trade 400000) sample_rw_tracker)))) of
      Inr _ \<Rightarrow> False | Inl _ \<Rightarrow> True)"
  by code_simp

end
