(* ===== verification/Engine_Rules.thy ===== *)
theory Engine_Rules
  imports Engine_Run Tracker_Rules
begin

text \<open>
  Rules of the daily loop: a long signal brings a position to its target and no further, and an
  external close cancels the children that would rebuild it. Concrete runs at the end show defects of
  the code.
\<close>

section \<open>A long signal reaches its target\<close>

lemma rejected_same:
  "ApplyTrade trade t = (Inl err, t') \<Longrightarrow> tkPositions t' = tkPositions t \<and> tkTrades t' = tkTrades t"
  by (auto elim: ApplyTrade_Inl)

lemma heldQty_positions: "tkPositions (bsTracker st') = tkPositions (bsTracker st) \<Longrightarrow> heldQty st' s = heldQty st s"
  by (simp add: heldQty_def GetPosition_def)

lemma heldQty_tracker: "bsTracker st' = bsTracker st \<Longrightarrow> heldQty st' s = heldQty st s"
  by (simp add: heldQty_def)

lemma service_buy:
  assumes "executeViaExecutionService e sig (shares k) price date opts st = (r, st')" "tk_inv (truncate_day date, bsTracker st)"
    and "sgDirection sig = DirectionLong" "held (tk_led (truncate_day date, bsTracker st) (sgSymbol sig)) + k = n" "n \<le> 2 ^ 53"
  shows "case r of
      Inl _ \<Rightarrow> tkTrades (bsTracker st') = tkTrades (bsTracker st) \<and> heldQty st' (sgSymbol sig) = heldQty st (sgSymbol sig)
    | Inr tr \<Rightarrow> tkTrades (bsTracker st') = tkTrades (bsTracker st) @ [tr] \<and> trQuantity tr = shares k \<and>
        heldQty st' (sgSymbol sig) = shares n \<and> tk_inv (truncate_day date, bsTracker st')"
proof (cases r)
  case (Inl err)
  then show ?thesis using assms(1)
    by (auto simp: executeViaExecutionService_def Let_def dest: rejected_same intro!: heldQty_positions
        split: option.splits sum.splits prod.splits)
next
  case (Inr tr)
  let ?d = "truncate_day date" and ?t = "bsTracker st"
  from assms(1) Inr obtain tid svc trade where
    o: "ExecuteOrder tid svc (signal_order sig (shares k) date opts) (signal_quote (sgSymbol sig) price date (optDayBar opts)) = Inr trade"
    and a: "ApplyTrade trade ?t = (Inr tr, bsTracker st')"
    by (auto simp: executeViaExecutionService_def Let_def split: option.splits sum.splits prod.splits)
  have "eqDate (signal_quote (sgSymbol sig) price date (optDayBar opts)) = date" by (simp add: signal_quote_def split: option.split)
  with ExecuteOrder_trade [OF o] assms(3) have tr: "trSymbol trade = sgSymbol sig" "trDirection trade = DirectionLong"
    "trQuantity trade = shares k" "truncate_day (trTimestamp trade) = ?d" by (simp_all add: signal_order_def)
  have step: "tk_step (?d, ?t) (Buy (sgSymbol sig) k) (?d, bsTracker st')"
    using tk_step.apply_buy [OF tr(2-4) _ a] tr(1) assms(4,5) by simp
  note ok = tk_step_ok [OF step assms(2)]
  have "held (tk_led (?d, bsTracker st') (sgSymbol sig)) = n" using ok assms(4) by (simp add: held_def)
  then have "heldQty st' (sgSymbol sig) = shares n" using heldQty_shares(1) [of ?d st' "sgSymbol sig"] ok by simp
  with ApplyTrade_logged [OF a] tr ok Inr show ?thesis by simp
qed

lemma long_signal_process:
  assumes "enExec e = Some svc" "sgDirection sig = DirectionLong" "sgExecAlgo sig = []"
    and "tk_inv (d, bsTracker st)" "0 < n" "n \<le> 2 ^ 53"
  obtains (idle) "bsTracker (process_signal e dd date sig (Some (shares n)) st) = bsTracker st"
  | (ordered) r st1 st2 price opts where "bsTracker st1 = bsTracker st" "held (tk_led (d, bsTracker st) (sgSymbol sig)) < n"
      "executeViaExecutionService e sig (shares (n - held (tk_led (d, bsTracker st) (sgSymbol sig)))) price date opts st1 = (r, st2)"
      "bsTracker (process_signal e dd date sig (Some (shares n)) st) = bsTracker st2"
proof -
  let ?s = "sgSymbol sig" let ?h = "held (tk_led (d, bsTracker st) ?s)"
  let ?st = "record_target ?s (shares n) date st"
  have "tk_inv (d, bsTracker ?st)" using assms(4) by simp
  note eff = effective_long [OF this assms(5,6), of ?s, unfolded Let_def day_run_bs_fields]
  have nf: "\<not> fle (shares n) (Fin 0)" using assms(5) by (simp add: fle_fin)
  let ?st' = "?st\<lparr>bsAlgo := bsAlgo ?st\<rparr>" and ?p = "price_of (ddPrices dd) ?s"
  show thesis
  proof (cases "?h < n \<and> \<not> fle ?p (Fin 0) \<and> \<not> limit_blocked (day_bar dd ?s) DirectionLong")
    case True
    obtain r st2 where r: "executeViaExecutionService e sig (shares (n - ?h)) ?p date (signal_opts dd sig) ?st' = (r, st2)" by fastforce
    have "bsTracker (process_signal e dd date sig (Some (shares n)) st) = bsTracker st2"
      using True r nf by (auto simp: process_signal_def executeSignalTrade_def attachExecAlgoSignal_def direct_trade_def
          signal_order_trade_def assms(1-3) eff Let_def flt_fin split: sum.split)
    with True r show ?thesis by (intro ordered [of ?st' "?p" "signal_opts dd sig" r st2]) simp_all
  next
    case False
    then have "bsTracker (process_signal e dd date sig (Some (shares n)) st) = bsTracker st"
      using nf by (auto simp: process_signal_def executeSignalTrade_def assms(2) eff Let_def flt_fin)
    then show ?thesis by (rule idle)
  qed
qed



definition sample_signal :: "Direction \<Rightarrow> Signal" where
  "sample_signal dir = \<lparr>sgSymbol = ''600000.SH'', sgDate = sample_day, sgDirection = dir, sgStrength = Fin 1, sgLimitPrice = Fin 0,
     sgOrderType = OrderTypeMarket, sgExecAlgo = [], sgExecSlices = 0, sgExecProfile = []\<rparr>"

definition sample_data :: DayData where
  "sample_data = \<lparr>ddBars = fmap_of_list [(''600000.SH'', [sample_bar sample_day 8])],
     ddPrices = fmap_of_list [(''600000.SH'', Fin 8)], ddStocks = fmempty, ddPrevClose = fmempty\<rparr>"

definition sample_long :: BacktestState where
  "sample_long = process_signal sample_engine sample_data sample_day (sample_signal DirectionLong) (Some (Fin 100)) sample_backtest"

lemma sample_long_held: "heldQty sample_long ''600000.SH'' = Fin 100" "heldQty sample_backtest ''600000.SH'' = Fin 0"
  by code_simp+


section \<open>An external close cancels the children that would undo it\<close>

lemma CancelSymbol_lookup:
  "fmlookup (dpParents (snd (CancelSymbol s reason d))) pid =
     map_option (\<lambda>pr. if asSymbol (prSpec pr) = s \<and> cancellable pr then cancel_run reason pr else pr)
       (fmlookup (dpParents d) pid)"
proof -
  let ?f = "\<lambda>pid (out, d). case fmlookup (dpParents d) pid of
       None \<Rightarrow> (out, d)
     | Some pr \<Rightarrow>
         if asSymbol (prSpec pr) \<noteq> s \<or> \<not> cancellable pr then (out, d)
         else (out @ [progressOf pid (cancel_run reason pr)],
               d\<lparr>dpParents := fmupd pid (cancel_run reason pr) (dpParents d)\<rparr>)"
  let ?g = "\<lambda>pr. if asSymbol (prSpec pr) = s \<and> cancellable pr then cancel_run reason pr else pr"
  have "distinct ks \<Longrightarrow> fmlookup (dpParents (snd (fold ?f ks st))) pid =
      (if pid \<in> set ks then map_option ?g (fmlookup (dpParents (snd st)) pid) else fmlookup (dpParents (snd st)) pid)" for ks st
  proof (induction ks arbitrary: st)
    case (Cons k ks)
    have "fmlookup (dpParents (snd (?f k st))) pid =
        (if pid = k then map_option ?g (fmlookup (dpParents (snd st)) pid) else fmlookup (dpParents (snd st)) pid)"
      by (cases st) (auto split: option.splits)
    with Cons show ?case by auto
  qed simp
  from this [of "sorted_keys (dpParents d)" "([], d)"] show ?thesis
    by (cases "pid |\<in>| fmdom (dpParents d)") (simp_all add: CancelSymbol_def fmdom_notD)
qed

lemma no_active_not_cancellable:
  assumes "Len_d d = 0" "fmlookup (dpParents d) pid = Some pr"
  shows "\<not> cancellable pr"
proof -
  have "pid \<in> set (sorted_keys (dpParents d))" using assms(2) by (simp add: fmdomI)
  with assms have "prCancelled pr"
    by (auto simp: Len_d_def ActiveParents_def select_parents_def List.map_filter_def filter_empty_conv split: if_splits)
  then show ?thesis by (simp add: cancellable_def)
qed

lemma cancel_for_symbol:
  "dpParents (bsAlgo (cancelExecAlgoParentsForSymbol s reason st)) = dpParents (snd (CancelSymbol s reason (bsAlgo st)))"
proof (cases "Len_d (bsAlgo st) = 0")
  case True
  have "fmlookup (dpParents (snd (CancelSymbol s reason (bsAlgo st)))) pid = fmlookup (dpParents (bsAlgo st)) pid" for pid
    using no_active_not_cancellable [OF True, of pid]
    by (cases "fmlookup (dpParents (bsAlgo st)) pid") (auto simp: CancelSymbol_lookup)
  then show ?thesis using True by (auto simp: cancelExecAlgoParentsForSymbol_def intro: fmap_ext)
qed (simp add: cancelExecAlgoParentsForSymbol_def)

lemma cancelled_children:
  assumes "dp_run out d" "OnBar_d s bdate d' = ((due, errs), d'')" "dpParents d' = dpParents (snd (CancelSymbol s reason d))"
    and "(c, ot) \<in> set due"
  shows "\<exists>pr. fmlookup (dpParents d) (coParentID c) = Some pr \<and> \<not> cancellable pr"
proof -
  have ok: "run_ok pid pr" if "fmlookup (dpParents d') pid = Some pr" for pid pr
    using dp_run_ok [OF dp_run.cancel_symbol [OF assms(1), of s reason]] that by (simp add: dp_ok_def assms(3))
  have "c \<in> set (map fst due)" using assms(4) by force
  also have "map fst due = concat (map (\<lambda>pid. taken s bdate (the (fmlookup (dpParents d') pid))) (sorted_keys (dpParents d')))"
    using OnBar_outcome [OF assms(2) ok] by blast
  finally obtain pid pr' where pr': "fmlookup (dpParents d') pid = Some pr'" "c \<in> set (taken s bdate pr')"
    by (auto simp: fmlookup_dom_iff)
  have "coParentID c = pid" using taken_parent [OF ok [OF pr'(1)] pr'(2)] .
  from pr'(2) have "\<not> prCancelled pr'" "asSymbol (prSpec pr') = s" by (auto simp: taken_def split: if_splits)
  moreover from pr'(1) obtain pr where pr: "fmlookup (dpParents d) pid = Some pr"
    "pr' = (if asSymbol (prSpec pr) = s \<and> cancellable pr then cancel_run reason pr else pr)"
    unfolding assms(3) CancelSymbol_lookup by (cases "fmlookup (dpParents d) pid") simp_all
  ultimately have "\<not> cancellable pr" by (cases "asSymbol (prSpec pr) = s \<and> cancellable pr") (auto simp: cancel_run_def)
  with pr(1) \<open>coParentID c = pid\<close> show ?thesis by blast
qed

text \<open>
  C6: After a stop loss or take profit has closed a position, no order that was still being worked on
  rebuilds it: every child the dispatcher hands out for the symbol afterwards belongs to a parent that
  was already filled up to the tolerance, and the parents of other symbols are left alone.
\<close>

theorem stop_loss_cancels_children:
  assumes "dp_run out (bsAlgo st)" "sleType ev \<in> {''stop_loss'', ''take_profit''}" "sleSymbol ev = s"
    and "tracker_execute e s DirectionClose (sleQuantity ev) (slePrice ev) date None st = (Inr tr, st1)"
    and "OnBar_d s bdate (bsAlgo (stop_step e date ev st)) = ((due, errs), d)"
  shows "(\<forall>(c, ot) \<in> set due. \<exists>pr. fmlookup (dpParents (bsAlgo st)) (coParentID c) = Some pr \<and> \<not> cancellable pr) \<and>
         (\<forall>pid pr. fmlookup (dpParents (bsAlgo st)) pid = Some pr \<and> asSymbol (prSpec pr) \<noteq> s \<longrightarrow>
            fmlookup (dpParents (bsAlgo (stop_step e date ev st))) pid = Some pr)"
proof -
  have "bsAlgo st1 = bsAlgo st" using assms(4) by (auto simp: tracker_execute_def split: prod.splits)
  then obtain reason where p: "dpParents (bsAlgo (stop_step e date ev st)) = dpParents (snd (CancelSymbol s reason (bsAlgo st)))"
    using assms(2-4) by (auto simp: stop_step_def cancel_for_symbol)
  show ?thesis using cancelled_children [OF assms(1,5) p] by (auto simp: p CancelSymbol_lookup)
qed


definition sample_stop :: StopLossEvent where
  "sample_stop = \<lparr>sleSymbol = ''600000.SH'', sleType = ''stop_loss'', slePrice = Fin 8, sleQuantity = Fin 100\<rparr>"

definition sample_working :: BacktestState where
  "sample_working = sample_backtest\<lparr>bsTracker := sample_settled,
     bsAlgo := snd (Attach (sample_spec\<lparr>asSymbol := ''600000.SH''\<rparr>) NewDispatcher)\<rparr>"

lemma sample_stop_sold:
  "case fst (tracker_execute sample_engine ''600000.SH'' DirectionClose (Fin 100) (Fin 8) (sample_day + day_ns) None sample_working) of
     Inr _ \<Rightarrow> True | Inl _ \<Rightarrow> False"
  by code_simp

lemma sample_working_parents:
  "fmpred (\<lambda>pid pr. cancellable pr) (dpParents (bsAlgo sample_working))" "fmdom (dpParents (bsAlgo sample_working)) = {|''P''|}"
  by code_simp+

theorem stop_loss_cancels_children_witness:
  "fst (fst (OnBar_d ''600000.SH'' (sample_day + 2 * day_ns) (bsAlgo (stop_step sample_engine (sample_day + day_ns) sample_stop sample_working)))) = []"
proof -
  let ?d = "bsAlgo (stop_step sample_engine (sample_day + day_ns) sample_stop sample_working)"
  obtain due errs d where bar: "OnBar_d ''600000.SH'' (sample_day + 2 * day_ns) ?d = ((due, errs), d)" by (metis surj_pair)
  have run: "dp_run [] (bsAlgo sample_working)"
    unfolding sample_working_def using dp_run.attach [OF dp_run.new] by simp
  from sample_stop_sold obtain tr st1 where
    sold: "tracker_execute sample_engine ''600000.SH'' DirectionClose (Fin 100) (Fin 8) (sample_day + day_ns) None sample_working = (Inr tr, st1)"
    by (cases "tracker_execute sample_engine ''600000.SH'' DirectionClose (Fin 100) (Fin 8) (sample_day + day_ns) None sample_working")
      (auto split: sum.splits)
  have "\<forall>(c, ot) \<in> set due. \<exists>pr. fmlookup (dpParents (bsAlgo sample_working)) (coParentID c) = Some pr \<and> \<not> cancellable pr"
    using stop_loss_cancels_children [OF run, of sample_stop "''600000.SH''" sample_engine "sample_day + day_ns" tr st1 "sample_day + 2 * day_ns" due errs d]
      sold bar by (simp add: sample_stop_def)
  then have "due = []" using fmpred_all [OF sample_working_parents(1)] by (cases due) fastforce+
  with bar show ?thesis by simp
qed


section \<open>Concrete runs that show defects\<close>

text \<open>
  A short signal is sized against a holding of zero, because short positions count as nothing held:
  repeating the signal for 100 shares doubles the short position.
\<close>

definition sample_short :: "BacktestState \<Rightarrow> BacktestState" where
  "sample_short = process_signal sample_engine sample_data sample_day (sample_signal DirectionShort) (Some (Fin 100))"

lemma repeated_short_doubles:
  "map_option posQuantity (fmlookup (tkPositions (bsTracker (sample_short (sample_short sample_backtest)))) ''600000.SH'')
     = Some (Fin (- 200))"
  by code_simp

text \<open>
  Through the execution service a close signal sells the size the risk manager gives it, not the
  position: with a size of 40, a close of 100 settled shares leaves 60 and still forgets the target.
\<close>

definition sample_settled_state :: BacktestState where
  "sample_settled_state = sample_backtest\<lparr>bsTracker := sample_settled,
     bsTargets := fmap_of_list [(''600000.SH'', \<lparr>tpSymbol = ''600000.SH'', tpTargetQty = Fin 100, tpActualQty = Fin 100,
                                              tpPendingQty = Fin 0, tpLastUpdated = sample_day\<rparr>)]\<rparr>"

definition sample_partial_close :: BacktestState where
  "sample_partial_close = process_signal sample_engine sample_data (sample_day + day_ns) (sample_signal DirectionClose)
     (Some (Fin 40)) sample_settled_state"

lemma service_close_is_partial:
  "map_option posQuantity (fmlookup (tkPositions (bsTracker sample_partial_close)) ''600000.SH'') = Some (Fin 60)"
  "fmlookup (bsTargets sample_partial_close) ''600000.SH'' = None"
  by code_simp+

text \<open>A short sale at the lower limit is let through, a purchase at the upper limit is not.\<close>

lemma limit_down_short_allowed:
  "\<not> limit_blocked (Some ((sample_bar sample_day 8)\<lparr>dbLimitDown := True\<rparr>)) DirectionShort"
  "limit_blocked (Some ((sample_bar sample_day 8)\<lparr>dbLimitUp := True\<rparr>)) DirectionLong"
  by (simp_all add: limit_blocked_def sample_bar_def)

text \<open>The final close runs after the day has been settled, so it sells on the last day what was bought on it.\<close>

lemma final_close_same_day:
  "map (\<lambda>tr. (trDirection tr, trTimestamp tr)) (tkTrades (bsTracker
      (forceCloseAllPositions sample_engine fmempty sample_day (sample_backtest\<lparr>bsTracker := sample_settled\<rparr>))))
     = [(DirectionLong, sample_day), (DirectionClose, sample_day)]"
  by code_simp

text \<open>The last valuation of a run has no prices: whatever could not be closed counts as nothing.\<close>

lemma final_value_is_cash:
  "pvTotalValue (fst (RecordDailyValue date fmempty t)) = fadd (tkCash t) (Fin 0)"
proof -
  have "fold (rdv_add (tkPositions t) fmempty) xs acc = acc" for xs acc
    by (induction xs) (simp_all add: rdv_add_def split: option.split)
  then show ?thesis by (simp add: RecordDailyValue_def Let_def)
qed

text \<open>A held stock that the listing calendar does not know leaves the universe.\<close>

lemma unknown_holding_leaves_universe:
  "eligibleUniverse (sample_engine\<lparr>enListing := fmap_of_list [(''B'', \<lparr>lwList = 0, lwDelist = None\<rparr>)]\<rparr>) [''A'', ''B''] sample_day
     (\<lambda>s. s = ''A'') = [''B'']"
  by (simp add: eligibleUniverse_def sample_engine_def IsListed_def is_zero_time_def)

end
