(* ===== verification/Mock_Trader.thy ===== *)
theory Mock_Trader
  imports Execution Ledger
begin

text \<open>
  The in-memory paper trader (\<open>src/pkg/live/mock_trader.go\<close>, its types in \<open>src/pkg/live/trader.go\<close>,
  \<open>src/pkg/live/order_store.go\<close> and \<open>src/pkg/marketdata/quote.go\<close>). Each method runs under the
  trader's mutex and is one step. The price and bar providers are functions of the configuration.
  The order store is an interface to a database: the model keeps the records handed to its \<open>Save\<close>,
  whose errors the code only logs. Order identifiers are arguments; wall-clock stamps, which are
  written and never read, and logging are left out.
\<close>

section \<open>State\<close>

record PositionInfo =
  piSymbol :: symbol
  piQuantity :: f64
  piAvailableQty :: f64
  piAvgCost :: f64
  piCurrentPrice :: f64
  piMarketValue :: f64
  piUnrealizedPnL :: f64
  piQuantityToday :: f64
  piQuantityYesterday :: f64

record OrderResult =
  orOrderID :: string
  orSymbol :: symbol
  orDirection :: Direction
  orOrderType :: OrderType
  orQuantity :: f64
  orFilledQty :: f64
  orPrice :: f64
  orStatus :: string
  orMessage :: string
  orFillPrice :: f64
  orFee :: f64

record OrderRecord =
  rcOrderID :: string
  rcSymbol :: symbol
  rcDirection :: Direction
  rcOrderType :: OrderType
  rcQuantity :: f64
  rcFilledQty :: f64
  rcPrice :: f64
  rcAvgFillPrice :: f64
  rcStatus :: string
  rcMessage :: string

record Quote =
  qtHigh :: f64
  qtLow :: f64
  qtClose :: f64
  qtVolume :: "64 word"

record MockTraderConfig =
  mcInitialCash :: f64
  mcCommissionRate :: f64
  mcStampTaxRate :: f64
  mcSlippageRate :: f64
  mcTransferFeeRate :: f64
  mcMinCommission :: f64
  mcPriceProvider :: "(symbol \<Rightarrow> f64) option"
  mcOrderStore :: bool
  mcSlippageModel :: string
  mcImpactSigma :: f64
  mcImpactLiquidityFactor :: f64

record MockTrader =
  mtConfig :: MockTraderConfig
  mtPositions :: "PositionInfo dict"
  mtOrders :: "OrderResult dict"
  mtCash :: f64
  mtBarProvider :: "(symbol \<Rightarrow> Quote option) option"
  mtSaved :: "OrderRecord list"

datatype mock_error =
    QuantityNotPositive f64
  | SymbolRequired
  | InvalidPrice f64
  | UnsupportedDirection Direction
  | NotEnoughCash f64 f64
  | NoPositionToClose symbol
  | NoSellableShares symbol f64
  | OrderNotFound string
  | CannotCancel string

section \<open>Operations\<close>

definition or_default :: "f64 \<Rightarrow> f64 \<Rightarrow> f64" where
  "or_default x d = (if fle x (Fin 0) then d else x)"

definition NewMockTrader :: "MockTraderConfig \<Rightarrow> MockTrader" where
  "NewMockTrader config =
     (let defaults = DefaultAShareFees;
          config = config\<lparr>
            mcInitialCash := or_default (mcInitialCash config) (rnd 1000000),
            mcCommissionRate := or_default (mcCommissionRate config) (CommissionRate defaults),
            mcStampTaxRate := or_default (mcStampTaxRate config) (StampTaxRate defaults),
            mcSlippageRate := or_default (mcSlippageRate config) (SlippageRate defaults),
            mcTransferFeeRate := or_default (mcTransferFeeRate config) (TransferFeeRate defaults),
            mcMinCommission := or_default (mcMinCommission config) (MinCommission defaults)\<rparr>
      in \<lparr>mtConfig = config, mtPositions = fmempty, mtOrders = fmempty, mtCash = mcInitialCash config,
          mtBarProvider = None, mtSaved = []\<rparr>)"

definition mt_feeSchedule :: "MockTrader \<Rightarrow> AShareFees" where
  "mt_feeSchedule m =
     \<lparr>CommissionRate = mcCommissionRate (mtConfig m), StampTaxRate = mcStampTaxRate (mtConfig m),
      TransferFeeRate = mcTransferFeeRate (mtConfig m), MinCommission = mcMinCommission (mtConfig m),
      SlippageRate = mcSlippageRate (mtConfig m)\<rparr>"

definition SetCurrentBarProvider :: "(symbol \<Rightarrow> Quote option) option \<Rightarrow> MockTrader \<Rightarrow> MockTrader" where
  "SetCurrentBarProvider f m = m\<lparr>mtBarProvider := f\<rparr>"

definition currentBar :: "MockTrader \<Rightarrow> symbol \<Rightarrow> Quote option" where
  "currentBar m symb = (case mtBarProvider m of None \<Rightarrow> None | Some f \<Rightarrow> f symb)"

definition applyExecutionCost :: "MockTrader \<Rightarrow> symbol \<Rightarrow> Direction \<Rightarrow> f64 \<Rightarrow> f64 \<Rightarrow> f64" where
  "applyExecutionCost m symb direction quantity execPrice =
     (let c = mtConfig m
      in if mcSlippageModel c = []
         then let slippage = fmul execPrice (mcSlippageRate c)
              in if direction = DirectionLong then fadd execPrice slippage else fsub execPrice slippage
         else let (high, low, adv) =
                    (case currentBar m symb of
                       None \<Rightarrow> (Fin 0, Fin 0, Fin 0)
                     | Some q \<Rightarrow> (qtHigh q, qtLow q, fint (sint (qtVolume q))));
                  (high, low) = (if feq high (Fin 0) \<and> feq low (Fin 0) then (execPrice, execPrice) else (high, low));
                  cfg = \<lparr>ecOrderType = OrderTypeOther [], ecSlippageModel = mcSlippageModel c,
                         ecCommissionRate = mcCommissionRate c, ecMinCommission = mcMinCommission c,
                         ecInitialCapital = Fin 0, ecImpactSigma = mcImpactSigma c,
                         ecImpactLiquidityFactor = mcImpactLiquidityFactor c\<rparr>
              in SlippagePrice cfg execPrice direction quantity adv high low)"

definition persistOrder :: "OrderResult \<Rightarrow> f64 \<Rightarrow> string \<Rightarrow> string \<Rightarrow> MockTrader \<Rightarrow> MockTrader" where
  "persistOrder result fillPrice status message m =
     (if \<not> mcOrderStore (mtConfig m) then m
      else m\<lparr>mtSaved := mtSaved m @
        [\<lparr>rcOrderID = orOrderID result, rcSymbol = orSymbol result, rcDirection = orDirection result,
          rcOrderType = orOrderType result, rcQuantity = orQuantity result, rcFilledQty = orFilledQty result,
          rcPrice = orPrice result, rcAvgFillPrice = fillPrice, rcStatus = status, rcMessage = message\<rparr>]\<rparr>)"

definition bought_position :: "PositionInfo option \<Rightarrow> symbol \<Rightarrow> f64 \<Rightarrow> f64 \<Rightarrow> PositionInfo" where
  "bought_position old symb quantity fillPrice =
     (case old of
        Some pos \<Rightarrow>
          (let totalQty = fadd (piQuantity pos) quantity
           in pos\<lparr>piAvgCost := fdiv (fadd (fmul (piAvgCost pos) (piQuantity pos)) (fmul fillPrice quantity)) totalQty,
                  piQuantity := totalQty,
                  piQuantityToday := fadd (piQuantityToday pos) quantity,
                  piMarketValue := fmul totalQty fillPrice\<rparr>)
      | None \<Rightarrow>
          \<lparr>piSymbol = symb, piQuantity = quantity, piAvailableQty = Fin 0, piAvgCost = fillPrice,
           piCurrentPrice = fillPrice, piMarketValue = fmul quantity fillPrice, piUnrealizedPnL = Fin 0,
           piQuantityToday = quantity, piQuantityYesterday = Fin 0\<rparr>)"

definition filled_result :: "string \<Rightarrow> symbol \<Rightarrow> Direction \<Rightarrow> OrderType \<Rightarrow> f64 \<Rightarrow> f64 \<Rightarrow> string \<Rightarrow> f64 \<Rightarrow> f64 \<Rightarrow> OrderResult" where
  "filled_result oid symb direction orderType quantity price message fillPrice fee =
     \<lparr>orOrderID = oid, orSymbol = symb, orDirection = direction, orOrderType = orderType,
      orQuantity = quantity, orFilledQty = quantity, orPrice = price, orStatus = ''filled'',
      orMessage = message, orFillPrice = fillPrice, orFee = fee\<rparr>"

definition store_filled :: "OrderResult \<Rightarrow> f64 \<Rightarrow> string \<Rightarrow> MockTrader \<Rightarrow> MockTrader" where
  "store_filled result fillPrice message m =
     persistOrder result fillPrice ''filled'' message
       (m\<lparr>mtOrders := fmupd (orOrderID result) result (mtOrders m)\<rparr>)"

definition executeBuy ::
    "string \<Rightarrow> symbol \<Rightarrow> OrderType \<Rightarrow> f64 \<Rightarrow> f64 \<Rightarrow> MockTrader \<Rightarrow> (mock_error + OrderResult) \<times> MockTrader" where
  "executeBuy oid symb orderType quantity execPrice m =
     (let fillPrice = applyExecutionCost m symb DirectionLong quantity execPrice;
          tradeValue = fmul quantity fillPrice;
          fb = ComputeFees tradeValue False (mt_feeSchedule m);
          totalCost = fadd tradeValue (Total fb)
      in if flt (mtCash m) totalCost then (Inl (NotEnoughCash totalCost (mtCash m)), m)
         else let result = filled_result oid symb DirectionLong orderType quantity execPrice [] fillPrice (Total fb)
              in (Inr result,
                  store_filled result execPrice []
                    (m\<lparr>mtCash := fsub (mtCash m) totalCost,
                       mtPositions := fmupd symb
                         (bought_position (fmlookup (mtPositions m) symb) symb quantity fillPrice) (mtPositions m)\<rparr>)))"

definition executeSell ::
    "string \<Rightarrow> symbol \<Rightarrow> OrderType \<Rightarrow> f64 \<Rightarrow> f64 \<Rightarrow> MockTrader \<Rightarrow> (mock_error + OrderResult) \<times> MockTrader" where
  "executeSell oid symb orderType quantity execPrice m =
     (case fmlookup (mtPositions m) symb of
        None \<Rightarrow> (Inl (NoPositionToClose symb), m)
      | Some pos \<Rightarrow>
          (if fle (piQuantity pos) (Fin 0) then (Inl (NoPositionToClose symb), m)
           else if fle (piQuantityYesterday pos) (Fin 0)
           then (Inl (NoSellableShares symb (piQuantityToday pos)), m)
           else let quantity = (if flt (piQuantityYesterday pos) quantity then piQuantityYesterday pos else quantity);
                    fillPrice = applyExecutionCost m symb DirectionClose quantity execPrice;
                    tradeValue = fmul quantity fillPrice;
                    fb = ComputeFees tradeValue True (mt_feeSchedule m);
                    netProceeds = fsub tradeValue (Total fb);
                    q = fsub (piQuantity pos) quantity;
                    pos' = pos\<lparr>piQuantityYesterday := fsub (piQuantityYesterday pos) quantity,
                               piQuantity := q, piMarketValue := fmul q fillPrice\<rparr>;
                    result = filled_result oid symb DirectionClose orderType quantity execPrice [] fillPrice (Total fb)
                in (Inr result,
                    store_filled result execPrice []
                      (m\<lparr>mtCash := fadd (mtCash m) netProceeds,
                         mtPositions := (if fle q (Fin 0) then fmdrop symb (mtPositions m)
                                         else fmupd symb pos' (mtPositions m))\<rparr>))))"

definition mt_SubmitOrder ::
    "string \<Rightarrow> symbol \<Rightarrow> Direction \<Rightarrow> OrderType \<Rightarrow> f64 \<Rightarrow> f64 \<Rightarrow> MockTrader \<Rightarrow> (mock_error + OrderResult) \<times> MockTrader" where
  "mt_SubmitOrder oid symb direction orderType quantity price m =
     (if fle quantity (Fin 0) then (Inl (QuantityNotPositive quantity), m)
      else if symb = [] then (Inl SymbolRequired, m)
      else let fallback = (case mcPriceProvider (mtConfig m) of None \<Rightarrow> price | Some f \<Rightarrow> f symb);
               execPrice =
                 (if orderType = OrderTypeMarket
                  then (case currentBar m symb of
                          None \<Rightarrow> fallback
                        | Some q \<Rightarrow> if flt (Fin 0) (qtClose q) then qtClose q else fallback)
                  else price)
           in if fle execPrice (Fin 0) then (Inl (InvalidPrice execPrice), m)
              else case direction of
                  DirectionLong \<Rightarrow> executeBuy oid symb orderType quantity execPrice m
                | DirectionClose \<Rightarrow> executeSell oid symb orderType quantity execPrice m
                | _ \<Rightarrow> (Inl (UnsupportedDirection direction), m))"

definition IsActive :: "OrderResult \<Rightarrow> bool" where
  "IsActive r \<longleftrightarrow> orStatus r = ''pending'' \<or> orStatus r = ''partial''"

definition mt_CancelOrder :: "string \<Rightarrow> MockTrader \<Rightarrow> mock_error option \<times> MockTrader" where
  "mt_CancelOrder orderID m =
     (case fmlookup (mtOrders m) orderID of
        None \<Rightarrow> (Some (OrderNotFound orderID), m)
      | Some order \<Rightarrow>
          (if \<not> IsActive order then (Some (CannotCancel (orStatus order)), m)
           else let order = order\<lparr>orStatus := ''cancelled''\<rparr>
                in (None, persistOrder order (orPrice order) ''cancelled'' ''user-requested cancellation''
                            (m\<lparr>mtOrders := fmupd orderID order (mtOrders m)\<rparr>))))"

definition mt_snapshot :: "MockTrader \<Rightarrow> PositionInfo \<Rightarrow> PositionInfo" where
  "mt_snapshot m pos =
     (case mcPriceProvider (mtConfig m) of None \<Rightarrow> pos | Some f \<Rightarrow> pos\<lparr>piCurrentPrice := f (piSymbol pos)\<rparr>)"

definition mt_GetPositions :: "symbol list \<Rightarrow> MockTrader \<Rightarrow> PositionInfo list" where
  "mt_GetPositions order m =
     map (\<lambda>pos. let cp = mt_snapshot m pos
                in if mcPriceProvider (mtConfig m) = None then cp
                   else cp\<lparr>piMarketValue := fmul (piQuantity cp) (piCurrentPrice cp),
                           piUnrealizedPnL := fmul (fsub (piCurrentPrice cp) (piAvgCost cp)) (piQuantity cp)\<rparr>)
       (List.map_filter (fmlookup (mtPositions m)) order)"

text \<open>The account: total assets, cash, market value and unrealized profit, in the order of the map.\<close>

definition mt_GetAccount :: "symbol list \<Rightarrow> MockTrader \<Rightarrow> f64 \<times> f64 \<times> f64 \<times> f64" where
  "mt_GetAccount order m =
     (let cps = map (mt_snapshot m) (List.map_filter (fmlookup (mtPositions m)) order);
          marketValue = foldl (\<lambda>acc cp. fadd acc (fmul (piQuantity cp) (piCurrentPrice cp))) (Fin 0) cps;
          unrealizedPnL = foldl (\<lambda>acc cp. fadd acc (fmul (fsub (piCurrentPrice cp) (piAvgCost cp)) (piQuantity cp)))
                            (Fin 0) cps
      in (fadd (mtCash m) marketValue, mtCash m, marketValue, unrealizedPnL))"

definition mt_rollover :: "PositionInfo \<Rightarrow> PositionInfo" where
  "mt_rollover pos =
     (if flt (Fin 0) (piQuantityToday pos)
      then let y = fadd (piQuantityYesterday pos) (piQuantityToday pos)
           in pos\<lparr>piQuantityYesterday := y, piAvailableQty := y, piQuantityToday := Fin 0\<rparr>
      else pos)"

definition mt_AdvanceDay :: "MockTrader \<Rightarrow> MockTrader" where
  "mt_AdvanceDay m = m\<lparr>mtPositions := fmmap mt_rollover (mtPositions m)\<rparr>"

definition mt_Reset :: "MockTrader \<Rightarrow> MockTrader" where
  "mt_Reset m = m\<lparr>mtCash := mcInitialCash (mtConfig m), mtPositions := fmempty, mtOrders := fmempty\<rparr>"

section \<open>Emergency flatten\<close>

record EmergencyFlattenOrder =
  efSymbol :: symbol
  efOrderID :: string
  efQuantity :: f64
  efFillPrice :: f64
  efNetProceeds :: f64
  efBypassedT1 :: bool

record EmergencyFlattenResult =
  efSold :: "EmergencyFlattenOrder list"
  efSkipped :: "(symbol \<times> f64 \<times> string) list"
  efSoldTotal :: f64
  efReason :: string

definition flatten_price :: "MockTrader \<Rightarrow> symbol \<Rightarrow> PositionInfo \<Rightarrow> f64" where
  "flatten_price m symb pos =
     (case mcPriceProvider (mtConfig m) of
        None \<Rightarrow> piCurrentPrice pos
      | Some f \<Rightarrow> if flt (Fin 0) (f symb) then f symb else piCurrentPrice pos)"

text \<open>\<open>oid\<close> gives the identifier generated for the order of a symbol.\<close>

definition flattenPosition ::
    "(symbol \<Rightarrow> string) \<Rightarrow> string \<Rightarrow> symbol \<Rightarrow> EmergencyFlattenResult \<times> MockTrader \<Rightarrow> EmergencyFlattenResult \<times> MockTrader" where
  "flattenPosition oid reason symb st =
     (let (result, m) = st
      in case fmlookup (mtPositions m) symb of
          None \<Rightarrow> st
        | Some pos \<Rightarrow>
            (if fle (piQuantity pos) (Fin 0) then st
             else let execPrice = flatten_price m symb pos
                  in if fle execPrice (Fin 0)
                     then (result\<lparr>efSkipped := efSkipped result @
                             [(symb, piQuantity pos, ''no execution price available (feed down)'')]\<rparr>, m)
                     else let bypassT1 = (fle (piQuantityYesterday pos) (Fin 0) \<and> flt (Fin 0) (piQuantityToday pos));
                              qty = piQuantity pos;
                              fillPrice = applyExecutionCost m symb DirectionClose qty execPrice;
                              tradeValue = fmul qty fillPrice;
                              fb = ComputeFees tradeValue True (mt_feeSchedule m);
                              netProceeds = fsub tradeValue (Total fb);
                              persistMsg = ''EMERGENCY FLATTEN: '' @ reason @
                                (if bypassT1 then '' (T+1 bypassed)'' else []);
                              order = filled_result (oid symb) symb DirectionClose OrderTypeMarket qty execPrice
                                        persistMsg fillPrice (Total fb)
                          in (result\<lparr>efSold := efSold result @
                                [\<lparr>efSymbol = symb, efOrderID = oid symb, efQuantity = qty, efFillPrice = fillPrice,
                                  efNetProceeds = netProceeds, efBypassedT1 = bypassT1\<rparr>],
                              efSoldTotal := fadd (efSoldTotal result) netProceeds\<rparr>,
                              store_filled order fillPrice persistMsg
                                (m\<lparr>mtCash := fadd (mtCash m) netProceeds,
                                   mtPositions := fmdrop symb (mtPositions m)\<rparr>))))"

definition EmergencyFlatten ::
    "(symbol \<Rightarrow> string) \<Rightarrow> symbol list \<Rightarrow> string \<Rightarrow> MockTrader \<Rightarrow> EmergencyFlattenResult \<times> MockTrader" where
  "EmergencyFlatten oid symbols reason m =
     (let reason = (if reason = [] then ''operator-initiated kill switch'' else reason)
      in fold (flattenPosition oid reason) symbols
           (\<lparr>efSold = [], efSkipped = [], efSoldTotal = Fin 0, efReason = reason\<rparr>, m))"

section \<open>The mock trader as a T+1 ledger\<close>

definition pi_ok :: "PositionInfo \<Rightarrow> entry \<Rightarrow> bool" where
  "pi_ok pos e \<longleftrightarrow>
     piQuantityToday pos = shares (fst e) \<and> piQuantityYesterday pos = shares (snd e) \<and>
     piQuantity pos = shares (held e) \<and> 0 \<le> fst e \<and> 0 \<le> snd e \<and> 0 < held e \<and> held e \<le> 2 ^ 53"

definition pi_entry :: "PositionInfo option \<Rightarrow> entry" where
  "pi_entry p = (case p of None \<Rightarrow> (0, 0)
     | Some pos \<Rightarrow> (\<lfloor>valof (piQuantityToday pos)\<rfloor>, \<lfloor>valof (piQuantityYesterday pos)\<rfloor>))"

definition opi_ok :: "PositionInfo option \<Rightarrow> bool" where
  "opi_ok p \<longleftrightarrow> (case p of None \<Rightarrow> True | Some pos \<Rightarrow> pi_ok pos (pi_entry p))"

lemma opi_ok_simps [simp]: "opi_ok None" "opi_ok (Some pos) = pi_ok pos (pi_entry (Some pos))"
  by (simp_all add: opi_ok_def)

lemma pi_ok_entry: "pi_ok pos e \<Longrightarrow> pi_entry (Some pos) = e"
  by (cases e) (simp add: pi_ok_def pi_entry_def)

definition mk_inv :: "MockTrader \<Rightarrow> bool" where
  "mk_inv m \<longleftrightarrow> (\<forall>s. opi_ok (fmlookup (mtPositions m) s))"

definition mk_led :: "MockTrader \<Rightarrow> symbol \<Rightarrow> entry" where
  "mk_led m s = pi_entry (fmlookup (mtPositions m) s)"

inductive mk_step :: "MockTrader \<Rightarrow> t1_event \<Rightarrow> MockTrader \<Rightarrow> bool" where
  buy: "held (mk_led m symb) + n \<le> 2 ^ 53 \<Longrightarrow>
    mt_SubmitOrder oid symb DirectionLong ty (shares n) p m = (Inr r, m') \<Longrightarrow> mk_step m (Buy symb n) m'"
| sell: "mt_SubmitOrder oid symb DirectionClose ty (shares k) p m = (Inr r, m') \<Longrightarrow>
    orFilledQty r = shares n \<Longrightarrow> mk_step m (Sell symb n) m'"
| rejected: "mt_SubmitOrder oid symb dir ty q p m = (Inl e, m') \<Longrightarrow> mk_step m Quiet m'"
| cancel: "mk_step m Quiet (snd (mt_CancelOrder oid m))"
| bars: "mk_step m Quiet (SetCurrentBarProvider f m)"
| advance: "mk_step m Roll (mt_AdvanceDay m)"

lemma persist_frame [simp]:
  "mtPositions (persistOrder r p s msg m) = mtPositions m" "mtCash (persistOrder r p s msg m) = mtCash m"
  "mtOrders (persistOrder r p s msg m) = mtOrders m" "mtConfig (persistOrder r p s msg m) = mtConfig m"
  by (simp_all add: persistOrder_def)

lemma store_frame [simp]:
  "mtPositions (store_filled r p msg m) = mtPositions m" "mtCash (store_filled r p msg m) = mtCash m"
  "mtOrders (store_filled r p msg m) = fmupd (orOrderID r) r (mtOrders m)"
  "mtConfig (store_filled r p msg m) = mtConfig m"
  by (simp_all add: store_filled_def)

lemma SubmitOrder_buy:
  assumes "mt_SubmitOrder oid symb DirectionLong ty q p m = (Inr r, m')"
  obtains ep where "executeBuy oid symb ty q ep m = (Inr r, m')" "\<not> fle q (Fin 0)" "\<not> fle ep (Fin 0)"
  using assms by (auto simp: mt_SubmitOrder_def Let_def split: if_splits)

lemma SubmitOrder_sell:
  assumes "mt_SubmitOrder oid symb DirectionClose ty q p m = (Inr r, m')"
  obtains ep where "executeSell oid symb ty q ep m = (Inr r, m')" "\<not> fle q (Fin 0)" "\<not> fle ep (Fin 0)"
  using assms by (auto simp: mt_SubmitOrder_def Let_def split: if_splits)

lemma SubmitOrder_rejected: "mt_SubmitOrder oid symb dir ty q p m = (Inl e, m') \<Longrightarrow> m' = m"
  by (auto simp: mt_SubmitOrder_def executeBuy_def executeSell_def Let_def
      split: if_splits Direction.splits option.splits)

lemma mk_buy_ok:
  assumes "mk_inv m" "0 < n" "held (mk_led m symb) + n \<le> 2 ^ 53"
  shows "pi_ok (bought_position (fmlookup (mtPositions m) symb) symb (shares n) fp) (fst (mk_led m symb) + n, snd (mk_led m symb))"
proof (cases "fmlookup (mtPositions m) symb")
  case None
  with assms show ?thesis by (simp add: bought_position_def pi_ok_def mk_led_def pi_entry_def held_def)
next
  case (Some pos)
  obtain a b where ab: "pi_entry (Some pos) = (a, b)" by fastforce
  from assms(1) Some have "opi_ok (Some pos)" by (metis mk_inv_def)
  with ab have ok: "pi_ok pos (a, b)" by simp
  have "fadd (shares (a + b)) (shares n) = shares (a + b + n)" "fadd (shares a) (shares n) = shares (a + n)"
    using fadd_int [of "a + b" n] fadd_int [of a n] ok assms(2,3) Some ab by (auto simp: pi_ok_def held_def mk_led_def)
  with ok Some ab assms(2,3) show ?thesis
    by (auto simp: bought_position_def pi_ok_def mk_led_def held_def Let_def algebra_simps simp del: of_int_add)
qed

lemma mk_sell_ok:
  assumes "mk_inv m" "0 < k" "executeSell oid symb ty (shares k) ep m = (Inr r, m')"
  obtains n p where "n = min (snd (mk_led m symb)) k" "0 < n" "orFilledQty r = shares n" "opi_ok p"
    "mtPositions m' = (case p of None \<Rightarrow> fmdrop symb (mtPositions m) | Some pos \<Rightarrow> fmupd symb pos (mtPositions m))"
    "pi_entry p = (fst (mk_led m symb), snd (mk_led m symb) - n)"
proof (cases "fmlookup (mtPositions m) symb")
  case None
  with assms(3) show ?thesis by (simp add: executeSell_def)
next
  case (Some pos)
  obtain a b where ab: "pi_entry (Some pos) = (a, b)" by fastforce
  from assms(1) Some have "opi_ok (Some pos)" by (metis mk_inv_def)
  with ab have ok: "pi_ok pos (a, b)" by simp
  then have p: "piQuantityYesterday pos = shares b" "piQuantity pos = shares (a + b)" "0 \<le> a" "0 \<le> b" "0 < a + b" "a + b \<le> 2 ^ 53"
    by (auto simp: pi_ok_def held_def)
  let ?n = "min b k"
  have z: "fle (shares j) (Fin 0) \<longleftrightarrow> j \<le> 0" for j by (simp add: fle_fin)
  have q: "(if flt (shares b) (shares k) then shares b else shares k) = shares ?n"
    by (auto simp: flt_fin min_def)
  have s: "fsub (shares b) (shares ?n) = shares (b - ?n)" "fsub (shares (a + b)) (shares ?n) = shares (a + b - ?n)"
    using fsub_int [of b ?n] fsub_int [of "a + b" ?n] p assms(2) by (auto simp: min_def)
  note ex = assms(3) [unfolded executeSell_def Some option.case p(1,2) z q Let_def s]
  from ex p(5) have b: "0 < b" by (auto split: if_splits)
  with assms(2) have n: "0 < ?n" by simp
  let ?p = "if a + b - ?n \<le> 0 then None else
     Some (pos\<lparr>piQuantityYesterday := shares (b - ?n), piQuantity := shares (a + b - ?n),
       piMarketValue := fmul (shares (a + b - ?n)) (applyExecutionCost m symb DirectionClose (shares ?n) ep)\<rparr>)"
  have okp: "pi_ok (the ?p) (a, b - ?n)" if "\<not> a + b - ?n \<le> 0"
    using ok that n by (auto simp: pi_ok_def held_def)
  have e: "pi_entry ?p = (a, b - ?n)"
    using pi_ok_entry [OF okp] p(3,4) by (auto simp: pi_entry_def)
  show ?thesis
  proof (rule that [of ?n ?p])
    show "opi_ok ?p" using okp e by (auto simp: opi_ok_def)
    show "orFilledQty r = shares ?n"
      "mtPositions m' = (case ?p of None \<Rightarrow> fmdrop symb (mtPositions m) | Some pos \<Rightarrow> fmupd symb pos (mtPositions m))"
      using ex p(5) b by (auto simp: filled_result_def simp del: of_int_add of_int_diff)
  qed (use Some ab e n in \<open>simp_all add: mk_led_def\<close>)
qed

lemma mk_put:
  assumes "mk_inv m" "opi_ok p"
    and "mtPositions m' = (case p of None \<Rightarrow> fmdrop symb (mtPositions m) | Some pos \<Rightarrow> fmupd symb pos (mtPositions m))"
  shows "mk_inv m' \<and> mk_led m' = (mk_led m)(symb := pi_entry p)"
proof -
  have "fmlookup (mtPositions m') s = (if s = symb then p else fmlookup (mtPositions m) s)" for s
    by (cases p) (auto simp: assms(3))
  with assms(1,2) show ?thesis by (auto simp: mk_inv_def mk_led_def fun_eq_iff)
qed

lemma mk_quiet:
  assumes "mk_inv m" "mtPositions m' = mtPositions m"
  shows "mk_inv m' \<and> mk_led m' = mk_led m"
  using assms by (simp add: mk_inv_def mk_led_def fun_eq_iff)

lemma mk_rollover:
  assumes "opi_ok p"
  shows "opi_ok (map_option mt_rollover p) \<and> pi_entry (map_option mt_rollover p) = (0, held (pi_entry p))"
proof (cases p)
  case None
  then show ?thesis by (simp add: pi_entry_def held_def)
next
  case (Some pos)
  obtain a b where ab: "pi_entry p = (a, b)" by fastforce
  with assms Some have ok: "pi_ok pos (a, b)" by simp
  have "fadd (shares b) (shares a) = shares (b + a)" using fadd_int [of b a] ok by (auto simp: pi_ok_def held_def)
  with ok have "pi_ok (mt_rollover pos) (0, a + b)"
    by (auto simp: mt_rollover_def pi_ok_def held_def flt_fin Let_def algebra_simps simp del: of_int_add)
  with Some ab show ?thesis by (simp add: pi_ok_entry held_def)
qed

lemma mk_step_ok:
  assumes "mk_step m e m'" "mk_inv m"
  shows "mk_inv m' \<and> mk_led m' = ledger_step e (mk_led m) \<and> enabled e (mk_led m)"
  using assms
proof (cases rule: mk_step.cases)
  case (buy symb n oid ty p r)
  from buy(3) obtain ep where ex: "executeBuy oid symb ty (shares n) ep m = (Inr r, m')" and n: "0 < n"
    by (auto elim!: SubmitOrder_buy simp: fle_fin)
  let ?pos = "bought_position (fmlookup (mtPositions m) symb) symb (shares n)
     (applyExecutionCost m symb DirectionLong (shares n) ep)"
  have ok: "pi_ok ?pos (fst (mk_led m symb) + n, snd (mk_led m symb))"
    by (rule mk_buy_ok [OF assms(2) n buy(2)])
  have "mtPositions m' = fmupd symb ?pos (mtPositions m)"
    using ex by (auto simp: executeBuy_def Let_def split: if_splits)
  with mk_put [OF assms(2), of "Some ?pos" m' symb] ok pi_ok_entry [OF ok] buy(1) n show ?thesis by simp
next
  case (sell oid symb ty k p r n)
  from sell(2) obtain ep where ex: "executeSell oid symb ty (shares k) ep m = (Inr r, m')" and k: "0 < k"
    by (auto elim!: SubmitOrder_sell simp: fle_fin)
  show ?thesis
  proof (rule mk_sell_ok [OF assms(2) k ex])
    fix n' p
    assume p: "n' = min (snd (mk_led m symb)) k" "0 < n'" "orFilledQty r = shares n'" "opi_ok p"
      "mtPositions m' = (case p of None \<Rightarrow> fmdrop symb (mtPositions m) | Some pos \<Rightarrow> fmupd symb pos (mtPositions m))"
      "pi_entry p = (fst (mk_led m symb), snd (mk_led m symb) - n')"
    with sell(3) have n: "n' = n" by simp
    from mk_put [OF assms(2) p(4,5)] p(1,2,6) sell(1) n show ?thesis by simp
  qed
next
  case (rejected oid symb dir ty q p e')
  have "mtPositions m' = mtPositions m" using SubmitOrder_rejected [OF rejected(2)] by simp
  from mk_quiet [OF assms(2) this] rejected(1) show ?thesis by simp
next
  case (cancel oid)
  have "mtPositions m' = mtPositions m"
    unfolding cancel by (simp add: mt_CancelOrder_def Let_def split: option.split)
  from mk_quiet [OF assms(2) this] cancel(1) show ?thesis by simp
next
  case (bars f)
  have "mtPositions m' = mtPositions m" unfolding bars by (simp add: SetCurrentBarProvider_def)
  from mk_quiet [OF assms(2) this] bars(1) show ?thesis by simp
next
  case advance
  have "fmlookup (mtPositions m') s = map_option mt_rollover (fmlookup (mtPositions m) s)" for s
    by (simp add: advance mt_AdvanceDay_def)
  moreover have "opi_ok (fmlookup (mtPositions m) s)" for s using assms(2) by (simp add: mk_inv_def)
  note mk_rollover [OF this]
  ultimately show ?thesis using advance(1) by (simp add: mk_inv_def mk_led_def fun_eq_iff)
qed

interpretation mk: t1_book mk_inv mk_led mk_step
proof
  show "0 \<le> fst (mk_led s y) \<and> 0 \<le> snd (mk_led s y)" if "mk_inv s" for s y
  proof -
    from that have "opi_ok (fmlookup (mtPositions s) y)" by (simp add: mk_inv_def)
    then show ?thesis by (cases "fmlookup (mtPositions s) y") (auto simp: mk_led_def pi_ok_def, simp_all add: pi_entry_def)
  qed
qed (use mk_step_ok in blast)+

lemma mk_inv_new: "mk_inv (NewMockTrader cfg)"
  by (simp add: mk_inv_def NewMockTrader_def Let_def)

lemma mk_led_new: "mk_led (NewMockTrader cfg) s = (0, 0)"
  by (simp add: mk_led_def NewMockTrader_def Let_def pi_entry_def)

text \<open>
  C18: The paper trader settles T+1 and accounts for shares exactly, over every run of accepted and
  rejected orders, cancellations and day changes from a new trader: the shares sold by the end of a
  day never exceed the shares bought before that day, and a position holds exactly the shares bought
  less the shares sold. It is the same contract as the backtest tracker's.
\<close>

theorem mock_trader_t_plus_one:
  assumes "run mk_step (NewMockTrader cfg) (es @ fs) m" "Roll \<notin> set fs"
  shows "sold y (es @ fs) \<le> bought y es \<and>
         (case fmlookup (mtPositions m) y of
            None \<Rightarrow> bought y (es @ fs) = sold y (es @ fs)
          | Some pos \<Rightarrow> piQuantity pos = shares (bought y (es @ fs) - sold y (es @ fs)))"
proof -
  let ?b = "bought y (es @ fs)" and ?s = "sold y (es @ fs)"
  have ok: "opi_ok (fmlookup (mtPositions m) y)"
    using mk.inv_run [OF assms(1) mk_inv_new] by (simp add: mk_inv_def)
  have h: "held (mk_led m y) = ?b - ?s"
    using mk.conservation [OF assms(1) mk_inv_new, of y] by (simp add: mk_led_new held_def)
  have "?s \<le> bought y es"
    using mk.t_plus_one [OF assms(1) mk_inv_new assms(2), of y] by (simp add: mk_led_new held_def)
  moreover have "?b = ?s" if "fmlookup (mtPositions m) y = None"
    using h that by (simp only: mk_led_def pi_entry_def option.case held_def fst_conv snd_conv)
  moreover have "piQuantity pos = shares (?b - ?s)" if "fmlookup (mtPositions m) y = Some pos" for pos
    using ok h that by (simp only: mk_led_def opi_ok_simps pi_ok_def)
  ultimately show ?thesis by (simp only: split: option.split) blast
qed

section \<open>Cash and orders\<close>

text \<open>
  A buy that the paper trader accepts pays the trade value plus the fees of its schedule and
  never overdraws: the cash stays non-negative.
\<close>

lemma mock_trader_buy_cash:
  assumes "mt_SubmitOrder oid symb DirectionLong ty q p m = (Inr r, m')"
    and "is_fin (mtCash m)" "fees_ok (mt_feeSchedule m)"
    and "is_fin (fmul q (orFillPrice r))" "fle (Fin 0) (fmul q (orFillPrice r))"
  shows "mtCash m' = fsub (mtCash m) (fadd (fmul q (orFillPrice r)) (orFee r)) \<and>
         orFee r = Total (ComputeFees (fmul q (orFillPrice r)) False (mt_feeSchedule m)) \<and>
         fle (Fin 0) (mtCash m')"
proof -
  let ?cost = "fadd (fmul q (orFillPrice r)) (Total (ComputeFees (fmul q (orFillPrice r)) False (mt_feeSchedule m)))"
  from assms(1) obtain ep where "executeBuy oid symb ty q ep m = (Inr r, m')" by (rule SubmitOrder_buy)
  then have c: "\<not> flt (mtCash m) ?cost" "mtCash m' = fsub (mtCash m) ?cost"
    and f: "orFee r = Total (ComputeFees (fmul q (orFillPrice r)) False (mt_feeSchedule m))"
    by (auto simp: executeBuy_def Let_def filled_result_def split: if_splits)
  have "fle (Fin 0) ?cost" by (intro fadd_nonneg assms(5) compute_fees_total_nonneg assms(3,4))
  then have "?cost \<noteq> NaN" by (auto simp: fle_def)
  with c(1) assms(2) have "fle ?cost (mtCash m)" by (simp add: not_flt_iff is_fin_not_NaN)
  with c(2) f assms(2) show ?thesis by (simp add: fsub_nonneg)
qed

inductive mk_any :: "MockTrader \<Rightarrow> MockTrader \<Rightarrow> bool" where
  submit: "mk_any m (snd (mt_SubmitOrder oid symb dir ty q p m))"
| cancel_order: "mk_any m (snd (mt_CancelOrder oid m))"
| advance_day: "mk_any m (mt_AdvanceDay m)"
| flatten: "mk_any m (snd (EmergencyFlatten oids symbols reason m))"
| set_bars: "mk_any m (SetCurrentBarProvider f m)"
| reset: "mk_any m (mt_Reset m)"

definition all_filled :: "MockTrader \<Rightarrow> bool" where
  "all_filled m \<longleftrightarrow> (\<forall>oid r. fmlookup (mtOrders m) oid = Some r \<longrightarrow> orStatus r = ''filled'' \<and> orOrderID r = oid)"

lemma flatten_filled: "all_filled m \<Longrightarrow> all_filled (snd (fold (flattenPosition oids reason) symbols (res, m)))"
proof (induction symbols arbitrary: res m)
  case (Cons s symbols)
  obtain res' m' where f: "flattenPosition oids reason s (res, m) = (res', m')" by fastforce
  with Cons.prems have "all_filled m'"
    by (auto simp: flattenPosition_def all_filled_def Let_def filled_result_def split: option.splits if_splits)
  with Cons.IH f show ?case by simp
qed simp

lemma mk_any_filled: "mk_any m m' \<Longrightarrow> all_filled m \<Longrightarrow> all_filled m'"
proof (induction rule: mk_any.induct)
  case (submit m oid symb dir ty q p)
  then show ?case
    by (auto simp: mt_SubmitOrder_def executeBuy_def executeSell_def Let_def all_filled_def filled_result_def
        split: Direction.split option.split)
next
  case (cancel_order m oid)
  then show ?case by (auto simp: mt_CancelOrder_def all_filled_def IsActive_def Let_def split: option.split)
next
  case (flatten m oids symbols reason)
  then show ?case by (simp add: EmergencyFlatten_def flatten_filled Let_def)
qed (auto simp: all_filled_def mt_AdvanceDay_def SetCurrentBarProvider_def mt_Reset_def)

text \<open>
  The paper trader fills every order it accepts at once, so no order is ever open: after any
  sequence of operations from a new trader, every stored order is filled and is stored under its own
  identifier, and a cancellation is refused and changes nothing.
\<close>

lemma mock_trader_orders_filled:
  assumes "mk_any\<^sup>*\<^sup>* (NewMockTrader cfg) m"
  shows "(\<forall>oid r. fmlookup (mtOrders m) oid = Some r \<longrightarrow> orStatus r = ''filled'' \<and> orOrderID r = oid) \<and>
         snd (mt_CancelOrder oid m) = m \<and> fst (mt_CancelOrder oid m) \<noteq> None"
proof -
  from assms have "all_filled m"
  proof (induction rule: rtranclp_induct)
    case base
    show ?case by (simp add: all_filled_def NewMockTrader_def Let_def)
  qed (use mk_any_filled in blast)
  then show ?thesis
    by (auto simp: all_filled_def mt_CancelOrder_def IsActive_def split: option.split)
qed

section \<open>The kill switch\<close>

text \<open>What a flatten does to a symbol: nothing, sell (\<open>Some True\<close>) or skip (\<open>Some False\<close>).\<close>

definition flatten_status :: "MockTrader \<Rightarrow> symbol \<Rightarrow> bool option" where
  "flatten_status m s =
     (case fmlookup (mtPositions m) s of
        None \<Rightarrow> None
      | Some pos \<Rightarrow> if fle (piQuantity pos) (Fin 0) then None
                    else Some (\<not> fle (flatten_price m s pos) (Fin 0)))"

lemma flattenPosition_effect:
  assumes "flattenPosition oids reason s (res, m) = (res', m')"
  shows "mtConfig m' = mtConfig m"
    "fmlookup (mtPositions m') y = (if y = s \<and> flatten_status m s = Some True then None else fmlookup (mtPositions m) y)"
    "map efSymbol (efSold res') = map efSymbol (efSold res) @ (if flatten_status m s = Some True then [s] else [])"
    "map fst (efSkipped res') = map fst (efSkipped res) @ (if flatten_status m s = Some False then [s] else [])"
    "efReason res' = efReason res"
  using assms
  by (auto simp: flattenPosition_def flatten_status_def Let_def store_filled_def persistOrder_def split: option.splits if_splits)

lemma flatten_status_frame:
  "mtConfig m' = mtConfig m \<Longrightarrow> fmlookup (mtPositions m') y = fmlookup (mtPositions m) y \<Longrightarrow>
   flatten_status m' y = flatten_status m y"
  by (simp add: flatten_status_def flatten_price_def split: option.split)

lemma flatten_fold:
  assumes "distinct xs" "fold (flattenPosition oids reason) xs (res, m) = (res', m')"
  shows "mtConfig m' = mtConfig m \<and>
    (\<forall>y. fmlookup (mtPositions m') y = (if y \<in> set xs \<and> flatten_status m y = Some True then None else fmlookup (mtPositions m) y)) \<and>
    map efSymbol (efSold res') = map efSymbol (efSold res) @ filter (\<lambda>s. flatten_status m s = Some True) xs \<and>
    map fst (efSkipped res') = map fst (efSkipped res) @ filter (\<lambda>s. flatten_status m s = Some False) xs \<and>
    efReason res' = efReason res"
  using assms
proof (induction xs arbitrary: res m)
  case (Cons s xs)
  obtain res1 m1 where f: "flattenPosition oids reason s (res, m) = (res1, m1)" by fastforce
  note e = flattenPosition_effect [OF f]
  have st: "flatten_status m1 y = flatten_status m y" if "y \<in> set xs" for y
    using that Cons.prems(1) e(1,2) by (intro flatten_status_frame) auto
  then have fl: "filter (\<lambda>s. flatten_status m1 s = Some b) xs = filter (\<lambda>s. flatten_status m s = Some b) xs" for b
    by (auto intro: filter_cong)
  from Cons.IH [of res1 m1] Cons.prems f show ?case
    using e st fl Cons.prems(1) by auto
qed simp

text \<open>
  C22: The kill switch is complete. Whatever order the positions are visited in, every held symbol is
  reported exactly once, as sold when a price is available and as skipped otherwise; exactly the
  skipped positions remain, untouched, and flattening again sells nothing more.
\<close>

theorem EmergencyFlatten_complete:
  assumes "distinct symbols" "set symbols = fset (fmdom (mtPositions m))"
    and "\<forall>s pos. fmlookup (mtPositions m) s = Some pos \<longrightarrow> \<not> fle (piQuantity pos) (Fin 0)"
    and "EmergencyFlatten oids symbols reason m = (res, m')"
  shows "map efSymbol (efSold res) = filter (\<lambda>s. \<not> fle (flatten_price m s (the (fmlookup (mtPositions m) s))) (Fin 0)) symbols \<and>
         map fst (efSkipped res) = filter (\<lambda>s. fle (flatten_price m s (the (fmlookup (mtPositions m) s))) (Fin 0)) symbols \<and>
         (\<forall>s. fmlookup (mtPositions m') s =
            (if s \<in> set (map fst (efSkipped res)) then fmlookup (mtPositions m) s else None)) \<and>
         efSold (fst (EmergencyFlatten oids (map fst (efSkipped res)) reason m')) = []"
proof -
  let ?r = "if reason = [] then ''operator-initiated kill switch'' else reason"
  let ?res0 = "\<lparr>efSold = [], efSkipped = [], efSoldTotal = Fin 0, efReason = ?r\<rparr>"
  from assms(4) have fold: "fold (flattenPosition oids ?r) symbols (?res0, m) = (res, m')"
    by (simp add: EmergencyFlatten_def Let_def)
  note ff = flatten_fold [OF assms(1) fold]
  have st: "flatten_status m s = Some (\<not> fle (flatten_price m s (the (fmlookup (mtPositions m) s))) (Fin 0))"
    if "s \<in> set symbols" for s
    using that assms(2,3) by (auto simp: flatten_status_def split: option.splits)
  have sold: "map efSymbol (efSold res) = filter (\<lambda>s. \<not> fle (flatten_price m s (the (fmlookup (mtPositions m) s))) (Fin 0)) symbols"
    and skip: "map fst (efSkipped res) = filter (\<lambda>s. fle (flatten_price m s (the (fmlookup (mtPositions m) s))) (Fin 0)) symbols"
    using ff st by (auto intro!: filter_cong)
  have left: "fmlookup (mtPositions m') s =
            (if s \<in> set (map fst (efSkipped res)) then fmlookup (mtPositions m) s else None)" for s
  proof (cases "fmlookup (mtPositions m) s")
    case None
    with ff show ?thesis by simp
  next
    case (Some pos)
    then have "s \<in> set symbols" using assms(2) by (simp add: fmlookup_dom_iff)
    with ff st [of s] show ?thesis by (simp add: skip)
  qed
  have "flatten_status m' s = Some False" if "s \<in> set (map fst (efSkipped res))" for s
  proof -
    have "flatten_status m' s = flatten_status m s"
      using ff left [of s] that by (intro flatten_status_frame) auto
    with st [of s] that skip show ?thesis by simp
  qed
  then have none: "filter (\<lambda>s. flatten_status m' s = Some True) (map fst (efSkipped res)) = []"
    by (simp add: filter_empty_conv)
  obtain res2 m2 where two: "fold (flattenPosition oids ?r) (map fst (efSkipped res)) (?res0, m') = (res2, m2)"
    by fastforce
  have "distinct (map fst (efSkipped res))" using skip assms(1) by simp
  from flatten_fold [OF this two] none have "efSold res2 = []" by simp
  with two have "efSold (fst (EmergencyFlatten oids (map fst (efSkipped res)) reason m')) = []"
    by (simp add: EmergencyFlatten_def Let_def)
  with sold skip left show ?thesis by blast
qed

section \<open>Concrete runs\<close>

definition sample_mock_config :: MockTraderConfig where
  "sample_mock_config =
     \<lparr>mcInitialCash = Fin 65536, mcCommissionRate = Fin (1 / 1024), mcStampTaxRate = Fin (1 / 512),
      mcSlippageRate = Fin (1 / 128), mcTransferFeeRate = Fin (1 / 65536), mcMinCommission = Fin 5,
      mcPriceProvider = Some (\<lambda>s. Fin 8), mcOrderStore = True, mcSlippageModel = [], mcImpactSigma = Fin 0,
      mcImpactLiquidityFactor = Fin 0\<rparr>"

definition sample_mock :: MockTrader where
  "sample_mock = NewMockTrader sample_mock_config"

definition mock_order :: "string \<Rightarrow> Direction \<Rightarrow> int \<Rightarrow> MockTrader \<Rightarrow> (mock_error + OrderResult) \<times> MockTrader" where
  "mock_order oid dir n m = mt_SubmitOrder oid ''600000.SH'' dir OrderTypeMarket (Fin (of_int n)) (Fin 0) m"

definition mock_bought :: MockTrader where
  "mock_bought = snd (mock_order ''o1'' DirectionLong 100 sample_mock)"

definition mock_settled :: MockTrader where
  "mock_settled = mt_AdvanceDay mock_bought"

lemma mock_buy_accepted: "case fst (mock_order ''o1'' DirectionLong 100 sample_mock) of
    Inr r \<Rightarrow> is_fin (fmul (Fin 100) (orFillPrice r)) \<and> fle (Fin 0) (fmul (Fin 100) (orFillPrice r)) | Inl _ \<Rightarrow> False"
  by code_simp

lemma mock_sell_accepted: "case fst (mock_order ''o2'' DirectionClose 40 mock_settled) of
    Inr r \<Rightarrow> orFilledQty r = Fin 40 | Inl _ \<Rightarrow> False"
  by code_simp

lemma mock_run:
  "run mk_step sample_mock ([Buy ''600000.SH'' 100, Roll] @ [Sell ''600000.SH'' 40])
     (snd (mock_order ''o2'' DirectionClose 40 mock_settled))"
proof -
  from mock_buy_accepted obtain r where "mock_order ''o1'' DirectionLong 100 sample_mock = (Inr r, mock_bought)"
    by (auto simp: mock_bought_def prod_eq_iff split: sum.splits)
  then have buy: "mk_step sample_mock (Buy ''600000.SH'' 100) mock_bought"
    using mk_step.buy [of sample_mock "''600000.SH''" 100 "''o1''" OrderTypeMarket "Fin 0" r mock_bought] mk_led_new
    by (simp add: mock_order_def sample_mock_def held_def)
  from mock_sell_accepted obtain r' where
    "mock_order ''o2'' DirectionClose 40 mock_settled = (Inr r', snd (mock_order ''o2'' DirectionClose 40 mock_settled))"
    "orFilledQty r' = shares 40"
    by (auto simp: prod_eq_iff split: sum.splits)
  then have sell: "mk_step mock_settled (Sell ''600000.SH'' 40) (snd (mock_order ''o2'' DirectionClose 40 mock_settled))"
    unfolding mock_order_def by (rule mk_step.sell)
  have "mk_step mock_bought Roll mock_settled" unfolding mock_settled_def by (rule mk_step.advance)
  with buy sell show ?thesis by (auto intro: run.intros)
qed

theorem mock_trader_t_plus_one_witness:
  "sold ''600000.SH'' ([Buy ''600000.SH'' 100, Roll] @ [Sell ''600000.SH'' 40])
     \<le> bought ''600000.SH'' [Buy ''600000.SH'' 100, Roll]"
  using mock_trader_t_plus_one [OF mock_run [unfolded sample_mock_def], of "''600000.SH''"] by simp

theorem EmergencyFlatten_complete_witness:
  "map efSymbol (efSold (fst (EmergencyFlatten (\<lambda>s. s) [''600000.SH''] [] mock_bought))) = [''600000.SH'']"
proof -
  have d: "fmdom (mtPositions mock_bought) = {|''600000.SH''|}" by code_simp
  have "fmpred (\<lambda>s pos. \<not> fle (piQuantity pos) (Fin 0)) (mtPositions mock_bought)" by code_simp
  then have q: "\<forall>s pos. fmlookup (mtPositions mock_bought) s = Some pos \<longrightarrow> \<not> fle (piQuantity pos) (Fin 0)"
    by (auto dest: fmpredD)
  have p: "\<not> fle (flatten_price mock_bought ''600000.SH'' (the (fmlookup (mtPositions mock_bought) ''600000.SH''))) (Fin 0)"
    by code_simp
  from EmergencyFlatten_complete [of "[''600000.SH'']" mock_bought "\<lambda>s. s" "[]", OF _ _ q] d p
  show ?thesis by (simp add: prod_eq_iff)
qed

text \<open>
  A position of settled and of today's shares is flattened in full without the T+1 bypass mark.
\<close>

lemma flatten_mixed_position_unmarked:
  "let m = snd (mock_order ''o3'' DirectionLong 50 mock_settled);
       r = fst (EmergencyFlatten (\<lambda>s. s) [''600000.SH''] [] m)
   in map (\<lambda>sold. (efQuantity sold, efBypassedT1 sold)) (efSold r) = [(Fin 150, False)]"
  by code_simp

end
