(* ===== verification/Price_Cage.thy ===== *)
theory Price_Cage
  imports Domain Market Float64_Math
begin

text \<open>
  The A-share price rules for limit orders (\<open>src/pkg/live/price_cage.go\<close>): the daily price limit of a
  board and the cage around the best opposite price on the main boards. The error carries the fields
  the code fills in; its printed form is left out.
\<close>

section \<open>Definitions\<close>

record ReferencePrice =
  refBestBid :: f64
  refBestAsk :: f64
  refLast :: f64
  refPrevClose :: f64

definition HasMinimum :: "ReferencePrice \<Rightarrow> bool" where
  "HasMinimum r \<longleftrightarrow> flt (Fin 0) (refPrevClose r)"

definition approxEqual :: "f64 \<Rightarrow> f64 \<Rightarrow> bool" where
  "approxEqual a b \<longleftrightarrow> flt (fabs (fsub a b)) (rnd (1 / 10000))"

definition round4 :: "f64 \<Rightarrow> f64" where
  "round4 x = fdiv (math_Round (fmul x (rnd 10000))) (rnd 10000)"

definition LimitUpDown :: "Board \<Rightarrow> f64 \<Rightarrow> f64 \<times> f64" where
  "LimitUpDown board prevClose =
     (if fle prevClose (Fin 0) then (Fin 0, Fin 0)
      else let limit = DailyPriceLimit board
           in (round4 (fmul prevClose (fadd (Fin 1) limit)), round4 (fmul prevClose (fsub (Fin 1) limit))))"

datatype PriceCageError =
    NonPositivePrice symbol f64
  | MissingReference symbol f64
  | LimitUpViolation symbol Board Direction f64 f64 f64 f64
  | LimitDownViolation symbol Board Direction f64 f64 f64 f64
  | CageViolation symbol Board Direction f64 f64 f64 f64 f64 f64 f64

type_synonym CageValidator = "(symbol \<Rightarrow> Board) option"

definition cage_board :: "CageValidator \<Rightarrow> symbol \<Rightarrow> Board" where
  "cage_board v symb =
     (case v of
        None \<Rightarrow> ClassifySymbol symb
      | Some resolve \<Rightarrow> if resolve symb \<noteq> BoardUnknown then resolve symb else ClassifySymbol symb)"

text \<open>The price the cage is centred on: the opposite side of the book, or the last price.\<close>

definition cage_reference :: "Direction \<Rightarrow> ReferencePrice \<Rightarrow> f64" where
  "cage_reference direction ref =
     (case direction of
        DirectionLong \<Rightarrow> (if fle (refBestAsk ref) (Fin 0) then refLast ref else refBestAsk ref)
      | DirectionShort \<Rightarrow> (if fle (refBestBid ref) (Fin 0) then refLast ref else refBestBid ref)
      | DirectionClose \<Rightarrow> (if fle (refBestBid ref) (Fin 0) then refLast ref else refBestBid ref)
      | _ \<Rightarrow> refLast ref)"

definition cage_Validate :: "CageValidator \<Rightarrow> Order \<Rightarrow> ReferencePrice \<Rightarrow> PriceCageError option" where
  "cage_Validate v order ref =
     (let p = ordLimitPrice order; symb = ordSymbol order; dir = ordDirection order; prev = refPrevClose ref
      in if ordOrderType order = OrderTypeMarket then None
         else if fle p (Fin 0) then Some (NonPositivePrice symb p)
         else if \<not> HasMinimum ref then Some (MissingReference symb p)
         else let board = cage_board v symb;
                  limit = DailyPriceLimit board;
                  limitUp = round4 (fmul prev (fadd (Fin 1) limit));
                  limitDown = round4 (fmul prev (fsub (Fin 1) limit))
              in if flt limitUp p then Some (LimitUpViolation symb board dir p prev limitUp limitDown)
                 else if flt p limitDown then Some (LimitDownViolation symb board dir p prev limitUp limitDown)
                 else if \<not> HasCageRule board then None
                 else if approxEqual p limitUp \<or> approxEqual p limitDown then None
                 else let reference = cage_reference dir ref
                      in if fle reference (Fin 0) then None
                         else let cagePct = CagePercent board;
                                  floor = round4 (fmul reference (fsub (Fin 1) cagePct));
                                  ceil = round4 (fmul reference (fadd (Fin 1) cagePct))
                              in if flt p floor \<or> flt ceil p
                                 then Some (CageViolation symb board dir p prev limitUp limitDown reference floor ceil)
                                 else None)"

section \<open>The price band\<close>

lemma round4_mono:
  assumes "fle a b" "is_fin a" "is_fin b"
  shows "fle (round4 a) (round4 b)"
proof -
  have c: "is_fin (rnd 10000)" "flt (Fin 0) (rnd 10000)" "fle (Fin 0) (rnd 10000)" by code_simp+
  have "fle (fmul a (rnd 10000)) (fmul b (rnd 10000))"
    by (rule fmul_mono_nonneg [OF assms(2,3) c(1,3) assms(1)])
  then show ?thesis unfolding round4_def by (intro fdiv_mono math_Round_mono c)
qed

lemma limit_cases: "DailyPriceLimit b \<in> {rnd (10 / 100), rnd (20 / 100), rnd (30 / 100)}"
  by (cases b) (simp_all add: DailyPriceLimit_def)

lemma limit_range: "fle (Fin 0) (DailyPriceLimit b)" "fle (Fin 0) (fsub (Fin 1) (DailyPriceLimit b))"
    "is_fin (fsub (Fin 1) (DailyPriceLimit b))"
proof -
  have "\<forall>l \<in> {rnd (10 / 100), rnd (20 / 100), rnd (30 / 100)}.
      fle (Fin 0) l \<and> fle (Fin 0) (fsub (Fin 1) l) \<and> is_fin (fsub (Fin 1) l)" by code_simp
  with limit_cases [of b] show "fle (Fin 0) (DailyPriceLimit b)" "fle (Fin 0) (fsub (Fin 1) (DailyPriceLimit b))"
    "is_fin (fsub (Fin 1) (DailyPriceLimit b))" by blast+
qed

text \<open>
  The daily price band is never empty: on every board the previous close, rounded like the
  limits, lies between the limit-down and the limit-up price, all roundings included.
\<close>

lemma price_band:
  assumes "is_fin p" "f64_wf p" "flt (Fin 0) p" "is_fin (fmul p (fadd (Fin 1) (DailyPriceLimit b)))"
  shows "fle (snd (LimitUpDown b p)) (round4 p) \<and> fle (round4 p) (fst (LimitUpDown b p))"
proof -
  let ?down = "fmul p (fsub (Fin 1) (DailyPriceLimit b))"
  have up: "fle p (fmul p (fadd (Fin 1) (DailyPriceLimit b)))"
    by (intro fmul_ge_self one_plus_ge assms limit_range)
  have down: "fle ?down p" by (intro fmul_le_self one_minus_le assms limit_range)
  have "fle (Fin 0) ?down" using assms(1,3) limit_range by (intro fmul_nonneg) (auto intro: flt_imp_fle)
  with down assms(1) have "is_fin ?down" by (cases ?down; cases p) (auto simp: fle_def)
  from round4_mono [OF down this assms(1)] round4_mono [OF up assms(1,4)]
  show ?thesis using assms(1,3) by (simp add: LimitUpDown_def Let_def fle_fin flt_fin)
qed

section \<open>Accepted orders\<close>


definition sample_limit_order :: Order where
  "sample_limit_order = \<lparr>ordID = ''o'', ordSymbol = ''600000.SH'', ordDirection = DirectionLong,
     ordOrderType = OrderTypeLimit, ordQuantity = Fin 100, ordLimitPrice = Fin 16, ordStopPrice = Fin 0,
     ordTrailAmount = Fin 0, ordTrailPercent = Fin 0, ordHighWaterMark = Fin 0, ordTimestamp = 0,
     ordFilledQty = Fin 0, ordFillPrice = Fin 0, ordStatus = []\<rparr>"

definition sample_reference :: ReferencePrice where
  "sample_reference = \<lparr>refBestBid = Fin 16, refBestAsk = Fin 16, refLast = Fin 16, refPrevClose = Fin 16\<rparr>"


text \<open>An order priced NaN passes every check.\<close>

lemma nan_price_accepted:
  "cage_Validate None (sample_limit_order\<lparr>ordLimitPrice := NaN\<rparr>) sample_reference = None"
  by code_simp

end
