(* ===== verification/Order_Manager.thy ===== *)
theory Order_Manager
  imports Price_Cage Execution
begin

text \<open>
  The order lifecycle manager of live trading (\<open>src/pkg/live/order_manager.go\<close>), the broker interface
  it calls (\<open>src/pkg/live/engine.go\<close>), the simulated broker that implements it
  (\<open>src/pkg/live/simulated_broker.go\<close>) and the position manager (\<open>src/pkg/live/position_manager.go\<close>).
  A broker is a record of operations over a state; the manager's operations take it as an argument
  and thread its state. Generated identifiers and the clock are arguments. The background loop of
  \<open>Run\<close> is a sequence of \<open>syncOrderStatus\<close> steps.

  The locale \<open>broker_ids\<close> states what the manager relies on: an accepted order gets an identifier the
  broker has not used before. The simulated broker interprets it.
\<close>

section \<open>Broker interface\<close>

record 'b Broker =
  brSubmitOrder :: "Order \<Rightarrow> 'b \<Rightarrow> (string + string) \<times> 'b"
  brCancelOrder :: "string \<Rightarrow> 'b \<Rightarrow> string option \<times> 'b"
  brGetOrderStatus :: "string \<Rightarrow> 'b \<Rightarrow> string + string"

section \<open>Order manager\<close>

record OrderManager =
  omOrders :: "Order dict"
  omTrades :: "Trade list"
  omPending :: "string list"
  omPriceCage :: "CageValidator option"
  omPriceRefProvider :: "(symbol \<Rightarrow> ReferencePrice) option"

datatype order_error =
    OrderSymbolRequired
  | OrderQuantityNotPositive f64
  | LimitPriceRequired
  | StopPriceRequired
  | TrailRequired
  | CageRejected PriceCageError
  | BrokerRejected string
  | OrderUnknown string
  | CannotCancelStatus string
  | BrokerCancelFailed string

definition NewOrderManager :: OrderManager where
  "NewOrderManager = \<lparr>omOrders = fmempty, omTrades = [], omPending = [], omPriceCage = None, omPriceRefProvider = None\<rparr>"

definition validateOrderShape :: "Order \<Rightarrow> order_error option" where
  "validateOrderShape order =
     (if ordSymbol order = [] then Some OrderSymbolRequired
      else if fle (ordQuantity order) (Fin 0) then Some (OrderQuantityNotPositive (ordQuantity order))
      else case ordOrderType order of
          OrderTypeLimit \<Rightarrow> (if fle (ordLimitPrice order) (Fin 0) then Some LimitPriceRequired else None)
        | OrderTypeStop \<Rightarrow> (if fle (ordStopPrice order) (Fin 0) then Some StopPriceRequired else None)
        | OrderTypeTrailing \<Rightarrow>
            (if fle (ordTrailAmount order) (Fin 0) \<and> fle (ordTrailPercent order) (Fin 0) then Some TrailRequired else None)
        | _ \<Rightarrow> None)"

definition saveOrder :: "Order \<Rightarrow> OrderManager \<Rightarrow> OrderManager" where
  "saveOrder order om = om\<lparr>omOrders := fmupd (ordID order) order (omOrders om)\<rparr>"

definition addPending :: "string \<Rightarrow> OrderManager \<Rightarrow> OrderManager" where
  "addPending orderID om = om\<lparr>omPending := omPending om @ [orderID]\<rparr>"

text \<open>The first occurrence is removed.\<close>

definition removePending :: "string \<Rightarrow> OrderManager \<Rightarrow> OrderManager" where
  "removePending orderID om = om\<lparr>omPending := remove1 orderID (omPending om)\<rparr>"

definition cage_check :: "OrderManager \<Rightarrow> Order \<Rightarrow> PriceCageError option" where
  "cage_check om order =
     (case (omPriceCage om, omPriceRefProvider om) of
        (Some v, Some provider) \<Rightarrow> cage_Validate v order (provider (ordSymbol order))
      | _ \<Rightarrow> None)"

definition om_SubmitOrder ::
    "string \<Rightarrow> gotime \<Rightarrow> 'b Broker \<Rightarrow> Order \<Rightarrow> OrderManager \<times> 'b \<Rightarrow> (order_error + string) \<times> (OrderManager \<times> 'b)" where
  "om_SubmitOrder gid now br order st =
     (let (om, b) = st
      in case validateOrderShape order of
          Some e \<Rightarrow> (Inl e, st)
        | None \<Rightarrow>
            (case cage_check om order of
               Some e \<Rightarrow> (Inl (CageRejected e), st)
             | None \<Rightarrow>
                 (let order = order\<lparr>ordID := gid, ordStatus := ''pending'', ordTimestamp := now\<rparr>
                  in case brSubmitOrder br order b of
                      (Inl e, b) \<Rightarrow> (Inl (BrokerRejected e), (saveOrder (order\<lparr>ordStatus := ''rejected''\<rparr>) om, b))
                    | (Inr brokerID, b) \<Rightarrow>
                        (let order = (if brokerID \<noteq> [] then order\<lparr>ordID := brokerID\<rparr> else order);
                             order = order\<lparr>ordStatus := ''submitted''\<rparr>
                         in (Inr (ordID order), (addPending (ordID order) (saveOrder order om), b))))))"

definition om_CancelOrder :: "'b Broker \<Rightarrow> string \<Rightarrow> OrderManager \<times> 'b \<Rightarrow> order_error option \<times> (OrderManager \<times> 'b)" where
  "om_CancelOrder br orderID st =
     (let (om, b) = st
      in case fmlookup (omOrders om) orderID of
          None \<Rightarrow> (Some (OrderUnknown orderID), st)
        | Some order \<Rightarrow>
            (if ordStatus order \<noteq> ''pending'' \<and> ordStatus order \<noteq> ''submitted''
             then (Some (CannotCancelStatus (ordStatus order)), st)
             else case brCancelOrder br orderID b of
                 (Some e, b) \<Rightarrow> (Some (BrokerCancelFailed e), (om, b))
               | (None, b) \<Rightarrow>
                   (None, (removePending orderID (saveOrder (order\<lparr>ordStatus := ''cancelled''\<rparr>) om), b))))"

definition terminal_status :: "string \<Rightarrow> bool" where
  "terminal_status s \<longleftrightarrow> s = ''filled'' \<or> s = ''cancelled'' \<or> s = ''rejected''"

definition UpdateOrderStatus :: "string \<Rightarrow> string \<Rightarrow> OrderManager \<Rightarrow> OrderManager" where
  "UpdateOrderStatus orderID status om =
     (case fmlookup (omOrders om) orderID of
        None \<Rightarrow> om
      | Some order \<Rightarrow>
          (let om = om\<lparr>omOrders := fmupd orderID (order\<lparr>ordStatus := status\<rparr>) (omOrders om)\<rparr>
           in if terminal_status status then removePending orderID om else om))"

definition UpdateOrder :: "string \<Rightarrow> Order option \<Rightarrow> OrderManager \<Rightarrow> OrderManager" where
  "UpdateOrder orderID order om =
     (case order of
        None \<Rightarrow> om
      | Some order \<Rightarrow>
          (let aligned = (if ordID order = [] then order\<lparr>ordID := orderID\<rparr> else order)
           in om\<lparr>omOrders := fmupd orderID aligned (omOrders om)\<rparr>))"

definition sync_one :: "'b Broker \<Rightarrow> 'b \<Rightarrow> string \<Rightarrow> OrderManager \<Rightarrow> OrderManager" where
  "sync_one br b orderID om =
     (case brGetOrderStatus br orderID b of Inl _ \<Rightarrow> om | Inr status \<Rightarrow> UpdateOrderStatus orderID status om)"

definition syncOrderStatus :: "'b Broker \<Rightarrow> OrderManager \<times> 'b \<Rightarrow> OrderManager \<times> 'b" where
  "syncOrderStatus br st = (let (om, b) = st in (fold (sync_one br b) (omPending om) om, b))"

definition om_GetOrder :: "string \<Rightarrow> OrderManager \<Rightarrow> Order option" where
  "om_GetOrder orderID om = fmlookup (omOrders om) orderID"

definition GetPendingOrders :: "OrderManager \<Rightarrow> Order list" where
  "GetPendingOrders om = List.map_filter (fmlookup (omOrders om)) (omPending om)"

definition AddTrade :: "Trade \<Rightarrow> OrderManager \<Rightarrow> OrderManager" where
  "AddTrade trade om = om\<lparr>omTrades := omTrades om @ [trade]\<rparr>"

definition SetPriceCageValidator ::
    "CageValidator option \<Rightarrow> (symbol \<Rightarrow> ReferencePrice) option \<Rightarrow> OrderManager \<Rightarrow> OrderManager" where
  "SetPriceCageValidator v provider om = om\<lparr>omPriceCage := v, omPriceRefProvider := provider\<rparr>"

section \<open>Simulated broker\<close>

text \<open>The order counter is a Go \<open>int\<close> that only counts up from zero.\<close>

record SimulatedBroker =
  sbConnected :: bool
  sbOrders :: "Order dict"
  sbPositions :: "Position dict"
  sbBalance :: f64
  sbOrderCount :: nat
  sbFees :: AShareFees
  sbCostModel :: ExecutionConfig

definition NewSimulatedBroker :: "f64 \<Rightarrow> SimulatedBroker" where
  "NewSimulatedBroker initialBalance =
     \<lparr>sbConnected = False, sbOrders = fmempty, sbPositions = fmempty, sbBalance = initialBalance,
      sbOrderCount = 0, sbFees = DefaultAShareFees, sbCostModel = DefaultExecutionConfig\<rparr>"

definition SetExecutionConfig :: "ExecutionConfig \<Rightarrow> SimulatedBroker \<Rightarrow> SimulatedBroker" where
  "SetExecutionConfig cfg b = b\<lparr>sbCostModel := cfg\<rparr>"

definition Connect :: "SimulatedBroker \<Rightarrow> SimulatedBroker" where
  "Connect b = b\<lparr>sbConnected := True\<rparr>"

definition Disconnect :: "SimulatedBroker \<Rightarrow> SimulatedBroker" where
  "Disconnect b = b\<lparr>sbConnected := False\<rparr>"

definition sim_fill_price :: "SimulatedBroker \<Rightarrow> Order \<Rightarrow> f64" where
  "sim_fill_price b order =
     (let p = (if feq (ordLimitPrice order) (Fin 0) then rnd 100 else ordLimitPrice order);
          p = SlippagePrice (sbCostModel b) p (ordDirection order) (ordQuantity order) (Fin 0) p p
      in fdiv (math_Round (fmul p (rnd 100))) (rnd 100))"

definition fill_position :: "Order \<Rightarrow> f64 \<Rightarrow> Position \<Rightarrow> Position" where
  "fill_position order amount position =
     (if ordDirection order = DirectionLong
      then let q = fadd (posQuantity position) (ordQuantity order)
           in position\<lparr>posQuantity := q,
                posAvgCost := fdiv (fadd (fmul (posAvgCost position) (fsub q (ordQuantity order))) amount) q\<rparr>
      else let q = fsub (posQuantity position) (ordQuantity order)
           in position\<lparr>posQuantity := q, posAvgCost := (if feq q (Fin 0) then Fin 0 else posAvgCost position)\<rparr>)"

definition fillOrder :: "string \<Rightarrow> Order \<Rightarrow> SimulatedBroker \<Rightarrow> SimulatedBroker" where
  "fillOrder orderID order b =
     (let fillPrice = sim_fill_price b order;
          order = order\<lparr>ordStatus := ''filled'', ordFilledQty := ordQuantity order, ordFillPrice := fillPrice\<rparr>;
          position = (case fmlookup (sbPositions b) (ordSymbol order) of
                        None \<Rightarrow> zero_Position (ordSymbol order) | Some p \<Rightarrow> p);
          amount = fmul fillPrice (ordQuantity order);
          commission = math_Max (fmul amount (CommissionRate (sbFees b))) (MinCommission (sbFees b))
      in b\<lparr>sbOrders := fmupd orderID order (sbOrders b),
           sbPositions := fmupd (ordSymbol order) (fill_position order amount position) (sbPositions b),
           sbBalance := (if ordDirection order = DirectionLong
                         then fsub (sbBalance b) (fadd amount commission)
                         else fadd (sbBalance b) (fsub amount commission))\<rparr>)"

definition sim_id :: "nat \<Rightarrow> string" where
  "sim_id n = ''SIM-ORD-'' @ itoa n"

definition sb_SubmitOrder :: "gotime \<Rightarrow> Order \<Rightarrow> SimulatedBroker \<Rightarrow> (string + string) \<times> SimulatedBroker" where
  "sb_SubmitOrder now order b =
     (if \<not> sbConnected b then (Inl ''broker not connected'', b)
      else let n = sbOrderCount b + 1;
               orderID = sim_id n;
               order = order\<lparr>ordID := orderID, ordStatus := ''submitted'', ordTimestamp := now\<rparr>;
               b = b\<lparr>sbOrderCount := n, sbOrders := fmupd orderID order (sbOrders b)\<rparr>;
               b = (if ordOrderType order = OrderTypeMarket then fillOrder orderID order b else b)
           in (Inr orderID, b))"

definition sb_CancelOrder :: "string \<Rightarrow> SimulatedBroker \<Rightarrow> string option \<times> SimulatedBroker" where
  "sb_CancelOrder orderID b =
     (case fmlookup (sbOrders b) orderID of
        None \<Rightarrow> (Some (''order not found: '' @ orderID), b)
      | Some order \<Rightarrow>
          (if ordStatus order = ''filled'' then (Some ''cannot cancel filled order'', b)
           else (None, b\<lparr>sbOrders := fmupd orderID (order\<lparr>ordStatus := ''cancelled''\<rparr>) (sbOrders b)\<rparr>)))"

definition sb_GetOrderStatus :: "string \<Rightarrow> SimulatedBroker \<Rightarrow> string + string" where
  "sb_GetOrderStatus orderID b =
     (case fmlookup (sbOrders b) orderID of
        None \<Rightarrow> Inl (''order not found: '' @ orderID) | Some order \<Rightarrow> Inr (ordStatus order))"

definition SetPrice :: "symbol \<Rightarrow> f64 \<Rightarrow> SimulatedBroker \<Rightarrow> SimulatedBroker" where
  "SetPrice symb price b =
     (case fmlookup (sbPositions b) symb of
        None \<Rightarrow> b
      | Some position \<Rightarrow>
          (let mv = fmul price (posQuantity position)
           in b\<lparr>sbPositions := fmupd symb (position\<lparr>posCurrentPrice := price, posMarketValue := mv,
                  posUnrealizedPnL := fsub mv (fmul (posAvgCost position) (posQuantity position))\<rparr>) (sbPositions b)\<rparr>))"

definition sim_broker :: "gotime \<Rightarrow> SimulatedBroker Broker" where
  "sim_broker now = \<lparr>brSubmitOrder = sb_SubmitOrder now, brCancelOrder = sb_CancelOrder,
     brGetOrderStatus = sb_GetOrderStatus\<rparr>"

section \<open>Position manager\<close>

type_synonym PositionManager = "Position dict"

definition UpdatePosition :: "Position \<Rightarrow> PositionManager \<Rightarrow> PositionManager" where
  "UpdatePosition position pm = fmupd (posSymbol position) position pm"

definition UpdateFromTrade :: "Trade \<Rightarrow> PositionManager \<Rightarrow> PositionManager" where
  "UpdateFromTrade trade pm =
     (let position = (case fmlookup pm (trSymbol trade) of None \<Rightarrow> zero_Position (trSymbol trade) | Some p \<Rightarrow> p);
          position =
            (if trDirection trade = DirectionLong
             then let totalCost = fadd (fmul (posAvgCost position) (posQuantity position))
                                       (fmul (trPrice trade) (trQuantity trade));
                      q = fadd (posQuantity position) (trQuantity trade)
                  in position\<lparr>posQuantity := q,
                       posAvgCost := (if flt (Fin 0) q then fdiv totalCost q else posAvgCost position)\<rparr>
             else let realized = (if flt (Fin 0) (posQuantity position)
                                  then fadd (posRealizedPnL position)
                                         (fmul (fsub (trPrice trade) (posAvgCost position)) (trQuantity trade))
                                  else posRealizedPnL position);
                      q = fsub (posQuantity position) (trQuantity trade)
                  in position\<lparr>posRealizedPnL := realized, posQuantity := q,
                       posAvgCost := (if feq q (Fin 0) then Fin 0 else posAvgCost position)\<rparr>)
      in fmupd (trSymbol trade) position pm)"

definition ApplyQuote :: "symbol \<Rightarrow> f64 \<Rightarrow> PositionManager \<Rightarrow> Position option \<times> PositionManager" where
  "ApplyQuote symb price pm =
     (case fmlookup pm symb of
        None \<Rightarrow> (None, pm)
      | Some position \<Rightarrow>
          (let mv = fmul price (posQuantity position);
               position = position\<lparr>posCurrentPrice := price, posMarketValue := mv,
                 posUnrealizedPnL := fsub mv (fmul (posAvgCost position) (posQuantity position))\<rparr>
           in (Some position, fmupd symb position pm)))"

definition RemovePosition :: "symbol \<Rightarrow> PositionManager \<Rightarrow> PositionManager" where
  "RemovePosition symb pm = fmdrop symb pm"

definition pm_HasPosition :: "symbol \<Rightarrow> PositionManager \<Rightarrow> bool" where
  "pm_HasPosition symb pm =
     (case fmlookup pm symb of None \<Rightarrow> False | Some position \<Rightarrow> \<not> feq (posQuantity position) (Fin 0))"

section \<open>Order book invariant\<close>

inductive om_step ::
    "(gotime \<Rightarrow> 'b Broker) \<Rightarrow> string set \<Rightarrow> ('b \<Rightarrow> 'b \<Rightarrow> bool) \<Rightarrow> OrderManager \<times> 'b \<Rightarrow> OrderManager \<times> 'b \<Rightarrow> bool"
  for br gen ext where
  submit: "gid \<in> gen \<Longrightarrow> fmlookup (omOrders om) gid = None \<Longrightarrow>
    om_step br gen ext (om, b) (snd (om_SubmitOrder gid now (br now) order (om, b)))"
| cancel: "om_step br gen ext st (snd (om_CancelOrder (br now) oid st))"
| sync: "om_step br gen ext st (syncOrderStatus (br now) st)"
| update_status: "om_step br gen ext (om, b) (UpdateOrderStatus oid status om, b)"
| add_trade: "om_step br gen ext (om, b) (AddTrade trade om, b)"
| set_cage: "om_step br gen ext (om, b) (SetPriceCageValidator v provider om, b)"
| broker: "ext b b' \<Longrightarrow> om_step br gen ext (om, b) (om, b')"

definition book_ok :: "string set \<Rightarrow> string set \<Rightarrow> OrderManager \<Rightarrow> bool" where
  "book_ok kn ids om \<longleftrightarrow>
     distinct (omPending om) \<and> set (omPending om) \<subseteq> kn \<and>
     (\<forall>i \<in> set (omPending om). \<exists>order. fmlookup (omOrders om) i = Some order) \<and>
     (\<forall>i order. fmlookup (omOrders om) i = Some order \<longrightarrow> ordID order = i \<and> i \<in> ids)"

text \<open>Later records of the same order: at most the status differs.\<close>

definition keeps_orders :: "OrderManager \<Rightarrow> OrderManager \<Rightarrow> bool" where
  "keeps_orders om om' \<longleftrightarrow> (\<forall>i order. fmlookup (omOrders om) i = Some order \<longrightarrow>
     (\<exists>s. fmlookup (omOrders om') i = Some (order\<lparr>ordStatus := s\<rparr>)))"

lemma same_record [simp]: "\<exists>s. order = (order :: Order)\<lparr>ordStatus := s\<rparr>"
  by (cases order) auto

lemma keeps_orders_refl: "omOrders om' = omOrders om \<Longrightarrow> keeps_orders om om'"
  by (auto simp: keeps_orders_def)

lemma keeps_orders_trans: "keeps_orders om1 om2 \<Longrightarrow> keeps_orders om2 om3 \<Longrightarrow> keeps_orders om1 om3"
  unfolding keeps_orders_def by fastforce

lemma UpdateOrderStatus_ok:
  assumes "book_ok kn ids om"
  shows "book_ok kn ids (UpdateOrderStatus oid status om) \<and> keeps_orders om (UpdateOrderStatus oid status om)"
proof (cases "fmlookup (omOrders om) oid")
  case None
  with assms show ?thesis by (simp add: UpdateOrderStatus_def keeps_orders_refl)
next
  case (Some order)
  then have o: "omOrders (UpdateOrderStatus oid status om) = fmupd oid (order\<lparr>ordStatus := status\<rparr>) (omOrders om)"
    and p: "distinct (omPending (UpdateOrderStatus oid status om))"
      "set (omPending (UpdateOrderStatus oid status om)) \<subseteq> set (omPending om)"
    using assms set_remove1_subset [of oid "omPending om"]
    by (auto simp: UpdateOrderStatus_def Let_def removePending_def book_ok_def)
  have "keeps_orders om (UpdateOrderStatus oid status om)"
    using Some by (auto simp: keeps_orders_def o)
  moreover have "book_ok kn ids (UpdateOrderStatus oid status om)"
    using assms Some p unfolding book_ok_def o by (auto split: if_splits)
  ultimately show ?thesis by blast
qed

lemma sync_fold_ok:
  "book_ok kn ids om \<Longrightarrow> book_ok kn ids (fold (sync_one br b) xs om) \<and> keeps_orders om (fold (sync_one br b) xs om)"
proof (induction xs arbitrary: om)
  case (Cons x xs)
  have "book_ok kn ids (sync_one br b x om) \<and> keeps_orders om (sync_one br b x om)"
    using UpdateOrderStatus_ok [OF Cons.prems] Cons.prems
    by (auto simp: sync_one_def keeps_orders_refl split: sum.split)
  with Cons.IH [of "sync_one br b x om"] keeps_orders_trans show ?case by auto
qed (simp add: keeps_orders_refl)

lemma save_new_ok:
  assumes "book_ok kn ids om" "fmlookup (omOrders om) (ordID order) = None" "ids \<subseteq> ids'" "ordID order \<in> ids'" "kn \<subseteq> kn'"
  shows "book_ok kn' ids' (saveOrder order om) \<and>
         (ordID order \<in> kn' \<longrightarrow> book_ok kn' ids' (addPending (ordID order) (saveOrder order om))) \<and>
         keeps_orders om (saveOrder order om)"
  using assms
  by (auto simp: book_ok_def saveOrder_def addPending_def keeps_orders_def)

lemma cancel_ok:
  assumes "book_ok kn ids om" "fmlookup (omOrders om) oid = Some order"
  shows "book_ok kn ids (removePending oid (saveOrder (order\<lparr>ordStatus := s\<rparr>) om)) \<and>
         keeps_orders om (removePending oid (saveOrder (order\<lparr>ordStatus := s\<rparr>) om))"
proof -
  have "ordID order = oid" using assms by (simp add: book_ok_def)
  then have o: "omOrders (removePending oid (saveOrder (order\<lparr>ordStatus := s\<rparr>) om)) =
      fmupd oid (order\<lparr>ordStatus := s\<rparr>) (omOrders om)"
    and p: "omPending (removePending oid (saveOrder (order\<lparr>ordStatus := s\<rparr>) om)) = remove1 oid (omPending om)"
    by (simp_all add: removePending_def saveOrder_def)
  show ?thesis
    unfolding book_ok_def keeps_orders_def o p using assms set_remove1_subset [of oid "omPending om"]
    by (auto simp: book_ok_def split: if_splits)
qed

section \<open>Fresh identifiers\<close>

locale broker_ids =
  fixes br :: "gotime \<Rightarrow> 'b Broker"
    and gen :: "string set"
    and ext :: "'b \<Rightarrow> 'b \<Rightarrow> bool"
    and binv :: "'b \<Rightarrow> bool"
    and known :: "'b \<Rightarrow> string set"
  assumes submit_fresh: "binv b \<Longrightarrow> brSubmitOrder (br now) order b = (Inr i, b') \<Longrightarrow>
      i \<noteq> [] \<and> i \<notin> known b \<and> known b' = insert i (known b) \<and> binv b'"
    and submit_refused: "binv b \<Longrightarrow> brSubmitOrder (br now) order b = (Inl e, b') \<Longrightarrow> known b' = known b \<and> binv b'"
    and cancel_keeps: "binv b \<Longrightarrow> brCancelOrder (br now) i b = (r, b') \<Longrightarrow> known b' = known b \<and> binv b'"
    and ext_keeps: "binv b \<Longrightarrow> ext b b' \<Longrightarrow> known b' = known b \<and> binv b'"
    and gen_distinct: "binv b \<Longrightarrow> known b \<inter> gen = {}"
begin

definition inv :: "OrderManager \<times> 'b \<Rightarrow> bool" where
  "inv st \<longleftrightarrow> binv (snd st) \<and> book_ok (known (snd st)) (known (snd st) \<union> gen) (fst st)"

lemma inv_submit:
  assumes "inv (om, b)" "gid \<in> gen" "fmlookup (omOrders om) gid = None"
  shows "inv (snd (om_SubmitOrder gid now (br now) order (om, b))) \<and>
         keeps_orders om (fst (snd (om_SubmitOrder gid now (br now) order (om, b))))"
proof (cases "validateOrderShape order = None \<and> cage_check om order = None")
  case False
  then have "snd (om_SubmitOrder gid now (br now) order (om, b)) = (om, b)"
    by (auto simp: om_SubmitOrder_def split: option.splits)
  with assms(1) show ?thesis by (simp add: keeps_orders_refl)
next
  case True
  let ?o = "order\<lparr>ordID := gid, ordStatus := ''pending'', ordTimestamp := now\<rparr>"
  obtain r b' where r: "brSubmitOrder (br now) ?o b = (r, b')" by fastforce
  have b: "binv b" and ok: "book_ok (known b) (known b \<union> gen) om" using assms(1) by (auto simp: inv_def)
  show ?thesis
  proof (cases r)
    case (Inl e)
    with r have e: "snd (om_SubmitOrder gid now (br now) order (om, b)) = (saveOrder (?o\<lparr>ordStatus := ''rejected''\<rparr>) om, b')"
      using True by (simp add: om_SubmitOrder_def)
    from Inl r submit_refused [OF b] have "known b' = known b \<and> binv b'" by blast
    with save_new_ok [OF ok, of "?o\<lparr>ordStatus := ''rejected''\<rparr>" "known b \<union> gen" "known b"] assms(2,3) show ?thesis
      unfolding e by (simp add: inv_def)
  next
    case (Inr i)
    from submit_fresh [OF b] r Inr have f: "i \<noteq> []" "i \<notin> known b" "known b' = insert i (known b)" "binv b'" by auto
    have "fmlookup (omOrders om) i = None"
    proof (rule ccontr)
      assume "fmlookup (omOrders om) i \<noteq> None"
      then have "i \<in> gen" using ok f(2) by (auto simp: book_ok_def)
      with gen_distinct [OF f(4)] f(3) show False by blast
    qed
    moreover have e: "snd (om_SubmitOrder gid now (br now) order (om, b)) =
        (addPending i (saveOrder (?o\<lparr>ordID := i, ordStatus := ''submitted''\<rparr>) om), b')"
      using True r Inr f(1) by (simp add: om_SubmitOrder_def Let_def)
    ultimately show ?thesis
      using save_new_ok [OF ok, of "?o\<lparr>ordID := i, ordStatus := ''submitted''\<rparr>" "known b' \<union> gen" "known b'"] f(3,4)
      unfolding e by (auto simp: inv_def keeps_orders_def addPending_def)
  qed
qed

lemma inv_step: "om_step br gen ext st st' \<Longrightarrow> inv st \<Longrightarrow> inv st' \<and> keeps_orders (fst st) (fst st')"
proof (induction rule: om_step.induct)
  case (submit gid om b now order)
  then show ?case using inv_submit by simp
next
  case (cancel st now oid)
  obtain om b where st: "st = (om, b)" by fastforce
  with cancel have b: "binv b" and ok: "book_ok (known b) (known b \<union> gen) om" by (auto simp: inv_def)
  obtain r b' where r: "brCancelOrder (br now) oid b = (r, b')" by fastforce
  from cancel_keeps [OF b r] have k: "known b' = known b" "binv b'" by auto
  show ?case
    using cancel cancel_ok [OF ok] r k ok unfolding st
    by (auto simp: om_CancelOrder_def inv_def keeps_orders_refl split: option.split)
next
  case (sync st now)
  obtain om b where st: "st = (om, b)" by fastforce
  with sync sync_fold_ok [of "known b" "known b \<union> gen" om "br now" b "omPending om"] show ?case
    by (simp add: syncOrderStatus_def inv_def)
next
  case (update_status om b oid status)
  then show ?case using UpdateOrderStatus_ok by (auto simp: inv_def)
next
  case (broker b b' om)
  then show ?case using ext_keeps by (auto simp: inv_def keeps_orders_refl)
qed (auto simp: inv_def book_ok_def AddTrade_def SetPriceCageValidator_def keeps_orders_refl)

lemma inv_run:
  assumes "(om_step br gen ext)\<^sup>*\<^sup>* st st'" "inv st"
  shows "inv st' \<and> keeps_orders (fst st) (fst st')"
  using assms
proof (induction rule: rtranclp_induct)
  case (step st' st'')
  then show ?case using inv_step keeps_orders_trans by blast
qed (simp add: keeps_orders_refl)

end

section \<open>The simulated broker's identifiers\<close>

definition manager_ids :: "string set" where
  "manager_ids = {i. take 4 i = ''ORD-''}"

definition sim_known :: "SimulatedBroker \<Rightarrow> string set" where
  "sim_known b = fset (fmdom (sbOrders b))"

definition sim_inv :: "SimulatedBroker \<Rightarrow> bool" where
  "sim_inv b \<longleftrightarrow> (\<forall>i. fmlookup (sbOrders b) i \<noteq> None \<longrightarrow> (\<exists>k \<le> sbOrderCount b. i = sim_id k))"

inductive sim_ext :: "SimulatedBroker \<Rightarrow> SimulatedBroker \<Rightarrow> bool" where
  "sim_ext b (Connect b)"
| "sim_ext b (Disconnect b)"
| "sim_ext b (SetExecutionConfig cfg b)"
| "sim_ext b (SetPrice symb price b)"

lemma sim_id_inj [simp]: "sim_id m = sim_id n \<longleftrightarrow> m = n"
  by (simp add: sim_id_def itoa_inj)

lemma sim_id_nonempty [simp]: "sim_id n \<noteq> []"
  by (simp add: sim_id_def)

lemma fillOrder_fields [simp]:
  "sbOrderCount (fillOrder i order b) = sbOrderCount b"
  "sbOrders (fillOrder i order b) = fmupd i (order\<lparr>ordStatus := ''filled'', ordFilledQty := ordQuantity order,
     ordFillPrice := sim_fill_price b order\<rparr>) (sbOrders b)"
  by (simp_all add: fillOrder_def Let_def)

lemma sb_SubmitOrder_Inr:
  assumes "sb_SubmitOrder now order b = (Inr i, b')"
  shows "i = sim_id (Suc (sbOrderCount b)) \<and> sbOrderCount b' = Suc (sbOrderCount b) \<and>
    (\<exists>order'. sbOrders b' = fmupd i order' (sbOrders b) \<and>
       ordStatus order' = (if ordOrderType order = OrderTypeMarket then ''filled'' else ''submitted''))"
  using assms by (auto simp: sb_SubmitOrder_def Let_def split: if_splits)

lemma sb_SubmitOrder_Inl: "sb_SubmitOrder now order b = (Inl e, b') \<Longrightarrow> b' = b"
  by (auto simp: sb_SubmitOrder_def Let_def split: if_splits)

lemma sb_CancelOrder_keeps:
  assumes "sb_CancelOrder i b = (r, b')"
  shows "fmdom (sbOrders b') = fmdom (sbOrders b) \<and> sbOrderCount b' = sbOrderCount b"
  using assms by (auto simp: sb_CancelOrder_def fmlookup_dom_iff split: option.splits if_splits intro!: fsubset_antisym)

lemma sim_inv_dom: "sim_inv b \<longleftrightarrow> (\<forall>i \<in> fset (fmdom (sbOrders b)). \<exists>k \<le> sbOrderCount b. i = sim_id k)"
  by (auto simp: sim_inv_def fmlookup_dom_iff)

lemma sim_ext_keeps: "sim_ext b b' \<Longrightarrow> sbOrders b' = sbOrders b \<and> sbOrderCount b' = sbOrderCount b"
  by (induction rule: sim_ext.induct)
    (auto simp: Connect_def Disconnect_def SetExecutionConfig_def SetPrice_def Let_def split: option.split)

interpretation sim: broker_ids sim_broker manager_ids sim_ext sim_inv sim_known
proof
  fix b now order i b'
  assume b: "sim_inv b" and "brSubmitOrder (sim_broker now) order b = (Inr i, b')"
  then have s: "sb_SubmitOrder now order b = (Inr i, b')" by (simp add: sim_broker_def)
  from sb_SubmitOrder_Inr [OF s] obtain order' where i: "i = sim_id (Suc (sbOrderCount b))"
    and c: "sbOrderCount b' = Suc (sbOrderCount b)" and m: "sbOrders b' = fmupd i order' (sbOrders b)" by blast
  show "i \<noteq> [] \<and> i \<notin> sim_known b \<and> sim_known b' = insert i (sim_known b) \<and> sim_inv b'"
    using b unfolding sim_inv_dom sim_known_def m c i by (auto intro: le_SucI simp: sim_id_nonempty)
next
  fix b now order e b'
  assume "sim_inv b" "brSubmitOrder (sim_broker now) order b = (Inl e, b')"
  then show "sim_known b' = sim_known b \<and> sim_inv b'" using sb_SubmitOrder_Inl [of now order b e b'] by (simp add: sim_broker_def)
next
  fix b now i r b'
  assume "sim_inv b" "brCancelOrder (sim_broker now) i b = (r, b')"
  then show "sim_known b' = sim_known b \<and> sim_inv b'"
    using sb_CancelOrder_keeps [of i b r b'] by (simp add: sim_broker_def sim_inv_dom sim_known_def)
next
  fix b b'
  assume "sim_inv b" "sim_ext b b'"
  then show "sim_known b' = sim_known b \<and> sim_inv b'"
    using sim_ext_keeps [of b b'] by (simp add: sim_inv_dom sim_known_def)
next
  fix b
  assume "sim_inv b"
  then show "sim_known b \<inter> manager_ids = {}"
    by (auto simp: sim_inv_dom sim_known_def manager_ids_def sim_id_def)
qed

lemma sim_inv_start: "sim.inv (NewOrderManager, NewSimulatedBroker balance)"
  by (simp add: sim.inv_def NewOrderManager_def NewSimulatedBroker_def book_ok_def sim_inv_def)


section \<open>Status synchronisation\<close>

definition still_open :: "'b Broker \<Rightarrow> 'b \<Rightarrow> string \<Rightarrow> bool" where
  "still_open br b i = (case brGetOrderStatus br i b of Inl _ \<Rightarrow> True | Inr s \<Rightarrow> \<not> terminal_status s)"

definition synced :: "'b Broker \<Rightarrow> 'b \<Rightarrow> string \<Rightarrow> Order \<Rightarrow> Order" where
  "synced br b i order = (case brGetOrderStatus br i b of Inl _ \<Rightarrow> order | Inr s \<Rightarrow> order\<lparr>ordStatus := s\<rparr>)"

lemma sync_one_lookup:
  "fmlookup (omOrders (sync_one br b x om)) i =
     (if i = x then map_option (synced br b x) (fmlookup (omOrders om) x) else fmlookup (omOrders om) i)"
  by (cases "fmlookup (omOrders om) x")
    (auto simp: sync_one_def UpdateOrderStatus_def removePending_def synced_def Let_def split: sum.split)

lemma sync_one_pending:
  "distinct (omPending om) \<Longrightarrow> fmlookup (omOrders om) x \<noteq> None \<Longrightarrow>
     omPending (sync_one br b x om) = filter (\<lambda>i. i \<noteq> x \<or> still_open br b x) (omPending om)"
  by (auto simp: sync_one_def UpdateOrderStatus_def removePending_def still_open_def Let_def
      distinct_remove1_removeAll removeAll_filter_not_eq split: sum.split option.split intro: filter_cong)

lemma sync_fold:
  assumes "distinct xs" "distinct (omPending om)" "\<And>i. i \<in> set xs \<Longrightarrow> fmlookup (omOrders om) i \<noteq> None"
  shows "omPending (fold (sync_one br b) xs om) = filter (\<lambda>i. i \<notin> set xs \<or> still_open br b i) (omPending om) \<and>
    (\<forall>i. fmlookup (omOrders (fold (sync_one br b) xs om)) i =
       (if i \<in> set xs then map_option (synced br b i) (fmlookup (omOrders om) i) else fmlookup (omOrders om) i))"
  using assms
proof (induction xs arbitrary: om)
  case (Cons x xs)
  have p: "omPending (sync_one br b x om) = filter (\<lambda>i. i \<noteq> x \<or> still_open br b x) (omPending om)"
    by (rule sync_one_pending) (use Cons.prems in auto)
  have "omPending (fold (sync_one br b) xs (sync_one br b x om)) =
        filter (\<lambda>i. i \<notin> set xs \<or> still_open br b i) (omPending (sync_one br b x om)) \<and>
      (\<forall>i. fmlookup (omOrders (fold (sync_one br b) xs (sync_one br b x om))) i =
       (if i \<in> set xs then map_option (synced br b i) (fmlookup (omOrders (sync_one br b x om)) i)
        else fmlookup (omOrders (sync_one br b x om)) i))"
    by (rule Cons.IH) (use Cons.prems in \<open>auto simp: p sync_one_lookup\<close>)
  then show ?case
    using Cons.prems by (auto simp: p sync_one_lookup intro!: filter_cong)
qed simp

lemma sim_sync:
  assumes "sim.inv (om, b)"
  shows "omPending (fst (syncOrderStatus (sim_broker now) (om, b))) =
      filter (\<lambda>i. \<not> terminal_status (ordStatus (the (fmlookup (sbOrders b) i)))) (omPending om) \<and>
    (\<forall>i \<in> set (omPending om). \<exists>order border. om_GetOrder i om = Some order \<and> fmlookup (sbOrders b) i = Some border \<and>
       om_GetOrder i (fst (syncOrderStatus (sim_broker now) (om, b))) = Some (order\<lparr>ordStatus := ordStatus border\<rparr>))"
proof -
  have d: "distinct (omPending om)" and rec: "\<And>i. i \<in> set (omPending om) \<Longrightarrow> fmlookup (omOrders om) i \<noteq> None"
    and kn: "\<And>i. i \<in> set (omPending om) \<Longrightarrow> fmlookup (sbOrders b) i \<noteq> None"
    using assms by (auto simp: sim.inv_def book_ok_def sim_known_def fmlookup_dom_iff)
  note f = sync_fold [OF d d rec, of "sim_broker now" b]
  have o: "still_open (sim_broker now) b i \<longleftrightarrow> \<not> terminal_status (ordStatus (the (fmlookup (sbOrders b) i)))"
    "synced (sim_broker now) b i = (\<lambda>order. order\<lparr>ordStatus := ordStatus (the (fmlookup (sbOrders b) i))\<rparr>)"
    if "i \<in> set (omPending om)" for i
    using kn [OF that] by (auto simp: still_open_def synced_def sim_broker_def sb_GetOrderStatus_def)
  have "filter (\<lambda>i. i \<notin> set (omPending om) \<or> still_open (sim_broker now) b i) (omPending om) =
      filter (\<lambda>i. \<not> terminal_status (ordStatus (the (fmlookup (sbOrders b) i)))) (omPending om)"
    by (rule filter_cong) (simp_all add: o)
  with f rec kn show ?thesis by (fastforce simp: syncOrderStatus_def om_GetOrder_def o)
qed

text \<open>C21: one round of status synchronisation, in any state the manager and the simulated broker reach,
  makes the manager agree with the broker: each order that was pending is recorded with the broker's
  status, exactly the ones the broker reports as filled, cancelled or rejected leave the pending list
  (in order), and the broker itself is not touched.\<close>

theorem sync_agrees_with_broker:
  assumes "(om_step sim_broker manager_ids sim_ext)\<^sup>*\<^sup>* (NewOrderManager, NewSimulatedBroker balance) (om, b)"
    and "syncOrderStatus (sim_broker now) (om, b) = (om', b')"
  shows "b' = b \<and>
         omPending om' = filter (\<lambda>i. \<not> terminal_status (ordStatus (the (fmlookup (sbOrders b) i)))) (omPending om) \<and>
         (\<forall>i \<in> set (omPending om). \<exists>order border. om_GetOrder i om = Some order \<and>
            fmlookup (sbOrders b) i = Some border \<and> om_GetOrder i om' = Some (order\<lparr>ordStatus := ordStatus border\<rparr>))"
proof -
  have "sim.inv (om, b)" using sim.inv_run [OF assms(1) sim_inv_start] by blast
  from sim_sync [OF this, of now] show ?thesis unfolding assms(2) using assms(2) by (simp add: syncOrderStatus_def)
qed

text \<open>C20: a market order that the manager accepts is complete one synchronisation later: it is recorded
  as filled, with the symbol, direction and quantity that were submitted, and it is no longer pending. An order that passes the checks is
  accepted whenever the broker is connected.\<close>

theorem market_order_completes:
  assumes "(om_step sim_broker manager_ids sim_ext)\<^sup>*\<^sup>* (NewOrderManager, NewSimulatedBroker balance) (om, b)"
    and "gid \<in> manager_ids" "om_GetOrder gid om = None"
    and "ordOrderType order = OrderTypeMarket"
    and "validateOrderShape order = None" "cage_check om order = None" "sbConnected b"
  shows "\<exists>i st filled. om_SubmitOrder gid now (sim_broker now) order (om, b) = (Inr i, st) \<and>
           i \<notin> set (omPending (fst (syncOrderStatus (sim_broker later) st))) \<and>
           om_GetOrder i (fst (syncOrderStatus (sim_broker later) st)) = Some filled \<and> ordStatus filled = ''filled'' \<and>
           ordSymbol filled = ordSymbol order \<and> ordDirection filled = ordDirection order \<and>
           ordQuantity filled = ordQuantity order"
proof -
  let ?o = "order\<lparr>ordID := gid, ordStatus := ''pending'', ordTimestamp := now\<rparr>"
  have i: "sim.inv (om, b)" using sim.inv_run [OF assms(1) sim_inv_start] by blast
  obtain j c where s: "sb_SubmitOrder now ?o b = (Inr j, c)"
    using assms(7) by (simp add: sb_SubmitOrder_def Let_def)
  then have j: "j \<noteq> []" and f: "ordStatus (the (fmlookup (sbOrders c) j)) = ''filled''"
    using sb_SubmitOrder_Inr [OF s] assms(4) by auto
  define om1 where "om1 = addPending j (saveOrder (order\<lparr>ordTimestamp := now, ordID := j, ordStatus := ''submitted''\<rparr>) om)"
  have e: "om_SubmitOrder gid now (sim_broker now) order (om, b) = (Inr j, (om1, c))"
    using assms(5,6) s j by (simp add: om_SubmitOrder_def sim_broker_def Let_def om1_def)
  have "sim.inv (om1, c)"
    using sim.inv_submit [OF i assms(2), of now order] assms(3) by (simp add: e om_GetOrder_def)
  from sim_sync [OF this, of later] f have
    "j \<notin> set (omPending (fst (syncOrderStatus (sim_broker later) (om1, c))))"
    "om_GetOrder j (fst (syncOrderStatus (sim_broker later) (om1, c))) =
       Some (order\<lparr>ordTimestamp := now, ordID := j, ordStatus := ''filled''\<rparr>)"
    by (auto simp: terminal_status_def om_GetOrder_def om1_def addPending_def saveOrder_def)
  with e show ?thesis by auto
qed

text \<open>cancelling through the manager succeeds only for an order that is recorded as pending or
  submitted and that the simulated broker has not filled; then both sides record it as cancelled, it is
  no longer pending, and every other order is untouched on both sides. In every other case neither the
  manager nor the broker changes at all.\<close>

lemma cancel_outcome:
  assumes "(om_step sim_broker manager_ids sim_ext)\<^sup>*\<^sup>* (NewOrderManager, NewSimulatedBroker balance) (om, b)"
    and "om_CancelOrder (sim_broker now) oid (om, b) = (r, (om', b'))"
  shows "(case r of
            Some e \<Rightarrow> om' = om \<and> b' = b
          | None \<Rightarrow> (\<exists>order border. om_GetOrder oid om = Some order \<and> fmlookup (sbOrders b) oid = Some border \<and>
               ordStatus order \<in> {''pending'', ''submitted''} \<and> ordStatus border \<noteq> ''filled'' \<and>
               omOrders om' = fmupd oid (order\<lparr>ordStatus := ''cancelled''\<rparr>) (omOrders om) \<and>
               sbOrders b' = fmupd oid (border\<lparr>ordStatus := ''cancelled''\<rparr>) (sbOrders b) \<and>
               oid \<notin> set (omPending om') \<and> omPending om' = removeAll oid (omPending om)))"
proof -
  have i: "sim.inv (om, b)" using sim.inv_run [OF assms(1) sim_inv_start] by blast
  then have d: "distinct (omPending om)" "\<And>order. fmlookup (omOrders om) oid = Some order \<Longrightarrow> ordID order = oid"
    by (auto simp: sim.inv_def book_ok_def)
  then show ?thesis using assms(2)
    by (auto simp: om_CancelOrder_def sim_broker_def sb_CancelOrder_def om_GetOrder_def removePending_def
        saveOrder_def distinct_remove1_removeAll split: option.splits if_splits)
qed

section \<open>Examples\<close>

definition sample_limit :: Order where
  "sample_limit = \<lparr>ordID = [], ordSymbol = ''600000.SH'', ordDirection = DirectionLong,
     ordOrderType = OrderTypeLimit, ordQuantity = Fin 100, ordLimitPrice = Fin 10, ordStopPrice = Fin 0,
     ordTrailAmount = Fin 0, ordTrailPercent = Fin 0, ordHighWaterMark = Fin 0, ordTimestamp = 0,
     ordFilledQty = Fin 0, ordFillPrice = Fin 0, ordStatus = []\<rparr>"

definition sample_live :: "OrderManager \<times> SimulatedBroker" where
  "sample_live = (NewOrderManager, Connect (NewSimulatedBroker (Fin 1000)))"

definition sample_book :: "OrderManager \<times> SimulatedBroker" where
  "sample_book = snd (om_SubmitOrder ''ORD-1'' 5 (sim_broker 5) sample_limit sample_live)"

definition sample_cancelled :: "OrderManager \<times> SimulatedBroker" where
  "sample_cancelled = snd (om_CancelOrder (sim_broker 6) (sim_id 1) sample_book)"

lemma sample_live_reached:
  "(om_step sim_broker manager_ids sim_ext)\<^sup>*\<^sup>* (NewOrderManager, NewSimulatedBroker (Fin 1000)) sample_live"
  unfolding sample_live_def by (intro r_into_rtranclp om_step.broker sim_ext.intros)

lemma sample_book_step: "om_step sim_broker manager_ids sim_ext sample_live sample_book"
  unfolding sample_book_def sample_live_def
  by (rule om_step.submit) (simp_all add: manager_ids_def NewOrderManager_def)

lemma sample_book_reached:
  "(om_step sim_broker manager_ids sim_ext)\<^sup>*\<^sup>* (NewOrderManager, NewSimulatedBroker (Fin 1000)) (fst sample_book, snd sample_book)"
  using rtranclp.rtrancl_into_rtrancl [OF sample_live_reached sample_book_step] by simp

lemma sample_cancelled_reached:
  "(om_step sim_broker manager_ids sim_ext)\<^sup>*\<^sup>* (fst sample_book, snd sample_book) (fst sample_cancelled, snd sample_cancelled)"
  using om_step.cancel [of sim_broker manager_ids sim_ext sample_book 6 "sim_id 1"]
  unfolding sample_cancelled_def prod.collapse by blast


theorem sync_agrees_with_broker_witness:
  "omPending (fst (syncOrderStatus (sim_broker 7) sample_book)) = [''SIM-ORD-1''] \<and>
   snd (syncOrderStatus (sim_broker 7) sample_book) = snd sample_book"
proof -
  have "omPending (fst sample_book) = [''SIM-ORD-1'']"
    "\<not> terminal_status (ordStatus (the (fmlookup (sbOrders (snd sample_book)) ''SIM-ORD-1'')))" by code_simp+
  then show ?thesis
    using sync_agrees_with_broker [OF sample_book_reached, of 7 "fst (syncOrderStatus (sim_broker 7) sample_book)"
      "snd (syncOrderStatus (sim_broker 7) sample_book)"] by simp
qed

theorem market_order_completes_witness:
  "\<exists>i st filled. om_SubmitOrder ''ORD-1'' 5 (sim_broker 5) (sample_limit\<lparr>ordOrderType := OrderTypeMarket\<rparr>) sample_live = (Inr i, st) \<and>
     i \<notin> set (omPending (fst (syncOrderStatus (sim_broker 7) st))) \<and>
     om_GetOrder i (fst (syncOrderStatus (sim_broker 7) st)) = Some filled \<and> ordStatus filled = ''filled'' \<and>
     ordSymbol filled = ''600000.SH'' \<and> ordQuantity filled = Fin 100"
proof -
  let ?o = "sample_limit\<lparr>ordOrderType := OrderTypeMarket\<rparr>"
  have "validateOrderShape ?o = None" "cage_check (fst sample_live) ?o = None" "sbConnected (snd sample_live)"
    "om_GetOrder ''ORD-1'' (fst sample_live) = None" by code_simp+
  moreover have "''ORD-1'' \<in> manager_ids" by (simp add: manager_ids_def)
  moreover have "(om_step sim_broker manager_ids sim_ext)\<^sup>*\<^sup>* (NewOrderManager, NewSimulatedBroker (Fin 1000))
      (fst sample_live, snd sample_live)" using sample_live_reached by simp
  moreover have "ordSymbol ?o = ''600000.SH''" "ordQuantity ?o = Fin 100" by (simp_all add: sample_limit_def)
  ultimately show ?thesis
    using market_order_completes [of "Fin 1000" "fst sample_live" "snd sample_live" "''ORD-1''" ?o 5 7] by auto
qed

section \<open>Net positions of the position manager\<close>

definition trade_sign :: "(Trade \<Rightarrow> int) \<Rightarrow> symbol \<Rightarrow> Trade \<Rightarrow> int" where
  "trade_sign k symb tr =
     (if trSymbol tr \<noteq> symb then 0 else if trDirection tr = DirectionLong then k tr else - k tr)"

definition net_shares :: "(Trade \<Rightarrow> int) \<Rightarrow> symbol \<Rightarrow> Trade list \<Rightarrow> int" where
  "net_shares k symb trs = sum_list (map (trade_sign k symb) trs)"

definition pm_holds :: "PositionManager \<Rightarrow> (symbol \<Rightarrow> int) \<Rightarrow> bool" where
  "pm_holds pm q \<longleftrightarrow> (\<forall>s. case fmlookup pm s of None \<Rightarrow> q s = 0 | Some p \<Rightarrow> posQuantity p = shares (q s))"

lemma UpdateFromTrade_holds:
  assumes "pm_holds pm q" "trQuantity tr = shares (k tr)"
    and "\<bar>q (trSymbol tr) + trade_sign k (trSymbol tr) tr\<bar> \<le> 2 ^ 53"
  shows "pm_holds (UpdateFromTrade tr pm) (\<lambda>s. q s + trade_sign k s tr)"
proof -
  let ?p = "case fmlookup pm (trSymbol tr) of None \<Rightarrow> zero_Position (trSymbol tr) | Some p \<Rightarrow> p"
  have p: "posQuantity ?p = shares (q (trSymbol tr))"
    using assms(1) by (auto simp: pm_holds_def zero_Position_def dest!: spec [of _ "trSymbol tr"] split: option.splits)
  have "fadd (posQuantity ?p) (trQuantity tr) = shares (q (trSymbol tr) + k tr)" if "trDirection tr = DirectionLong"
    unfolding p assms(2) by (rule fadd_int) (use assms(3) that in \<open>simp add: trade_sign_def\<close>)
  moreover have "fsub (posQuantity ?p) (trQuantity tr) = shares (q (trSymbol tr) - k tr)" if "trDirection tr \<noteq> DirectionLong"
    unfolding p assms(2) by (rule fsub_int) (use assms(3) that in \<open>simp add: trade_sign_def\<close>)
  ultimately have t: "\<exists>p. fmlookup (UpdateFromTrade tr pm) (trSymbol tr) = Some p \<and>
      posQuantity p = shares (q (trSymbol tr) + trade_sign k (trSymbol tr) tr)"
    by (auto simp: UpdateFromTrade_def Let_def trade_sign_def simp del: of_int_add of_int_diff)
  have u: "fmlookup (UpdateFromTrade tr pm) s = fmlookup pm s \<and> trade_sign k s tr = 0" if "s \<noteq> trSymbol tr" for s
    using that by (simp add: UpdateFromTrade_def Let_def trade_sign_def)
  show ?thesis unfolding pm_holds_def
  proof
    fix s show "case fmlookup (UpdateFromTrade tr pm) s of None \<Rightarrow> q s + trade_sign k s tr = 0
        | Some p \<Rightarrow> posQuantity p = shares (q s + trade_sign k s tr)"
      using t u [of s] spec [OF assms(1) [unfolded pm_holds_def], of s]
      by (cases "s = trSymbol tr") (auto split: option.splits)
  qed
qed

lemma UpdateFromTrade_net:
  assumes "\<forall>tr \<in> set trs. trQuantity tr = shares (k tr) \<and> 0 \<le> k tr"
    and "(\<Sum>tr\<leftarrow>trs. k tr) \<le> 2 ^ 53"
  shows "pm_holds (fold UpdateFromTrade trs fmempty) (\<lambda>s. net_shares k s trs) \<and>
    \<bar>net_shares k s trs\<bar> \<le> (\<Sum>tr\<leftarrow>trs. k tr)"
  using assms
proof (induction trs arbitrary: s rule: rev_induct)
  case (snoc tr trs)
  then have k: "0 \<le> k tr" "(\<Sum>tr\<leftarrow>trs. k tr) \<le> 2 ^ 53" by auto
  have b: "\<bar>trade_sign k s tr\<bar> \<le> k tr" for s using k by (auto simp: trade_sign_def)
  from snoc k have n: "\<bar>net_shares k s trs\<bar> \<le> (\<Sum>tr\<leftarrow>trs. k tr)" for s by simp
  have "\<bar>net_shares k (trSymbol tr) trs + trade_sign k (trSymbol tr) tr\<bar> \<le> 2 ^ 53"
    using b [of "trSymbol tr"] n [of "trSymbol tr"] snoc.prems(2) by simp
  then have "pm_holds (fold UpdateFromTrade (trs @ [tr]) fmempty) (\<lambda>s. net_shares k s trs + trade_sign k s tr)"
    using snoc k by (auto intro!: UpdateFromTrade_holds)
  then show ?case using b [of s] n [of s] by (simp add: net_shares_def)
qed (simp add: pm_holds_def net_shares_def)

text \<open>the position manager nets the reported fills exactly: after any sequence of fills of whole
  shares (up to \<open>2\<^sup>5\<^sup>3\<close> in total) a symbol's quantity is the shares bought minus the shares sold, and
  \<open>HasPosition\<close> answers yes exactly when that difference is not zero.\<close>

lemma position_manager_nets:
  assumes "\<forall>tr \<in> set trs. trQuantity tr = shares (k tr) \<and> 0 \<le> k tr"
    and "(\<Sum>tr\<leftarrow>trs. k tr) \<le> 2 ^ 53"
  shows "(case fmlookup (fold UpdateFromTrade trs fmempty) symb of
            None \<Rightarrow> net_shares k symb trs = 0
          | Some position \<Rightarrow> posQuantity position = shares (net_shares k symb trs)) \<and>
         pm_HasPosition symb (fold UpdateFromTrade trs fmempty) = (net_shares k symb trs \<noteq> 0)"
  using UpdateFromTrade_net [OF assms, of symb]
  by (auto simp: pm_holds_def pm_HasPosition_def feq_def dest!: spec [of _ symb] split: option.splits)

definition sample_fill :: "Direction \<Rightarrow> int \<Rightarrow> Trade" where
  "sample_fill dir n = \<lparr>trID = ''t'', trSymbol = ''600000.SH'', trDirection = dir, trQuantity = shares n,
     trPrice = Fin 8, trCommission = Fin 0, trTransferFee = Fin 0, trStampTax = Fin 0, trTimestamp = 0,
     trPendingQty = Fin 0, trFilledQty = Fin 0\<rparr>"

end
