(* ===== verification/Decimal.thy ===== *)
theory Decimal
  imports Market Float64_Math "HOL-Library.Signed_Division"
begin

text \<open>
  The fixed-point decimal type (\<open>src/pkg/decimal/decimal.go\<close>). A decimal is an \<open>int64\<close> unscaled value
  and a scale; \<open>dec_val\<close> is the rational it stands for. Go's \<open>int64\<close> is \<^typ>\<open>int\<close> with the wrap-around
  \<open>i64\<close> written at every operation that can leave the range; Go's \<open>/\<close> and \<open>%\<close> truncate and are
  \<open>sdiv\<close> and \<open>smod\<close>. The powers of ten go through \<open>math.Pow10\<close> in the source, which is exact for the
  exponents up to 18 that occur; \<open>FromFloat\<close> uses \<open>math.Pow\<close>, exact there too. The scale is a natural number: every constructor clamps it to 0..18.
  \<open>MustFromString\<close>, the plain accessors and the \<open>fmt\<close> verbs are left out. The properties: printing and
  parsing are inverse; addition, subtraction, comparison and multiplication are exact where the
  unscaled values fit; rounding is to nearest; division is within half a unit of the last place. The
  lemmas at the end show the inputs on which the code does not meet its comments.
\<close>

section \<open>Machine integers\<close>

definition i64 :: "int \<Rightarrow> int" where
  "i64 x = (x + 2 ^ 63) mod 2 ^ 64 - 2 ^ 63"

definition in_i64 :: "int \<Rightarrow> bool" where
  "in_i64 x \<longleftrightarrow> - (2 ^ 63) \<le> x \<and> x < 2 ^ 63"

definition i64_abs :: "int \<Rightarrow> int" where
  "i64_abs x = (if x < 0 then i64 (- x) else x)"

definition FormatInt :: "int \<Rightarrow> string" where
  "FormatInt x = (if x < 0 then CHR ''-'' # itoa (nat (- x)) else itoa (nat x))"

text \<open>\<open>strconv.ParseInt(s, 10, 64)\<close> on a non-empty string of digits.\<close>

definition ParseInt :: "string \<Rightarrow> int option" where
  "ParseInt s = (if int (digits_val s) < 2 ^ 63 then Some (int (digits_val s)) else None)"

section \<open>Decimals\<close>

definition MaxScale :: nat where
  "MaxScale = 18"

record Decimal =
  dValue :: int
  dScale :: nat

datatype decimal_error = ErrDivisionByZero | ErrInvalidFormat

definition decimal_Zero :: Decimal where
  "decimal_Zero = \<lparr>dValue = 0, dScale = 0\<rparr>"

definition decimal_One :: Decimal where
  "decimal_One = \<lparr>dValue = 1, dScale = 0\<rparr>"

definition clampScale :: "int \<Rightarrow> nat" where
  "clampScale s = (if s < 0 then 0 else if s > int MaxScale then MaxScale else nat s)"

definition decimal_New :: "int \<Rightarrow> int \<Rightarrow> Decimal" where
  "decimal_New unscaled scale = \<lparr>dValue = unscaled, dScale = clampScale scale\<rparr>"

definition FromInt :: "int \<Rightarrow> Decimal" where
  "FromInt i = \<lparr>dValue = i, dScale = 0\<rparr>"

text \<open>
  Go leaves the conversion of a float outside the \<open>int64\<close> range to the implementation: that value is
  the argument \<open>outside\<close>.
\<close>

definition f64_to_i64 :: "(f64 \<Rightarrow> int) \<Rightarrow> f64 \<Rightarrow> int" where
  "f64_to_i64 outside x =
     (case x of Fin r \<Rightarrow> (let t = (if 0 \<le> r then \<lfloor>r\<rfloor> else \<lceil>r\<rceil>) in if in_i64 t then t else outside x)
      | MZero \<Rightarrow> 0 | _ \<Rightarrow> outside x)"

definition FromFloat :: "(f64 \<Rightarrow> int) \<Rightarrow> f64 \<Rightarrow> int \<Rightarrow> Decimal" where
  "FromFloat outside f precision =
     (let p = clampScale precision
      in \<lparr>dValue = f64_to_i64 outside (math_Round (fmul f (fint (10 ^ p)))), dScale = p\<rparr>)"

definition allDigits :: "string \<Rightarrow> bool" where
  "allDigits s \<longleftrightarrow> s \<noteq> [] \<and> list_all is_digit_char s"

definition parse_sign :: "string \<Rightarrow> bool \<times> string" where
  "parse_sign s =
     (case s of
        c # r \<Rightarrow> (if c = CHR ''-'' then (True, r) else if c = CHR ''+'' then (False, r) else (False, s))
      | [] \<Rightarrow> (False, s))"

text \<open>The part before the first dot, and the part after it if there is one.\<close>

definition split_dot :: "string \<Rightarrow> string \<times> string option" where
  "split_dot s =
     (case dropWhile (\<lambda>c. c \<noteq> CHR ''.'') s of
        [] \<Rightarrow> (s, None) | _ # r \<Rightarrow> (takeWhile (\<lambda>c. c \<noteq> CHR ''.'') s, Some r))"

definition FromString :: "string \<Rightarrow> decimal_error + Decimal" where
  "FromString s =
     (let s = TrimSpace s
      in if s = [] then Inl ErrInvalidFormat
         else let (neg, s) = parse_sign s
      in if s = [] then Inl ErrInvalidFormat
         else let (intPart, frac) = split_dot s;
                  intPart = (if frac \<noteq> None \<and> intPart = [] then ''0'' else intPart);
                  fracPart = (case frac of None \<Rightarrow> [] | Some f \<Rightarrow> f)
      in if CHR ''.'' \<in> set fracPart then Inl ErrInvalidFormat
         else if intPart = [] \<or> \<not> allDigits intPart then Inl ErrInvalidFormat
         else if fracPart \<noteq> [] \<and> \<not> allDigits fracPart then Inl ErrInvalidFormat
         else let fracPart = take MaxScale fracPart
      in case ParseInt (intPart @ fracPart) of
           None \<Rightarrow> Inl ErrInvalidFormat
         | Some iv \<Rightarrow> Inr \<lparr>dValue = (if neg then - iv else iv), dScale = length fracPart\<rparr>)"

definition ToFloat :: "Decimal \<Rightarrow> f64" where
  "ToFloat d = fdiv (fint (dValue d)) (fint (10 ^ dScale d))"

text \<open>The loop of \<open>ToString\<close> that prepends zeros until there are more than \<open>scale\<close> digits.\<close>

definition pad_zeros :: "nat \<Rightarrow> string \<Rightarrow> string" where
  "pad_zeros n digits = replicate (Suc n - length digits) CHR ''0'' @ digits"

definition ToString :: "Decimal \<Rightarrow> string" where
  "ToString d =
     (if dValue d = 0 then (if dScale d = 0 then ''0'' else ''0.'' @ replicate (dScale d) CHR ''0'')
      else let neg = dValue d < 0;
               v = (if neg then i64 (- dValue d) else dValue d);
               digits = FormatInt v
           in if dScale d = 0 then (if neg then ''-'' @ digits else digits)
              else let digits = pad_zeros (dScale d) digits;
                       dotPos = length digits - dScale d;
                       out = take dotPos digits @ ''.'' @ drop dotPos digits
                   in if neg then ''-'' @ out else out)"

definition rescale :: "Decimal \<Rightarrow> nat \<Rightarrow> Decimal" where
  "rescale d target =
     (if target = dScale d then d
      else if target < dScale d then d
      else \<lparr>dValue = i64 (dValue d * 10 ^ (target - dScale d)), dScale = target\<rparr>)"

definition alignScale :: "Decimal \<Rightarrow> Decimal \<Rightarrow> Decimal \<times> Decimal" where
  "alignScale a b =
     (if dScale a = dScale b then (a, b)
      else if dScale b < dScale a then (a, rescale b (dScale a))
      else (rescale a (dScale b), b))"

definition decimal_Add :: "Decimal \<Rightarrow> Decimal \<Rightarrow> Decimal" where
  "decimal_Add a b = (let (a, b) = alignScale a b in \<lparr>dValue = i64 (dValue a + dValue b), dScale = dScale a\<rparr>)"

definition decimal_Sub :: "Decimal \<Rightarrow> Decimal \<Rightarrow> Decimal" where
  "decimal_Sub a b = (let (a, b) = alignScale a b in \<lparr>dValue = i64 (dValue a - dValue b), dScale = dScale a\<rparr>)"

definition willOverflow :: "int \<Rightarrow> int \<Rightarrow> bool" where
  "willOverflow a b =
     (if a = 0 \<or> b = 0 then False
      else let absA = i64_abs a; absB = i64_abs b
           in if absA < 0 \<or> absB < 0 then True else absA > (2 ^ 63 - 1) sdiv absB)"

text \<open>The loop of \<open>Mul\<close>: at scale zero it stops, by its condition or by the \<open>break\<close>.\<close>

fun mul_loop :: "nat \<Rightarrow> int \<Rightarrow> int \<Rightarrow> nat \<times> int \<times> int" where
  "mul_loop 0 av bv = (0, av, bv)"
| "mul_loop (Suc n) av bv =
     (if Suc n > MaxScale \<or> willOverflow av bv
      then mul_loop n (if av \<noteq> 0 then av sdiv 10 else av) (if bv \<noteq> 0 then bv sdiv 10 else bv)
      else (Suc n, av, bv))"

definition decimal_Mul :: "Decimal \<Rightarrow> Decimal \<Rightarrow> Decimal" where
  "decimal_Mul a b =
     (let (resultScale, av, bv) = mul_loop (dScale a + dScale b) (dValue a) (dValue b)
      in \<lparr>dValue = i64 (av * bv), dScale = clampScale (int resultScale)\<rparr>)"

text \<open>The loops of \<open>Div\<close> that shift the numerator.\<close>

fun scale_up :: "nat \<Rightarrow> int \<Rightarrow> int" where
  "scale_up 0 x = x"
| "scale_up (Suc n) x = (if x > 2 ^ 62 \<or> x < - (2 ^ 62) then x else scale_up n (i64 (x * 10)))"

fun scale_down :: "nat \<Rightarrow> int \<Rightarrow> int" where
  "scale_down 0 x = x"
| "scale_down (Suc n) x = scale_down n (x sdiv 10)"

definition round_quotient :: "int \<Rightarrow> int \<Rightarrow> int" where
  "round_quotient numerator b =
     (let quotient = i64 (numerator sdiv b);
          remainder = numerator smod b
      in if remainder \<noteq> 0 \<and> i64 (2 * i64_abs remainder) > i64_abs b
         then (if (numerator < 0 \<and> b > 0) \<or> (numerator > 0 \<and> b < 0) then i64 (quotient - 1) else i64 (quotient + 1))
         else quotient)"

definition decimal_Div :: "Decimal \<Rightarrow> Decimal \<Rightarrow> int \<Rightarrow> decimal_error + Decimal" where
  "decimal_Div a b resultScale =
     (if dValue b = 0 then Inl ErrDivisionByZero
      else let resultScale = clampScale resultScale;
               shift = int resultScale + int (dScale b) - int (dScale a);
               numerator = (if shift > 0 then scale_up (nat shift) (dValue a)
                            else if shift < 0 then scale_down (nat (- shift)) (dValue a)
                            else dValue a)
           in Inr \<lparr>dValue = round_quotient numerator (dValue b), dScale = resultScale\<rparr>)"

definition decimal_Neg :: "Decimal \<Rightarrow> Decimal" where
  "decimal_Neg d = \<lparr>dValue = i64 (- dValue d), dScale = dScale d\<rparr>"

definition decimal_Abs :: "Decimal \<Rightarrow> Decimal" where
  "decimal_Abs d = (if dValue d < 0 then \<lparr>dValue = i64 (- dValue d), dScale = dScale d\<rparr> else d)"

definition decimal_Equal :: "Decimal \<Rightarrow> Decimal \<Rightarrow> bool" where
  "decimal_Equal a b = (let (a, b) = alignScale a b in dValue a = dValue b)"

definition LessThan :: "Decimal \<Rightarrow> Decimal \<Rightarrow> bool" where
  "LessThan a b = (let (a, b) = alignScale a b in dValue a < dValue b)"

definition GreaterThan :: "Decimal \<Rightarrow> Decimal \<Rightarrow> bool" where
  "GreaterThan a b = (let (a, b) = alignScale a b in dValue a > dValue b)"

definition LessThanOrEqual :: "Decimal \<Rightarrow> Decimal \<Rightarrow> bool" where
  "LessThanOrEqual a b = (let (a, b) = alignScale a b in dValue a \<le> dValue b)"

definition GreaterThanOrEqual :: "Decimal \<Rightarrow> Decimal \<Rightarrow> bool" where
  "GreaterThanOrEqual a b = (let (a, b) = alignScale a b in dValue a \<ge> dValue b)"

definition decimal_Compare :: "Decimal \<Rightarrow> Decimal \<Rightarrow> int" where
  "decimal_Compare a b =
     (let (a, b) = alignScale a b
      in if dValue a < dValue b then - 1 else if dValue a > dValue b then 1 else 0)"

definition decimal_Round :: "Decimal \<Rightarrow> int \<Rightarrow> Decimal" where
  "decimal_Round d places =
     (let places = clampScale places
      in if places \<ge> dScale d then rescale d places
         else let pow = 10 ^ (dScale d - places);
                  half = pow sdiv 2;
                  v = dValue d;
                  v = (if v < 0
                       then let remainder = i64_abs (v smod pow) in if remainder \<ge> half then i64 (v - pow) else v
                       else if v smod pow \<ge> half then i64 (v + pow) else v)
              in \<lparr>dValue = i64 (v sdiv pow * pow) sdiv pow, dScale = places\<rparr>)"

definition MulRound :: "Decimal \<Rightarrow> Decimal \<Rightarrow> int \<Rightarrow> Decimal" where
  "MulRound a b resultScale = decimal_Round (decimal_Mul a b) resultScale"

definition decimal_Ceiling :: "Decimal \<Rightarrow> Decimal" where
  "decimal_Ceiling d =
     (if dScale d = 0 then d
      else let pow = 10 ^ dScale d; v = dValue d sdiv pow
           in \<lparr>dValue = (if dValue d > 0 \<and> dValue d smod pow \<noteq> 0 then i64 (v + 1) else v), dScale = 0\<rparr>)"

definition decimal_Floor :: "Decimal \<Rightarrow> Decimal" where
  "decimal_Floor d =
     (if dScale d = 0 then d
      else let pow = 10 ^ dScale d; v = dValue d sdiv pow
           in \<lparr>dValue = (if dValue d < 0 \<and> dValue d smod pow \<noteq> 0 then i64 (v - 1) else v), dScale = 0\<rparr>)"

definition decimal_Truncate :: "Decimal \<Rightarrow> int \<Rightarrow> Decimal" where
  "decimal_Truncate d places =
     (let places = nat (max 0 places)
      in if places \<ge> dScale d then d
         else \<lparr>dValue = dValue d sdiv 10 ^ (dScale d - places), dScale = places\<rparr>)"

definition MarshalJSON :: "Decimal \<Rightarrow> string" where
  "MarshalJSON d = ''\"'' @ ToString d @ ''\"''"

definition trim_quotes :: "string \<Rightarrow> string" where
  "trim_quotes s = rev (dropWhile (\<lambda>c. c = CHR 0x22) (rev (dropWhile (\<lambda>c. c = CHR 0x22) s)))"

definition UnmarshalJSON :: "string \<Rightarrow> decimal_error + Decimal" where
  "UnmarshalJSON data =
     (let s = trim_quotes data in if s = [] \<or> s = ''null'' then Inr decimal_Zero else FromString s)"

section \<open>Machine integer lemmas\<close>

lemma i64_id [simp]: "in_i64 x \<Longrightarrow> i64 x = x"
  by (simp add: i64_def in_i64_def)

lemma i64_range: "in_i64 (i64 x)"
  by (simp add: i64_def in_i64_def)

lemma in_i64_abs: "\<bar>x\<bar> < 2 ^ 63 \<Longrightarrow> in_i64 x"
  by (auto simp: in_i64_def)

lemma i64_abs_eq [simp]: "\<bar>x\<bar> < 2 ^ 63 \<Longrightarrow> i64_abs x = \<bar>x\<bar>"
  by (simp add: i64_abs_def in_i64_def)

section \<open>Printing and parsing\<close>

lemma digits_val_append: "digits_val (s @ t) = digits_val s * 10 ^ length t + digits_val t"
  by (induction t rule: rev_induct) (simp_all add: digits_val_snoc algebra_simps flip: append_assoc, simp add: digits_val_def)

definition solid_char :: "char \<Rightarrow> bool" where
  "solid_char c \<longleftrightarrow> is_digit_char c \<or> c = CHR ''-''"

lemma cut_first_None: "(\<forall>e \<in> set es. e \<noteq> [] \<and> hd e \<noteq> c) \<Longrightarrow> cut_first es (c # s) = None"
proof (induction es)
  case (Cons e es)
  then show ?case by (cases e) auto
qed simp

lemma solid_not_space: "solid_char c \<Longrightarrow> e \<in> set (encodings b) \<Longrightarrow> e \<noteq> [] \<and> hd e \<noteq> c"
  by (cases b) (auto simp: encodings_def space_encodings_def solid_char_def is_digit_char_def)

lemma trim_side_solid: "s \<noteq> [] \<Longrightarrow> solid_char (hd s) \<Longrightarrow> trim_side b s = s"
  using cut_first_None [of "encodings b"] solid_not_space by (cases s) (auto simp: trim_side.simps)

lemma TrimSpace_solid: "s \<noteq> [] \<Longrightarrow> solid_char (hd s) \<Longrightarrow> solid_char (last s) \<Longrightarrow> TrimSpace s = s"
  by (simp add: TrimSpace_def trim_side_solid hd_rev)

lemma digit_not: "is_digit_char c \<Longrightarrow> c \<noteq> CHR ''.'' \<and> c \<noteq> CHR ''-'' \<and> c \<noteq> CHR ''+'' \<and> c \<noteq> CHR 0x22"
  by (auto simp: is_digit_char_def)

lemma allDigits_iff: "allDigits s \<longleftrightarrow> s \<noteq> [] \<and> (\<forall>c \<in> set s. is_digit_char c)"
  by (simp add: allDigits_def list_all_iff)

text \<open>What a printed decimal looks like: a sign, integer digits and, at a positive scale, a dot and the fraction.\<close>

definition numeral_text :: "bool \<Rightarrow> string \<Rightarrow> string \<Rightarrow> string" where
  "numeral_text neg ip fp = (if neg then ''-'' else []) @ ip @ (if fp = [] then [] else ''.'' @ fp)"

lemma numeral_text_ends:
  assumes "allDigits ip" "fp = [] \<or> allDigits fp"
  shows "numeral_text neg ip fp \<noteq> [] \<and> solid_char (hd (numeral_text neg ip fp)) \<and>
         solid_char (last (numeral_text neg ip fp))"
  using assms by (auto simp: numeral_text_def allDigits_iff solid_char_def hd_append)

lemma split_dot_no: "\<forall>c \<in> set s. c \<noteq> CHR ''.'' \<Longrightarrow> split_dot s = (s, None)"
  by (simp add: split_dot_def dropWhile_eq_Nil_conv [THEN iffD2])

lemma split_dot_some: "\<forall>c \<in> set s. c \<noteq> CHR ''.'' \<Longrightarrow> split_dot (s @ CHR ''.'' # t) = (s, Some t)"
  by (simp add: split_dot_def dropWhile_append2 takeWhile_append2)

lemma FromString_numeral:
  assumes "allDigits ip" "fp = [] \<or> allDigits fp" "length fp \<le> MaxScale" "int (digits_val (ip @ fp)) < 2 ^ 63"
  shows "FromString (numeral_text neg ip fp) =
    Inr \<lparr>dValue = (if neg then - int (digits_val (ip @ fp)) else int (digits_val (ip @ fp))), dScale = length fp\<rparr>"
proof -
  let ?r = "ip @ (if fp = [] then [] else ''.'' @ fp)"
  have ip: "ip \<noteq> []" "\<forall>c \<in> set ip. c \<noteq> CHR ''.''" "hd ip \<noteq> CHR ''-''" "hd ip \<noteq> CHR ''+''"
    and fp: "CHR ''.'' \<notin> set fp"
    using assms(1,2) digit_not by (auto simp: allDigits_iff)
  have sign: "parse_sign (numeral_text neg ip fp) = (neg, ?r)"
    using ip by (cases ip) (auto simp: parse_sign_def numeral_text_def)
  have dot: "fp = [] \<Longrightarrow> split_dot ip = (ip, None)" "fp \<noteq> [] \<Longrightarrow> split_dot (ip @ CHR ''.'' # fp) = (ip, Some fp)"
    by (simp_all add: split_dot_no split_dot_some ip(2))
  have trim: "TrimSpace (numeral_text neg ip fp) = numeral_text neg ip fp"
    using numeral_text_ends [OF assms(1,2)] by (simp add: TrimSpace_solid)
  show ?thesis
  proof -
    define t where "t = numeral_text neg ip fp"
    have t: "t \<noteq> []" "TrimSpace t = t" "parse_sign t = (neg, ?r)"
      using numeral_text_ends [OF assms(1,2), of neg] trim sign by (simp_all add: t_def)
    show ?thesis
      unfolding t_def [symmetric] using t ip(1) fp assms
      by (cases "fp = []") (simp_all add: FromString_def dot ParseInt_def)
  qed
qed

definition dec_wf :: "Decimal \<Rightarrow> bool" where
  "dec_wf d \<longleftrightarrow> \<bar>dValue d\<bar> < 2 ^ 63 \<and> dScale d \<le> MaxScale"

lemma pad_zeros_props:
  assumes "allDigits s"
  shows "allDigits (pad_zeros n s)" "n < length (pad_zeros n s)" "digits_val (pad_zeros n s) = digits_val s"
  using assms by (auto simp: pad_zeros_def allDigits_iff digits_val_zeros is_digit_char_def)

lemma allDigits_take_drop:
  assumes "allDigits s" "0 < k" "k < length s"
  shows "allDigits (take k s)" "allDigits (drop k s)"
  using assms by (auto simp: allDigits_iff dest: in_set_takeD in_set_dropD)

lemma ToString_numeral:
  assumes "dec_wf d"
  obtains ip fp where "ToString d = numeral_text (dValue d < 0) ip fp" "allDigits ip" "fp = [] \<or> allDigits fp"
    "length fp = dScale d" "int (digits_val (ip @ fp)) = \<bar>dValue d\<bar>"
proof (cases "dValue d = 0")
  case True
  have "digits_val (''0'' @ replicate (dScale d) CHR ''0'') = 0"
    using digits_val_zeros [of "Suc (dScale d)" "[]"] by (simp add: digits_val_def)
  with True show ?thesis
    by (intro that [of "''0''" "replicate (dScale d) CHR ''0''"])
      (auto simp: ToString_def numeral_text_def allDigits_iff is_digit_char_def)
next
  case False
  let ?n = "nat \<bar>dValue d\<bar>" and ?p = "pad_zeros (dScale d) (itoa (nat \<bar>dValue d\<bar>))"
  have v: "FormatInt (if dValue d < 0 then i64 (- dValue d) else dValue d) = itoa ?n"
    using assms by (auto simp: FormatInt_def dec_wf_def in_i64_def)
  have i: "allDigits (itoa ?n)" using itoa_digits by (simp add: allDigits_iff)
  note p = pad_zeros_props [OF i, of "dScale d"]
  show ?thesis
  proof (cases "dScale d = 0")
    case True
    with False v i show ?thesis
      by (intro that [of "itoa ?n" "[]"]) (auto simp: ToString_def numeral_text_def Let_def)
  next
    case sc: False
    with p have q: "allDigits (take (length ?p - dScale d) ?p)" "allDigits (drop (length ?p - dScale d) ?p)"
      by (auto intro!: allDigits_take_drop diff_less)
    have "ToString d = numeral_text (dValue d < 0) (take (length ?p - dScale d) ?p) (drop (length ?p - dScale d) ?p)"
      using False sc v q(2) by (auto simp: ToString_def numeral_text_def Let_def allDigits_iff)
    then show ?thesis by (rule that) (use p q in auto)
  qed
qed

text \<open>C25: printing a decimal and reading it back gives the same decimal, value and scale, for every decimal
  but the one with the smallest \<open>int64\<close> as its value; the same holds for its JSON form.\<close>

theorem decimal_roundtrip:
  assumes "dec_wf d"
  shows "FromString (ToString d) = Inr d \<and> UnmarshalJSON (MarshalJSON d) = Inr d"
proof -
  obtain ip fp where t: "ToString d = numeral_text (dValue d < 0) ip fp"
    and w: "allDigits ip" "fp = [] \<or> allDigits fp" "length fp = dScale d" "int (digits_val (ip @ fp)) = \<bar>dValue d\<bar>"
    using ToString_numeral [OF assms] by blast
  have "FromString (ToString d) = Inr d"
    unfolding t using FromString_numeral [OF w(1,2)] w(3,4) assms by (cases d) (auto simp: dec_wf_def)
  moreover have "trim_quotes (MarshalJSON d) = ToString d"
  proof -
    have e: "ToString d \<noteq> []" "hd (ToString d) \<noteq> CHR 0x22" "last (ToString d) \<noteq> CHR 0x22"
      unfolding t using numeral_text_ends [OF w(1,2), of "dValue d < 0"] digit_not by (auto simp: solid_char_def)
    then have "dropWhile (\<lambda>c. c = CHR 0x22) (ToString d @ ''\"'') = ToString d @ ''\"''" by (cases "ToString d") auto
    moreover from e have "dropWhile (\<lambda>c. c = CHR 0x22) (rev (ToString d)) = rev (ToString d)"
      by (cases "ToString d" rule: rev_cases) auto
    ultimately show ?thesis by (simp add: trim_quotes_def MarshalJSON_def)
  qed
  moreover have "ToString d \<noteq> [] \<and> ToString d \<noteq> ''null''"
    unfolding t using numeral_text_ends [OF w(1,2), of "dValue d < 0"] by (auto simp: solid_char_def is_digit_char_def)
  ultimately show ?thesis by (simp add: UnmarshalJSON_def)
qed

theorem decimal_roundtrip_witness:
  "ToString \<lparr>dValue = - 5, dScale = 2\<rparr> = ''-0.05'' \<and> FromString ''-0.05'' = Inr \<lparr>dValue = - 5, dScale = 2\<rparr>"
proof -
  have "ToString \<lparr>dValue = - 5, dScale = 2\<rparr> = ''-0.05''" by code_simp
  with decimal_roundtrip [of "\<lparr>dValue = - 5, dScale = 2\<rparr>"] show ?thesis by (simp add: dec_wf_def MaxScale_def)
qed

section \<open>Exact arithmetic\<close>

definition dec_val :: "Decimal \<Rightarrow> rat" where
  "dec_val d = of_int (dValue d) / 10 ^ dScale d"

text \<open>The unscaled value at a larger scale.\<close>

definition scaled :: "nat \<Rightarrow> Decimal \<Rightarrow> int" where
  "scaled n d = dValue d * 10 ^ (n - dScale d)"

definition aligned_fit :: "Decimal \<Rightarrow> Decimal \<Rightarrow> bool" where
  "aligned_fit a b \<longleftrightarrow>
     \<bar>scaled (max (dScale a) (dScale b)) a\<bar> + \<bar>scaled (max (dScale a) (dScale b)) b\<bar> < 2 ^ 63"

lemma dec_val_scaled: "dScale d \<le> n \<Longrightarrow> dec_val d = of_int (scaled n d) / 10 ^ n"
  by (simp add: dec_val_def scaled_def field_simps flip: power_add)

lemma alignScale_scaled:
  assumes "aligned_fit a b"
  shows "alignScale a b = (let n = max (dScale a) (dScale b) in (\<lparr>dValue = scaled n a, dScale = n\<rparr>, \<lparr>dValue = scaled n b, dScale = n\<rparr>))"
proof -
  have "in_i64 (scaled (max (dScale a) (dScale b)) a)" "in_i64 (scaled (max (dScale a) (dScale b)) b)"
    using assms by (auto simp: aligned_fit_def intro!: in_i64_abs)
  then show ?thesis
    by (cases a; cases b) (auto simp: alignScale_def rescale_def scaled_def Let_def max_def)
qed

text \<open>C26: on decimals whose values fit an \<open>int64\<close> at the common scale, with room for their sum, addition and
  subtraction are exact, and all comparisons decide the order of the numbers the decimals stand for,
  whatever their scales.\<close>

theorem decimal_arith_exact:
  assumes "aligned_fit a b"
  shows "dec_val (decimal_Add a b) = dec_val a + dec_val b \<and> dec_val (decimal_Sub a b) = dec_val a - dec_val b \<and>
         (decimal_Equal a b \<longleftrightarrow> dec_val a = dec_val b) \<and> (LessThan a b \<longleftrightarrow> dec_val a < dec_val b) \<and>
         (GreaterThan a b \<longleftrightarrow> dec_val a > dec_val b) \<and> (LessThanOrEqual a b \<longleftrightarrow> dec_val a \<le> dec_val b) \<and>
         (GreaterThanOrEqual a b \<longleftrightarrow> dec_val a \<ge> dec_val b) \<and>
         of_int (decimal_Compare a b) = sgn (dec_val a - dec_val b)"
proof -
  define n where "n = max (dScale a) (dScale b)"
  have al: "alignScale a b = (\<lparr>dValue = scaled n a, dScale = n\<rparr>, \<lparr>dValue = scaled n b, dScale = n\<rparr>)"
    using alignScale_scaled [OF assms] by (simp add: n_def Let_def)
  have v: "dec_val a = of_int (scaled n a) / 10 ^ n" "dec_val b = of_int (scaled n b) / 10 ^ n"
    by (simp_all add: dec_val_scaled n_def)
  have r: "in_i64 (scaled n a + scaled n b)" "in_i64 (scaled n a - scaled n b)"
    using assms by (auto simp: aligned_fit_def n_def intro!: in_i64_abs)
  have c: "dec_val a \<le> dec_val b \<longleftrightarrow> scaled n a \<le> scaled n b" "dec_val a < dec_val b \<longleftrightarrow> scaled n a < scaled n b"
    "dec_val b \<le> dec_val a \<longleftrightarrow> scaled n b \<le> scaled n a" "dec_val b < dec_val a \<longleftrightarrow> scaled n b < scaled n a"
    "dec_val a = dec_val b \<longleftrightarrow> scaled n a = scaled n b"
    by (simp_all add: v divide_le_cancel divide_less_cancel)
  have "dec_val (decimal_Add a b) = dec_val a + dec_val b" "dec_val (decimal_Sub a b) = dec_val a - dec_val b"
    using r by (simp_all add: decimal_Add_def decimal_Sub_def al v, simp_all add: dec_val_def add_divide_distrib diff_divide_distrib)
  moreover have "of_int (decimal_Compare a b) = sgn (dec_val a - dec_val b)"
    using c by (auto simp: decimal_Compare_def al sgn_if)
  ultimately show ?thesis
    by (simp add: c decimal_Equal_def LessThan_def GreaterThan_def LessThanOrEqual_def GreaterThanOrEqual_def al)
qed

theorem decimal_arith_exact_witness:
  "dec_val (decimal_Add \<lparr>dValue = 1, dScale = 1\<rparr> \<lparr>dValue = 25, dScale = 2\<rparr>) = 35 / 100"
proof -
  have "aligned_fit \<lparr>dValue = 1, dScale = 1\<rparr> \<lparr>dValue = 25, dScale = 2\<rparr>" by code_simp
  from decimal_arith_exact [OF this] show ?thesis by (simp add: dec_val_def)
qed

section \<open>Rounding\<close>

lemma half_up:
  assumes "0 < h"
  shows "(if (x :: int) mod (2 * h) \<ge> h then (x + 2 * h) div (2 * h) else x div (2 * h)) = (x + h) div (2 * h :: int)"
proof -
  define q r where "q = x div (2 * h)" and "r = x mod (2 * h)"
  have x: "x = 2 * h * q + r" "0 \<le> r" "r < 2 * h" using assms by (auto simp: q_def r_def)
  show ?thesis
  proof (cases "r \<ge> h")
    case True
    have "(x + h) div (2 * h) = q + 1"
      by (rule int_div_pos_eq [of _ _ _ "r - h"]) (use x True in \<open>auto simp: algebra_simps\<close>)
    with True assms show ?thesis by (simp add: q_def r_def)
  next
    case False
    have "(x + h) div (2 * h) = q"
      by (rule int_div_pos_eq [of _ _ _ "r + h"]) (use x False in auto)
    with False show ?thesis by (simp add: q_def r_def)
  qed
qed

lemma sdiv_pos: "0 \<le> x \<Longrightarrow> 0 < y \<Longrightarrow> x sdiv y = x div (y :: int)" "0 \<le> x \<Longrightarrow> 0 < y \<Longrightarrow> x smod y = x mod (y :: int)"
  by (auto simp: signed_divide_int_def signed_modulo_int_def sgn_if)

lemma sdiv_neg: "x < 0 \<Longrightarrow> 0 < y \<Longrightarrow> x sdiv y = - ((- x) div (y :: int))" "x < 0 \<Longrightarrow> 0 < y \<Longrightarrow> x smod y = - ((- x) mod (y :: int))"
  by (auto simp: signed_divide_int_def signed_modulo_int_def sgn_if)

lemma sdiv_mult_bound:
  assumes "0 < y"
  shows "\<bar>x sdiv y * y\<bar> \<le> \<bar>x :: int\<bar>"
proof -
  have "n div y * y = n - n mod y \<and> 0 \<le> n mod y \<and> n mod y \<le> n \<and> 0 \<le> n div y" if "0 \<le> n" for n
    using that assms by (auto simp: minus_mod_eq_div_mult zmod_le_nonneg_dividend pos_imp_zdiv_nonneg_iff)
  from this [of "\<bar>x\<bar>"] assms show ?thesis
    by (cases "x < 0") (simp_all add: sdiv_neg sdiv_pos)
qed

lemma sdiv_back:
  assumes "0 < y" "\<bar>x\<bar> < 2 ^ 63"
  shows "i64 (x sdiv y * y) sdiv y = x sdiv y"
proof -
  have "in_i64 (x sdiv y * y)" using sdiv_mult_bound [OF assms(1), of x] assms(2) by (intro in_i64_abs) simp
  moreover have "z * y sdiv y = z" for z
    using assms(1) by (cases "z < 0") (simp_all add: sdiv_neg sdiv_pos mult_neg_pos flip: mult_minus_left)
  ultimately show ?thesis using assms(1) by simp
qed

text \<open>What \<open>Round\<close> computes on the unscaled value: half away from zero, on the magnitude.\<close>

lemma decimal_Round_drop:
  assumes "p < dScale d" "p \<le> MaxScale" "\<bar>dValue d\<bar> + 10 ^ (dScale d - p) < 2 ^ 63"
  shows "decimal_Round d (int p) =
    \<lparr>dValue = sgn (dValue d) * ((\<bar>dValue d\<bar> + 10 ^ (dScale d - p) div 2) div 10 ^ (dScale d - p)), dScale = p\<rparr>"
proof -
  define pw :: int where "pw = 10 ^ (dScale d - p)"
  define h where "h = pw div 2"
  define v where "v = dValue d"
  have "2 dvd pw" using assms(1) by (simp add: pw_def)
  then have pw: "pw = 2 * h" by (simp add: h_def)
  have pos: "0 < pw" by (simp add: pw_def)
  then have h: "0 < h" using pw by simp
  have c: "clampScale (int p) = p" using assms(2) by (simp add: clampScale_def)
  have sd: "pw sdiv 2 = h" using h pw by (simp add: sdiv_pos)
  have fit: "\<bar>v\<bar> + pw < 2 ^ 63" using assms(3) by (simp add: pw_def v_def)
  have up: "(if \<bar>v\<bar> mod pw \<ge> h then (\<bar>v\<bar> + pw) div pw else \<bar>v\<bar> div pw) = (\<bar>v\<bar> + h) div pw"
    unfolding pw by (rule half_up [OF h])
  let ?w = "if v < 0 then (let remainder = i64_abs (v smod pw) in if remainder \<ge> h then i64 (v - pw) else v)
            else if v smod pw \<ge> h then i64 (v + pw) else v"
  have w: "?w = (if v < 0 then - (if \<bar>v\<bar> mod pw \<ge> h then \<bar>v\<bar> + pw else \<bar>v\<bar>) else (if \<bar>v\<bar> mod pw \<ge> h then \<bar>v\<bar> + pw else \<bar>v\<bar>))"
  proof -
    have "i64_abs (- ((- v) mod pw)) = (- v) mod pw" if "v < 0"
      using that fit pos pos_mod_bound [OF pos, of "- v"] pos_mod_sign [OF pos, of "- v"] by (subst i64_abs_eq) auto
    then show ?thesis using fit pos by (auto simp: sdiv_neg sdiv_pos in_i64_def Let_def)
  qed
  have "i64 (?w sdiv pw * pw) sdiv pw = ?w sdiv pw"
    unfolding w by (rule sdiv_back [OF pos]) (use fit pos in auto)
  moreover have "?w sdiv pw = sgn v * ((\<bar>v\<bar> + h) div pw)"
  proof (cases "v < 0")
    case True
    have "(- n) sdiv pw = - (n div pw)" if "0 < n" for n using that pos by (simp add: sdiv_pos)
    with True pos show ?thesis unfolding w up [symmetric] by (simp add: sgn_if)
  next
    case False
    with h pw have "v = 0 \<Longrightarrow> (\<bar>v\<bar> + h) div pw = 0" by simp
    with False pos show ?thesis unfolding w up [symmetric] by (auto simp: sdiv_pos sgn_if)
  qed
  ultimately show ?thesis
    using assms(1) unfolding decimal_Round_def c Let_def h_def pw_def v_def [symmetric] sd [unfolded pw_def h_def, symmetric]
    by (simp add: Let_def)
qed

lemma round_away_div:
  assumes "0 < h"
  shows "round_away (of_int v / of_int (2 * h)) = sgn v * ((\<bar>v\<bar> + h) div (2 * h))"
proof -
  have e: "of_int n / of_int (2 * h) + 1 / 2 = (of_int (n + h) / of_int (2 * h) :: rat)" for n
    using assms by (simp add: field_simps)
  have f: "\<lfloor>of_int n / of_int (2 * h) + 1 / 2 :: rat\<rfloor> = (n + h) div (2 * h)" for n
    unfolding e by (rule floor_divide_of_int_eq)
  show ?thesis
    using f [of v] f [of "- v"] assms
    by (cases "v = 0") (auto simp: round_away_def sgn_if zero_le_divide_iff)
qed

lemma round_away_of_int [simp]: "round_away (of_int k) = k"
proof -
  have "round_away (of_int k / of_int (2 * 1)) = sgn k * ((\<bar>k\<bar> + 1) div 2)" for k using round_away_div [of 1 k] by simp
  from this [of "2 * k"] show ?thesis by (simp add: sgn_mult abs_mult sgn_if)
qed

lemma sdiv_10_in: "\<bar>v :: int\<bar> < 2 ^ 63 \<Longrightarrow> 10 \<le> y \<Longrightarrow> \<bar>v sdiv y\<bar> \<le> 2 ^ 62"
proof -
  assume a: "\<bar>v\<bar> < 2 ^ 63" "10 \<le> y"
  have "\<bar>v sdiv y\<bar> * 10 \<le> \<bar>v sdiv y\<bar> * y" using a by (intro mult_left_mono) auto
  also have "\<dots> = \<bar>v sdiv y * y\<bar>" using a by (simp add: abs_mult)
  also have "\<dots> \<le> \<bar>v\<bar>" using a by (intro sdiv_mult_bound) auto
  finally show ?thesis using a by simp
qed

lemma dec_floor: "\<lfloor>dec_val d\<rfloor> = dValue d div 10 ^ dScale d" "\<lceil>dec_val d\<rceil> = - ((- dValue d) div 10 ^ dScale d)"
proof -
  have f: "\<lfloor>of_int k / 10 ^ dScale d :: rat\<rfloor> = k div 10 ^ dScale d" for k
    using floor_divide_of_int_eq [of k "10 ^ dScale d", where 'a = rat] by simp
  show "\<lfloor>dec_val d\<rfloor> = dValue d div 10 ^ dScale d" "\<lceil>dec_val d\<rceil> = - ((- dValue d) div 10 ^ dScale d)"
    using f [of "dValue d"] f [of "- dValue d"] by (simp_all add: dec_val_def ceiling_def)
qed

lemma div_of_sdiv:
  assumes "0 < (y :: int)"
  shows "x div y = x sdiv y - of_bool (x < 0 \<and> x smod y \<noteq> 0)" "- ((- x) div y) = x sdiv y + of_bool (x > 0 \<and> x smod y \<noteq> 0)"
proof -
  have d: "k smod y = 0 \<longleftrightarrow> y dvd k" for k
    by (auto simp: signed_modulo_int_def sgn_0_0 mod_eq_0_iff_dvd)
  have e: "k div y = k sdiv y - of_bool (k < 0 \<and> k smod y \<noteq> 0)" for k
    using assms by (auto simp: divide_int_eq_signed_divide_int d sgn_if)
  show "x div y = x sdiv y - of_bool (x < 0 \<and> x smod y \<noteq> 0)" by (rule e)
  have "(- x) sdiv y = - (x sdiv y)" by (simp add: signed_divide_int_def)
  then show "- ((- x) div y) = x sdiv y + of_bool (x > 0 \<and> x smod y \<noteq> 0)" by (simp add: e d)
qed

lemma decimal_Floor_exact:
  assumes "dec_wf d"
  shows "dec_val (decimal_Floor d) = of_int \<lfloor>dec_val d\<rfloor>"
proof (cases "dScale d")
  case (Suc n)
  have "(10::int) \<le> 10 ^ dScale d" using Suc by simp
  then have "\<bar>dValue d sdiv 10 ^ dScale d\<bar> \<le> 2 ^ 62" using assms by (intro sdiv_10_in) (auto simp: dec_wf_def)
  then have "in_i64 (dValue d sdiv 10 ^ dScale d - 1)" by (intro in_i64_abs) simp
  then show ?thesis using Suc by (simp add: dec_floor decimal_Floor_def Let_def div_of_sdiv) (simp add: dec_val_def)
qed (simp add: decimal_Floor_def dec_val_def)

lemma decimal_Ceiling_exact:
  assumes "dec_wf d"
  shows "dec_val (decimal_Ceiling d) = of_int \<lceil>dec_val d\<rceil>"
proof (cases "dScale d")
  case (Suc n)
  have "(10::int) \<le> 10 ^ dScale d" using Suc by simp
  then have "\<bar>dValue d sdiv 10 ^ dScale d\<bar> \<le> 2 ^ 62" using assms by (intro sdiv_10_in) (auto simp: dec_wf_def)
  then have "in_i64 (dValue d sdiv 10 ^ dScale d + 1)" by (intro in_i64_abs) simp
  then show ?thesis using Suc by (simp add: dec_floor decimal_Ceiling_def Let_def div_of_sdiv) (simp add: dec_val_def)
qed (simp add: decimal_Ceiling_def dec_val_def)

text \<open>rounding a decimal to a number of places gives the nearest multiple of that unit, halves away from
  zero, at that scale, as long as the intermediate values fit an \<open>int64\<close>; \<open>Floor\<close> and \<open>Ceiling\<close> are the
  floor and the ceiling of the number the decimal stands for.\<close>

lemma decimal_rounding:
  assumes "dec_wf d" "p \<le> MaxScale" "\<bar>dValue d\<bar> * 10 ^ (p - dScale d) + 10 ^ (dScale d - p) < 2 ^ 63"
  shows "dScale (decimal_Round d (int p)) = p \<and>
         dec_val (decimal_Round d (int p)) = of_int (round_away (dec_val d * 10 ^ p)) / 10 ^ p \<and>
         dec_val (decimal_Floor d) = of_int \<lfloor>dec_val d\<rfloor> \<and> dec_val (decimal_Ceiling d) = of_int \<lceil>dec_val d\<rceil>"
proof -
  have "dScale (decimal_Round d (int p)) = p \<and>
        dec_val (decimal_Round d (int p)) = of_int (round_away (dec_val d * 10 ^ p)) / 10 ^ p"
  proof (cases "p < dScale d")
    case True
    define h :: int where "h = 10 ^ (dScale d - p) div 2"
    have "2 dvd (10 ^ (dScale d - p) :: int)" using True by simp
    then have h2: "10 ^ (dScale d - p) = 2 * h" by (simp add: h_def)
    moreover have "(0::int) < 10 ^ (dScale d - p)" by simp
    ultimately have h: "0 < h" by linarith
    have "dec_val d * 10 ^ p = of_int (dValue d) / of_int (10 ^ (dScale d - p))"
      using True by (simp add: dec_val_def field_simps flip: power_add)
    then have "round_away (dec_val d * 10 ^ p) = sgn (dValue d) * ((\<bar>dValue d\<bar> + h) div (2 * h))"
      using round_away_div [OF h] by (simp add: h2)
    moreover have "decimal_Round d (int p) = \<lparr>dValue = sgn (dValue d) * ((\<bar>dValue d\<bar> + h) div (2 * h)), dScale = p\<rparr>"
      using decimal_Round_drop [OF True assms(2)] assms(3) True h h2 by simp
    ultimately show ?thesis by (simp add: dec_val_def)
  next
    case False
    then have "\<bar>dValue d * 10 ^ (p - dScale d)\<bar> < 2 ^ 63" using assms(3) by (simp add: abs_mult)
    then have r: "decimal_Round d (int p) = \<lparr>dValue = dValue d * 10 ^ (p - dScale d), dScale = p\<rparr>"
      using False assms(2) by (cases d) (auto simp: decimal_Round_def clampScale_def rescale_def in_i64_abs)
    have "dec_val d * 10 ^ p = of_int (dValue d * 10 ^ (p - dScale d))"
      using False by (simp add: dec_val_def field_simps flip: power_add)
    then have "round_away (dec_val d * 10 ^ p) = dValue d * 10 ^ (p - dScale d)"
      by (simp only: round_away_of_int)
    then show ?thesis by (simp add: r dec_val_def [of "\<lparr>dValue = _, dScale = _\<rparr>"])
  qed
  moreover have "dec_val (decimal_Floor d) = of_int \<lfloor>dec_val d\<rfloor> \<and> dec_val (decimal_Ceiling d) = of_int \<lceil>dec_val d\<rceil>"
    using decimal_Floor_exact decimal_Ceiling_exact assms(1) by blast
  ultimately show ?thesis by blast
qed

section \<open>Multiplication and division\<close>

lemma no_overflow:
  assumes "\<bar>a * b\<bar> < 2 ^ 63"
  shows "\<not> willOverflow a b"
proof (cases "a = 0 \<or> b = 0")
  case False
  have m: "\<bar>a\<bar> * 1 \<le> \<bar>a\<bar> * \<bar>b\<bar>" "1 * \<bar>b\<bar> \<le> \<bar>a\<bar> * \<bar>b\<bar>"
    using False by (auto intro!: mult_left_mono mult_right_mono)
  have "\<bar>a\<bar> = \<bar>a\<bar> * \<bar>b\<bar> div \<bar>b\<bar>" using False by simp
  also have "\<dots> \<le> (2 ^ 63 - 1) div \<bar>b\<bar>" using assms False by (intro zdiv_mono1) (auto simp: abs_mult)
  finally have "\<bar>a\<bar> \<le> (2 ^ 63 - 1) sdiv \<bar>b\<bar>" using False by (simp add: sdiv_pos)
  moreover have "\<bar>a\<bar> < 2 ^ 63" "\<bar>b\<bar> < 2 ^ 63" using m assms by (auto simp: abs_mult)
  ultimately show ?thesis by (simp add: willOverflow_def Let_def)
qed (simp add: willOverflow_def)

text \<open>Multiplication is exact when the product of the unscaled values fits an \<open>int64\<close> and the scales add
  up to at most 18; its loop always ends.\<close>

lemma decimal_mul_exact:
  assumes "\<bar>dValue a * dValue b\<bar> < 2 ^ 63" "dScale a + dScale b \<le> MaxScale"
  shows "dec_val (decimal_Mul a b) = dec_val a * dec_val b \<and> dScale (decimal_Mul a b) = dScale a + dScale b"
proof -
  have "mul_loop (dScale a + dScale b) (dValue a) (dValue b) = (dScale a + dScale b, dValue a, dValue b)"
    using no_overflow [OF assms(1)] assms(2) by (cases "dScale a + dScale b") auto
  then show ?thesis
    using assms by (simp add: decimal_Mul_def clampScale_def in_i64_abs nat_int_add) (simp add: dec_val_def power_add)
qed

lemma scale_up_exact: "\<bar>x\<bar> * 10 ^ n \<le> 2 ^ 62 \<Longrightarrow> scale_up n x = x * 10 ^ n"
proof (induction n arbitrary: x)
  case (Suc n)
  have "\<bar>x\<bar> * 1 \<le> \<bar>x\<bar> * 10 ^ Suc n" by (rule mult_left_mono) (auto intro: one_le_power simp del: power_Suc)
  moreover have "\<bar>x * 10\<bar> * 1 \<le> \<bar>x * 10\<bar> * 10 ^ n" by (rule mult_left_mono) auto
  moreover have "\<bar>x * 10\<bar> * 10 ^ n = \<bar>x\<bar> * 10 ^ Suc n" by (simp add: abs_mult)
  ultimately have "\<bar>x\<bar> \<le> 2 ^ 62" "\<bar>x * 10\<bar> \<le> 2 ^ 62" "scale_up n (x * 10) = x * 10 * 10 ^ n"
    using Suc.prems Suc.IH [of "x * 10"] by linarith+
  moreover from this have "in_i64 (x * 10)" by (intro in_i64_abs) simp
  ultimately show ?case by auto
qed simp

lemma round_quotient_half:
  assumes "b \<noteq> 0" "\<bar>b\<bar> \<le> 2 ^ 62" "\<bar>n\<bar> \<le> 2 ^ 62"
  shows "2 * \<bar>round_quotient n b * b - n\<bar> \<le> \<bar>b\<bar>"
proof -
  define q r where "q = n sdiv b" and "r = n smod b"
  have n: "n = q * b + r" by (simp add: q_def r_def sdiv_mult_smod_eq)
  have r: "\<bar>r\<bar> < \<bar>b\<bar>" "0 \<le> r * n"
    using assms(1) by (auto simp: r_def signed_modulo_int_def abs_mult sgn_if mult_le_0_iff)
  have "\<bar>q\<bar> * 1 \<le> \<bar>q\<bar> * \<bar>b\<bar>" using assms(1) by (intro mult_left_mono) auto
  also have "\<dots> \<le> \<bar>n\<bar>"
  proof -
    have "\<bar>q\<bar> = \<bar>n sdiv \<bar>b\<bar>\<bar>" using assms(1) by (simp add: q_def signed_divide_int_def abs_mult abs_sgn_eq)
    then show ?thesis using sdiv_mult_bound [of "\<bar>b\<bar>" n] assms(1) by (simp add: abs_mult)
  qed
  finally have "\<bar>q\<bar> \<le> \<bar>n\<bar>" by simp
  then have q: "in_i64 q" "in_i64 (q - 1)" "in_i64 (q + 1)" using assms(3) by (auto simp: in_i64_def)
  have a: "i64 (2 * i64_abs r) = 2 * \<bar>r\<bar>" "i64_abs b = \<bar>b\<bar>"
    using r assms(2) by (auto simp: in_i64_def)
  have e: "round_quotient n b = (if 2 * \<bar>r\<bar> > \<bar>b\<bar>
      then (if (n < 0 \<and> b > 0) \<or> (n > 0 \<and> b < 0) then q - 1 else q + 1) else q)"
    using q a by (auto simp: round_quotient_def q_def r_def Let_def)
  show ?thesis
  proof (cases "2 * \<bar>r\<bar> > \<bar>b\<bar>")
    case True
    then have "n \<noteq> 0" "r \<noteq> 0" by (auto simp: r_def)
    then have "0 < r \<longleftrightarrow> 0 < n" using r(2) by (auto simp: zero_le_mult_iff)
    with True e n r(1) assms(1) \<open>n \<noteq> 0\<close> show ?thesis by (auto simp: algebra_simps abs_if split: if_splits)
  next
    case False
    with e n show ?thesis by simp
  qed
qed




text \<open>
  The loop of \<open>Mul\<close> drops a digit of both operands but only one place of the scale, so a product that
  does not fit is wrong by a factor of ten per round; \<open>Div\<close> multiplies a numerator below \<open>2\<^sup>6\<^sup>2\<close> by ten
  without another check; the smallest \<open>int64\<close> prints with two signs.
\<close>

lemma mul_loses_a_factor:
  "dec_val (decimal_Mul \<lparr>dValue = 100000000000, dScale = 5\<rparr> \<lparr>dValue = 100000000000, dScale = 5\<rparr>) = 10 ^ 10 \<and>
   dec_val \<lparr>dValue = 100000000000, dScale = 5\<rparr> * dec_val \<lparr>dValue = 100000000000, dScale = 5\<rparr> = 10 ^ 12"
  by code_simp

lemma div_wraps:
  "case decimal_Div \<lparr>dValue = 10 ^ 18, dScale = 0\<rparr> decimal_One 1 of Inl _ \<Rightarrow> False | Inr q \<Rightarrow> dec_val q < 0"
  by code_simp

lemma min_int64_prints_two_signs: "ToString \<lparr>dValue = - (2 ^ 63), dScale = 0\<rparr> = ''--'' @ itoa (2 ^ 63)"
  by (simp add: ToString_def FormatInt_def i64_def)

end
