(* ===== verification/Auction.thy ===== *)
theory Auction
  imports Price_Cage "HOL-Library.Multiset"
begin

text \<open>
  Call auction matching (\<open>src/pkg/backtest/auction/auction.go\<close>): the trading sessions of a day and the
  maximum-volume matcher. The set of candidate prices is a Go map with float keys, whose iteration
  order is the argument \<open>order\<close> of \<open>Match\<close>; the code sorts the candidates afterwards. Times are wall-clock
  times of the exchange, as the code expects them. The properties: the clearing price executes the
  largest volume any price could, and every fill is within its order and at an admissible price.
\<close>

section \<open>Sessions\<close>

datatype TradingSession =
    SessionPreOpen | SessionPreOpenFreeze | SessionOpeningMatch | SessionMorningContinuous | SessionLunch
  | SessionAfternoonContinuous | SessionClosingCall | SessionClosed | SessionOther string

text \<open>\<open>time.Weekday\<close>: the zero time is a Monday; Sunday is 0.\<close>

definition weekday :: "gotime \<Rightarrow> int" where
  "weekday t = (t div day_ns + 1) mod 7"

definition clock_minutes :: "gotime \<Rightarrow> int" where
  "clock_minutes t = (t mod day_ns) div (60 * 1000000000)"

definition SessionAt :: "gotime \<Rightarrow> TradingSession" where
  "SessionAt t =
     (if weekday t = 6 \<or> weekday t = 0 then SessionClosed
      else let minutes = clock_minutes t
           in if minutes < 9 * 60 + 15 then SessionClosed
              else if minutes < 9 * 60 + 20 then SessionPreOpen
              else if minutes < 9 * 60 + 25 then SessionPreOpenFreeze
              else if minutes < 9 * 60 + 30 then SessionOpeningMatch
              else if minutes < 11 * 60 + 30 then SessionMorningContinuous
              else if minutes < 13 * 60 then SessionLunch
              else if minutes < 14 * 60 + 57 then SessionAfternoonContinuous
              else if minutes < 15 * 60 then SessionClosingCall
              else SessionClosed)"

fun SessionWindow :: "TradingSession \<Rightarrow> int \<times> int" where
  "SessionWindow SessionPreOpen = (9 * 60 + 15, 9 * 60 + 20)"
| "SessionWindow SessionPreOpenFreeze = (9 * 60 + 20, 9 * 60 + 25)"
| "SessionWindow SessionOpeningMatch = (9 * 60 + 25, 9 * 60 + 30)"
| "SessionWindow SessionMorningContinuous = (9 * 60 + 30, 11 * 60 + 30)"
| "SessionWindow SessionLunch = (11 * 60 + 30, 13 * 60)"
| "SessionWindow SessionAfternoonContinuous = (13 * 60, 14 * 60 + 57)"
| "SessionWindow SessionClosingCall = (14 * 60 + 57, 15 * 60)"
| "SessionWindow SessionClosed = (0, 0)"
| "SessionWindow (SessionOther _) = (0, 0)"

section \<open>Matcher\<close>

record CallAuctionOrder =
  caID :: string
  caSymbol :: symbol
  caDirection :: string
  caQuantity :: f64
  caLimitPrice :: f64
  caTimestamp :: gotime

record ClearingResult =
  crClearingPrice :: f64
  crMatchedVolume :: f64
  crBuyFillRatio :: f64
  crSellFillRatio :: f64
  crFills :: "f64 dict"
  crNoMatchReason :: string

record CallAuctionMatcher =
  cmPriceTick :: f64
  cmAnchorPrice :: f64

definition NewCallAuctionMatcher :: CallAuctionMatcher where
  "NewCallAuctionMatcher = \<lparr>cmPriceTick = rnd (1 / 100), cmAnchorPrice = Fin 0\<rparr>"

definition WithAnchor :: "f64 \<Rightarrow> CallAuctionMatcher \<Rightarrow> CallAuctionMatcher" where
  "WithAnchor prevClose m = m\<lparr>cmAnchorPrice := prevClose\<rparr>"

definition math_Min :: "f64 \<Rightarrow> f64 \<Rightarrow> f64" where
  "math_Min a b = (if a = NInf \<or> b = NInf then NInf else fmin a b)"

definition auctionRound4 :: "f64 \<Rightarrow> f64" where
  "auctionRound4 x = fdiv (math_Round (fmul x (rnd 10000))) (rnd 10000)"

definition price_tick :: "CallAuctionMatcher \<Rightarrow> f64" where
  "price_tick m = (if fle (cmPriceTick m) (Fin 0) then rnd (1 / 100) else cmPriceTick m)"

text \<open>Adding a key to a map with float keys: a key equal to one that is there changes nothing.\<close>

definition add_key :: "f64 \<Rightarrow> f64 list \<Rightarrow> f64 list" where
  "add_key k ks = (if list_ex (\<lambda>x. feq x k) ks then ks else ks @ [k])"

definition buy_keys :: "f64 \<Rightarrow> CallAuctionOrder \<Rightarrow> f64 list \<Rightarrow> f64 list" where
  "buy_keys tick ord ks =
     (if flt (Fin 0) (caLimitPrice ord)
      then add_key (fadd (caLimitPrice ord) tick) (add_key (caLimitPrice ord) ks) else ks)"

definition sell_keys :: "f64 \<Rightarrow> CallAuctionOrder \<Rightarrow> f64 list \<Rightarrow> f64 list" where
  "sell_keys tick ord ks =
     (if flt (Fin 0) (caLimitPrice ord)
      then add_key (fsub (caLimitPrice ord) tick) (add_key (caLimitPrice ord) ks) else ks)"

definition candidate_keys :: "CallAuctionMatcher \<Rightarrow> CallAuctionOrder list \<Rightarrow> CallAuctionOrder list \<Rightarrow> f64 list" where
  "candidate_keys m buys sells =
     (let tick = price_tick m;
          ks = fold (sell_keys tick) sells (fold (buy_keys tick) buys [])
      in if flt (Fin 0) (cmAnchorPrice m) then add_key (cmAnchorPrice m) ks else ks)"

text \<open>\<open>sort.Float64s\<close>: NaNs first, then ascending.\<close>

definition float_less :: "f64 \<Rightarrow> f64 \<Rightarrow> bool" where
  "float_less x y \<longleftrightarrow> flt x y \<or> (x = NaN \<and> y \<noteq> NaN)"

fun insert_float :: "f64 \<Rightarrow> f64 list \<Rightarrow> f64 list" where
  "insert_float x [] = [x]"
| "insert_float x (y # ys) = (if float_less y x then y # insert_float x ys else x # y # ys)"

definition sort_floats :: "f64 list \<Rightarrow> f64 list" where
  "sort_floats xs = foldr insert_float xs []"

definition eligible_buy :: "f64 \<Rightarrow> CallAuctionOrder \<Rightarrow> bool" where
  "eligible_buy p ord \<longleftrightarrow> feq (caLimitPrice ord) (Fin 0) \<or> fle p (caLimitPrice ord)"

definition eligible_sell :: "f64 \<Rightarrow> CallAuctionOrder \<Rightarrow> bool" where
  "eligible_sell p ord \<longleftrightarrow> feq (caLimitPrice ord) (Fin 0) \<or> fle (caLimitPrice ord) p"

definition cum_qty :: "(CallAuctionOrder \<Rightarrow> bool) \<Rightarrow> CallAuctionOrder list \<Rightarrow> f64 \<Rightarrow> f64" where
  "cum_qty E = fold (\<lambda>ord acc. if E ord then fadd acc (caQuantity ord) else acc)"

definition matchable :: "CallAuctionOrder list \<Rightarrow> CallAuctionOrder list \<Rightarrow> f64 \<Rightarrow> f64" where
  "matchable buys sells p = math_Min (cum_qty (eligible_buy p) buys (Fin 0)) (cum_qty (eligible_sell p) sells (Fin 0))"

text \<open>One round of the search for the best candidate; candidates are pairs of a price and its volume.\<close>

definition better :: "f64 \<Rightarrow> f64 \<times> f64 \<Rightarrow> f64 \<times> f64 \<Rightarrow> f64 \<times> f64" where
  "better anchor s best =
     (if flt (snd best) (snd s) then s
      else if feq (snd s) (snd best) \<and> flt (Fin 0) (snd s)
      then let distNew = fabs (fsub (fst s) anchor); distBest = fabs (fsub (fst best) anchor)
           in if flt distNew distBest then s
              else if feq distNew distBest \<and> flt (fst s) (fst best) then s
              else best
      else best)"

section \<open>Allocation\<close>

text \<open>Market orders in turn get what is left; limit orders get their share of what is left.\<close>

definition fill_market :: "CallAuctionOrder \<Rightarrow> f64 \<times> f64 dict \<Rightarrow> f64 \<times> f64 dict" where
  "fill_market ord st =
     (let (remaining, fills) = st; fill = math_Min (caQuantity ord) remaining
      in (fsub remaining fill, fmupd (caID ord) fill fills))"

definition fill_limit :: "f64 \<Rightarrow> CallAuctionOrder \<Rightarrow> f64 \<times> f64 dict \<Rightarrow> f64 \<times> f64 dict" where
  "fill_limit ratio ord st =
     (let (remaining, fills) = st; raw = fmul (caQuantity ord) ratio;
          fill = math_Min (caQuantity ord) (math_Min raw remaining)
      in (fsub remaining fill, fmupd (caID ord) fill fills))"

definition is_market :: "CallAuctionOrder \<Rightarrow> bool" where
  "is_market ord \<longleftrightarrow> feq (caLimitPrice ord) (Fin 0)"

definition fill_ratio :: "f64 \<Rightarrow> f64 \<Rightarrow> f64" where
  "fill_ratio matched demand =
     (if flt (Fin 0) demand \<and> flt matched demand then fdiv matched demand else Fin 1)"

definition allocateFills ::
    "CallAuctionOrder list \<Rightarrow> CallAuctionOrder list \<Rightarrow> f64 \<Rightarrow> f64 \<Rightarrow> f64 dict" where
  "allocateFills buys sells price matched =
     (let eligibleBuys = filter (eligible_buy price) buys;
          marketBuys = filter is_market eligibleBuys;
          limitBuys = filter (\<lambda>ord. \<not> is_market ord) eligibleBuys;
          eligibleSells = filter (eligible_sell price) sells;
          totalBuyDemand = fadd (cum_qty (\<lambda>_. True) marketBuys (Fin 0)) (cum_qty (\<lambda>_. True) limitBuys (Fin 0));
          buyRatio = fill_ratio matched totalBuyDemand;
          sellRatio = fill_ratio matched (cum_qty (\<lambda>_. True) eligibleSells (Fin 0));
          st = fold fill_market marketBuys (matched, fmempty);
          st = fold (fill_limit buyRatio) limitBuys st;
          st = fold fill_market (filter is_market eligibleSells) (matched, snd st);
          st = fold (fill_limit sellRatio) (filter (\<lambda>ord. \<not> is_market ord) eligibleSells) st
      in snd st)"

definition no_match :: "string \<Rightarrow> ClearingResult" where
  "no_match reason =
     \<lparr>crClearingPrice = Fin 0, crMatchedVolume = Fin 0, crBuyFillRatio = Fin 0, crSellFillRatio = Fin 0,
      crFills = fmempty, crNoMatchReason = reason\<rparr>"

definition Match ::
    "f64 list \<Rightarrow> CallAuctionMatcher \<Rightarrow> CallAuctionOrder list \<Rightarrow> CallAuctionOrder list \<Rightarrow> ClearingResult" where
  "Match order m buys sells =
     (if buys = [] \<or> sells = [] then no_match ''one_side_empty''
      else if candidate_keys m buys sells = [] then no_match ''no_price_levels''
      else let candidates = sort_floats (map auctionRound4 order);
               scored = map (\<lambda>p. (p, matchable buys sells p)) candidates;
               best = fold (better (cmAnchorPrice m)) (tl scored) (hd scored)
           in if fle (snd best) (Fin 0) then no_match ''no_overlap''
              else (no_match [])\<lparr>crClearingPrice := fst best, crMatchedVolume := snd best,
                     crFills := allocateFills buys sells (fst best) (snd best)\<rparr>)"

definition FillRatio :: "ClearingResult \<Rightarrow> string \<Rightarrow> f64 \<Rightarrow> f64" where
  "FillRatio r orderID totalQty =
     (if fle totalQty (Fin 0) then Fin 0
      else case fmlookup (crFills r) orderID of None \<Rightarrow> Fin 0 | Some filled \<Rightarrow> fdiv filled totalQty)"

definition IsFullyFilled :: "ClearingResult \<Rightarrow> string \<Rightarrow> f64 \<Rightarrow> bool" where
  "IsFullyFilled r orderID orderQty =
     (if fle orderQty (Fin 0) then False
      else case fmlookup (crFills r) orderID of
          None \<Rightarrow> False | Some filled \<Rightarrow> fle (fsub orderQty (rnd (1 / 1000000))) filled)"

section \<open>Session windows\<close>

text \<open>The table of session windows and the classification of a time agree: on a weekday, a time is in an
  open session exactly when its minute lies in that session's window, and the windows follow one
  another without gap or overlap from 9:15 to 15:00.\<close>

lemma session_window_exact:
  assumes "s \<noteq> SessionClosed"
  shows "SessionAt t = s \<longleftrightarrow>
    weekday t \<notin> {0, 6} \<and> fst (SessionWindow s) \<le> clock_minutes t \<and> clock_minutes t < snd (SessionWindow s)"
  using assms by (cases s) (auto simp: SessionAt_def Let_def)

section \<open>The clearing price\<close>

definition order_ok :: "CallAuctionOrder \<Rightarrow> bool" where
  "order_ok ord \<longleftrightarrow> is_fin (caQuantity ord) \<and> f64_wf (caQuantity ord) \<and> fle (Fin 0) (caQuantity ord) \<and>
     is_fin (caLimitPrice ord) \<and> fle (Fin 0) (caLimitPrice ord) \<and> auctionRound4 (caLimitPrice ord) = caLimitPrice ord"

lemma fle_fadd_self:
  assumes "f64_wf b" "fle (Fin 0) b" "fle (Fin 0) q"
  shows "fle b (fadd b q)"
proof -
  have n: "fadd b (Fin 0) \<noteq> NaN" "fadd b q \<noteq> NaN"
    using fadd_nonneg_not_NaN [OF assms(2,3)] fadd_nonneg_not_NaN [OF assms(2), of "Fin 0"] by (auto simp: fle_fin)
  have "fle b (fadd b (Fin 0))"
  proof (cases b)
    case (Fin r)
    then have "rnd r = Fin r" using assms(1) by (simp add: f64_wf_def rnd_exact)
    with Fin show ?thesis by (simp add: fadd_fin fle_fin)
  qed (use assms(2) in \<open>auto simp: fadd_def fle_def\<close>)
  moreover have "fle (fadd b (Fin 0)) (fadd b q)"
    using n assms by (intro fadd_mono fle_refl) auto
  ultimately show ?thesis by (rule fle_trans)
qed

lemma cum_qty_mono:
  assumes "\<forall>ord \<in> set os. order_ok ord" "\<forall>ord \<in> set os. E ord \<longrightarrow> E' ord"
    and "fle a b" "fle (Fin 0) a" "f64_wf b"
  shows "fle (cum_qty E os a) (cum_qty E' os b) \<and> fle (Fin 0) (cum_qty E os a)"
  using assms
proof (induction os arbitrary: a b)
  case (Cons ord os)
  have b: "fle (Fin 0) b" using Cons.prems(3,4) fle_trans by blast
  have q: "fle (Fin 0) (caQuantity ord)" "f64_wf (caQuantity ord)" using Cons.prems(1) by (auto simp: order_ok_def)
  let ?a = "if E ord then fadd a (caQuantity ord) else a" and ?b = "if E' ord then fadd b (caQuantity ord) else b"
  have "fle ?a ?b"
  proof (cases "E ord")
    case True
    with Cons.prems(2) have "E' ord" by simp
    moreover have "fle (fadd a (caQuantity ord)) (fadd b (caQuantity ord))"
      using Cons.prems(3,4) b q by (intro fadd_mono fle_refl fadd_nonneg_not_NaN) auto
    ultimately show ?thesis using True by simp
  next
    case False
    then show ?thesis using Cons.prems(3,5) fle_fadd_self [OF _ b q(1)] fle_trans by auto
  qed
  moreover have "fle (Fin 0) ?a" using Cons.prems(4) q fadd_nonneg by simp
  moreover have "f64_wf ?b" using Cons.prems(5) q fadd_wf by simp
  ultimately have "fle (cum_qty E os ?a) (cum_qty E' os ?b) \<and> fle (Fin 0) (cum_qty E os ?a)"
    by (intro Cons.IH) (use Cons.prems in auto)
  then show ?case by (simp add: cum_qty_def)
qed (simp add: cum_qty_def)

lemma math_Min_props:
  assumes "fle (Fin 0) a" "fle (Fin 0) b"
  shows "fle (math_Min a b) a" "fle (math_Min a b) b" "fle (Fin 0) (math_Min a b)"
    "fle c a \<Longrightarrow> fle c b \<Longrightarrow> fle c (math_Min a b)"
proof -
  have n: "a \<noteq> NaN" "b \<noteq> NaN" "a \<noteq> NInf" "b \<noteq> NInf" using assms by (auto simp: fle_def)
  then have m: "math_Min a b = fmin a b" by (simp add: math_Min_def)
  show "fle (math_Min a b) a" "fle (math_Min a b) b" using fmin_lower [OF n(1,2)] m by auto
  show "fle (Fin 0) (math_Min a b)" "fle c a \<Longrightarrow> fle c b \<Longrightarrow> fle c (math_Min a b)"
    using fmin_cases [OF n(1,2)] assms m by auto
qed

lemma matchable_mono:
  assumes "\<forall>ord \<in> set buys \<union> set sells. order_ok ord"
    and "\<forall>ord \<in> set buys. eligible_buy p ord \<longrightarrow> eligible_buy q ord"
    and "\<forall>ord \<in> set sells. eligible_sell p ord \<longrightarrow> eligible_sell q ord"
  shows "fle (matchable buys sells p) (matchable buys sells q) \<and> fle (Fin 0) (matchable buys sells p)"
proof -
  have z: "fle (Fin 0) (Fin 0)" "f64_wf (Fin 0)" by (simp_all add: fle_fin f64_wf_def)
  have b: "fle (cum_qty (eligible_buy p) buys (Fin 0)) (cum_qty (eligible_buy q) buys (Fin 0)) \<and>
      fle (Fin 0) (cum_qty (eligible_buy p) buys (Fin 0))"
    by (rule cum_qty_mono) (use assms z in auto)
  have s: "fle (cum_qty (eligible_sell p) sells (Fin 0)) (cum_qty (eligible_sell q) sells (Fin 0)) \<and>
      fle (Fin 0) (cum_qty (eligible_sell p) sells (Fin 0))"
    by (rule cum_qty_mono) (use assms z in auto)
  have "fle (math_Min (cum_qty (eligible_buy p) buys (Fin 0)) (cum_qty (eligible_sell p) sells (Fin 0)))
      (math_Min (cum_qty (eligible_buy q) buys (Fin 0)) (cum_qty (eligible_sell q) sells (Fin 0)))"
    by (rule math_Min_props(4)) (use b s math_Min_props(1,2) fle_trans in blast)+
  then show ?thesis unfolding matchable_def using b s math_Min_props(3) by blast
qed

lemma ex_first:
  assumes "xs \<noteq> []" "\<And>x y z. R x y \<Longrightarrow> R y z \<Longrightarrow> R x z"
    and "\<And>x y. x \<in> set xs \<Longrightarrow> y \<in> set xs \<Longrightarrow> R x y \<or> R y x"
  shows "\<exists>m \<in> set xs. \<forall>x \<in> set xs. R m x"
  using assms(1,3)
proof (induction xs rule: list_nonempty_induct)
  case (cons x xs)
  then obtain m where m: "m \<in> set xs" "\<forall>y \<in> set xs. R m y" by auto
  show ?case
  proof (cases "R x m")
    case True
    have "R x y" if "y \<in> set xs" for y using assms(2) [OF True] m(2) that by blast
    moreover have "R x x" using cons.prems [of x x] by simp
    ultimately show ?thesis by auto
  next
    case False
    then show ?thesis using m cons.prems [of x m] by auto
  qed
qed auto

lemma fle_total: "a \<noteq> NaN \<Longrightarrow> b \<noteq> NaN \<Longrightarrow> fle a b \<or> fle b a"
  by (auto simp: fle_def)

lemma add_key_mem: "k \<in> set (add_key k ks) \<or> (\<exists>x \<in> set ks. feq x k)" "set ks \<subseteq> set (add_key k ks)"
    "set (add_key k ks) \<subseteq> insert k (set ks)"
  by (auto simp: add_key_def list_ex_iff)

lemma feq_pos: "feq x k \<Longrightarrow> is_fin k \<Longrightarrow> flt (Fin 0) k \<Longrightarrow> x = k"
  by (cases x; cases k) (auto simp: feq_def flt_fin)

lemma add_key_pos: "is_fin k \<Longrightarrow> flt (Fin 0) k \<Longrightarrow> k \<in> set (add_key k ks)"
  using add_key_mem(1) [of k ks] add_key_mem(2) [of ks k] feq_pos by blast

lemma buy_keys_mono: "set ks \<subseteq> set (buy_keys tick ord ks)"
  using add_key_mem(2) by (simp add: buy_keys_def subset_iff)

lemma sell_keys_mono: "set ks \<subseteq> set (sell_keys tick ord ks)"
  using add_key_mem(2) by (simp add: sell_keys_def subset_iff)

lemma fold_keys_mono:
  assumes "\<And>ord ks. set ks \<subseteq> set (f ord ks)"
  shows "set ks \<subseteq> set (fold f os ks)"
  using assms by (induction os arbitrary: ks) fastforce+

lemma fold_keys_mem:
  assumes "\<And>ord ks. set ks \<subseteq> set (f ord ks)" "ord \<in> set os" "\<And>ks. k \<in> set (f ord ks)"
  shows "k \<in> set (fold f os ks)"
  using assms(2)
proof (induction os arbitrary: ks)
  case (Cons x os)
  show ?case
  proof (cases "x = ord")
    case True
    have "set (f ord ks) \<subseteq> set (fold f os (f ord ks))" by (rule fold_keys_mono) (rule assms(1))
    with assms(3) [of ks] True show ?thesis by auto
  next
    case False
    with Cons show ?thesis by simp
  qed
qed simp

lemma limit_is_key:
  assumes "ord \<in> set buys \<union> set sells" "order_ok ord" "\<not> is_market ord"
  shows "caLimitPrice ord \<in> set (candidate_keys m buys sells)"
proof -
  have p: "is_fin (caLimitPrice ord)" "flt (Fin 0) (caLimitPrice ord)"
    using assms(2,3) by (auto simp: order_ok_def is_market_def flt_fin fle_fin feq_def)
  have b: "caLimitPrice ord \<in> set (buy_keys t ord ks)" and s: "caLimitPrice ord \<in> set (sell_keys t ord ks)" for t ks
    using add_key_pos [OF p, of ks] add_key_mem(2) p(2)
    by (simp_all add: buy_keys_def sell_keys_def subset_iff)
  let ?b = "fold (buy_keys (price_tick m)) buys []" and ?t = "price_tick m"
  have "caLimitPrice ord \<in> set (fold (sell_keys ?t) sells ?b)"
  proof (cases "ord \<in> set buys")
    case True
    then have "caLimitPrice ord \<in> set ?b" by (rule fold_keys_mem [OF buy_keys_mono]) (rule b)
    then show ?thesis using fold_keys_mono [of "sell_keys ?t" ?b sells, OF sell_keys_mono] by blast
  next
    case False
    then have "ord \<in> set sells" using assms(1) by simp
    then show ?thesis by (rule fold_keys_mem [OF sell_keys_mono]) (rule s)
  qed
  then show ?thesis using add_key_mem(2) by (simp add: candidate_keys_def Let_def subset_iff)
qed

lemma insert_float_set [simp]: "set (insert_float x ys) = insert x (set ys)"
  by (induction ys) auto

lemma sort_floats_set [simp]: "set (sort_floats xs) = set xs"
  by (induction xs) (auto simp: sort_floats_def)

lemma better_bound:
  assumes "snd best \<noteq> NaN" "snd s \<noteq> NaN"
  shows "better a s best \<in> {s, best}" "fle (snd best) (snd (better a s best))" "fle (snd s) (snd (better a s best))"
proof -
  show "better a s best \<in> {s, best}" by (auto simp: better_def Let_def)
  have "fle (snd best) (snd s) \<and> fle (snd s) (snd best)" if "feq (snd s) (snd best)"
    using that assms by (auto simp: feq_def fle_def)
  moreover have "flt (snd best) (snd s) \<or> fle (snd s) (snd best)" using not_flt_iff [OF assms] by blast
  ultimately show "fle (snd best) (snd (better a s best))" "fle (snd s) (snd (better a s best))"
    using flt_imp_fle fle_refl assms by (auto simp: better_def Let_def)
qed

lemma best_bound:
  assumes "snd best \<noteq> NaN" "\<forall>s \<in> set ss. snd s \<noteq> NaN"
  shows "fold (better a) ss best \<in> insert best (set ss) \<and> fle (snd best) (snd (fold (better a) ss best)) \<and>
         (\<forall>s \<in> set ss. fle (snd s) (snd (fold (better a) ss best)))"
  using assms
proof (induction ss arbitrary: best)
  case (Cons s ss)
  let ?b = "better a s best"
  have b: "?b \<in> {s, best}" "fle (snd best) (snd ?b)" "fle (snd s) (snd ?b)" using better_bound Cons.prems by auto
  then have "snd ?b \<noteq> NaN" using Cons.prems by auto
  from Cons.IH [OF this] Cons.prems have ih: "fold (better a) ss ?b \<in> insert ?b (set ss)"
    "fle (snd ?b) (snd (fold (better a) ss ?b))" "\<forall>s \<in> set ss. fle (snd s) (snd (fold (better a) ss ?b))" by auto
  moreover from b(2) ih(2) have "fle (snd best) (snd (fold (better a) ss ?b))" by (rule fle_trans)
  moreover from b(3) ih(2) have "fle (snd s) (snd (fold (better a) ss ?b))" by (rule fle_trans)
  ultimately show ?case using b(1) by auto
qed (simp add: fle_refl)

text \<open>Every price is dominated by a candidate.\<close>

lemma candidate_dominates:
  assumes ok: "\<forall>ord \<in> set buys \<union> set sells. order_ok ord" and ne: "candidate_keys m buys sells \<noteq> []"
  shows "\<exists>k \<in> set (candidate_keys m buys sells). fle (matchable buys sells p) (matchable buys sells (auctionRound4 k))"
proof -
  let ?B = "map caLimitPrice (filter (\<lambda>ord. \<not> is_market ord \<and> fle p (caLimitPrice ord)) buys)"
  let ?S = "map caLimitPrice (filter (\<lambda>ord. \<not> is_market ord \<and> fle (caLimitPrice ord) p) sells)"
  have n: "caLimitPrice ord \<noteq> NaN" "auctionRound4 (caLimitPrice ord) = caLimitPrice ord"
    if "ord \<in> set buys \<union> set sells" for ord
    using ok that by (auto simp: order_ok_def is_fin_not_NaN)
  have tot: "fle (caLimitPrice x) (caLimitPrice y) \<or> fle (caLimitPrice y) (caLimitPrice x)"
    if "x \<in> set buys \<union> set sells" "y \<in> set buys \<union> set sells" for x y using n that fle_total by blast
  consider "?B \<noteq> []" | "?B = []" "?S \<noteq> []" | "?B = []" "?S = []" by blast
  then show ?thesis
  proof cases
    case 1
    then have "\<exists>k \<in> set ?B. \<forall>x \<in> set ?B. fle k x"
      by (rule ex_first) (use fle_trans in blast, use tot in auto)
    then obtain k where k: "k \<in> set ?B" "\<forall>x \<in> set ?B. fle k x" by blast
    then obtain ord where ord: "ord \<in> set buys" "k = caLimitPrice ord" "\<not> is_market ord" "fle p k" by auto
    have "\<forall>x \<in> set buys. eligible_buy p x \<longrightarrow> eligible_buy k x"
      using k(2) by (auto simp: eligible_buy_def is_market_def)
    moreover have "\<forall>x \<in> set sells. eligible_sell p x \<longrightarrow> eligible_sell k x"
      using fle_trans [OF _ ord(4)] by (auto simp: eligible_sell_def)
    ultimately have "fle (matchable buys sells p) (matchable buys sells k)"
      using matchable_mono [OF ok, of p k] by blast
    moreover have "k \<in> set (candidate_keys m buys sells)" using limit_is_key ord ok by auto
    ultimately show ?thesis using n ord by (intro bexI [of _ k]) auto
  next
    case 2
    have "\<exists>k \<in> set ?S. \<forall>x \<in> set ?S. fle x k"
      by (rule ex_first [OF 2(2), of "\<lambda>x y. fle y x"]) (use fle_trans in blast, use tot in auto)
    then obtain k where k: "k \<in> set ?S" "\<forall>x \<in> set ?S. fle x k" by blast
    then obtain ord where ord: "ord \<in> set sells" "k = caLimitPrice ord" "\<not> is_market ord" "fle k p" by auto
    have "\<forall>x \<in> set buys. eligible_buy p x \<longrightarrow> eligible_buy k x"
      using 2(1) by (auto simp: eligible_buy_def is_market_def filter_empty_conv)
    moreover have "\<forall>x \<in> set sells. eligible_sell p x \<longrightarrow> eligible_sell k x"
      using k(2) by (auto simp: eligible_sell_def is_market_def)
    ultimately have "fle (matchable buys sells p) (matchable buys sells k)"
      using matchable_mono [OF ok, of p k] by blast
    moreover have "k \<in> set (candidate_keys m buys sells)" using limit_is_key ord ok by auto
    ultimately show ?thesis using n ord by (intro bexI [of _ k]) auto
  next
    case 3
    then have "fle (matchable buys sells p) (matchable buys sells k)" for k
      using matchable_mono [OF ok, of p k]
      by (auto simp: eligible_buy_def eligible_sell_def is_market_def filter_empty_conv)
    with ne show ?thesis by (cases "candidate_keys m buys sells") auto
  qed
qed

lemma Match_cases:
  assumes ok: "\<forall>ord \<in> set buys \<union> set sells. order_ok ord"
    and "candidate_keys m buys sells \<noteq> []" "mset order = mset (candidate_keys m buys sells)"
    and "buys \<noteq> []" "sells \<noteq> []"
  obtains best where "snd best = matchable buys sells (fst best)"
    "\<forall>k \<in> set (candidate_keys m buys sells). fle (matchable buys sells (auctionRound4 k)) (snd best)"
    "Match order m buys sells = (if fle (snd best) (Fin 0) then no_match ''no_overlap''
       else (no_match [])\<lparr>crClearingPrice := fst best, crMatchedVolume := snd best,
              crFills := allocateFills buys sells (fst best) (snd best)\<rparr>)"
proof -
  let ?score = "\<lambda>p. (p, matchable buys sells p)"
  define scored where "scored = map ?score (sort_floats (map auctionRound4 order))"
  define best where "best = fold (better (cmAnchorPrice m)) (tl scored) (hd scored)"
  have keys: "set order = set (candidate_keys m buys sells)" using assms(3) by (rule mset_eq_setD)
  then have ne: "scored \<noteq> []" using assms(2) by (auto simp: scored_def simp flip: set_empty)
  have "matchable buys sells q \<noteq> NaN" for q using matchable_mono [OF ok, of q q] by auto
  then have "\<forall>s \<in> set scored. snd s \<noteq> NaN" by (simp add: scored_def)
  with ne best_bound [of "hd scored" "tl scored" "cmAnchorPrice m"]
  have b: "best \<in> set scored" "\<forall>s \<in> set scored. fle (snd s) (snd best)"
    by (cases scored; auto simp: best_def)+
  show ?thesis
  proof (rule that [of best])
    show "snd best = matchable buys sells (fst best)" using b(1) by (auto simp: scored_def)
    show "\<forall>k \<in> set (candidate_keys m buys sells). fle (matchable buys sells (auctionRound4 k)) (snd best)"
      using b(2) keys by (auto simp: scored_def)
  qed (use assms(2,4,5) in \<open>simp add: Match_def best_def scored_def Let_def\<close>)
qed

text \<open>C28: the call auction clears at a price of maximal volume: for orders with limits on the four-decimal grid,
  no price whatever, on or off the candidate grid, would execute more volume than the matcher reports, and
  the reported volume is the one that executes at the reported price.\<close>

theorem auction_maximal:
  assumes "\<forall>ord \<in> set buys \<union> set sells. order_ok ord"
    and "candidate_keys m buys sells \<noteq> []" "mset order = mset (candidate_keys m buys sells)"
    and "buys \<noteq> []" "sells \<noteq> []"
  shows "fle (matchable buys sells p) (crMatchedVolume (Match order m buys sells)) \<and>
         (crNoMatchReason (Match order m buys sells) = [] \<longrightarrow>
            crMatchedVolume (Match order m buys sells) = matchable buys sells (crClearingPrice (Match order m buys sells)) \<and>
            flt (Fin 0) (crMatchedVolume (Match order m buys sells)))"
proof (rule Match_cases [OF assms])
  fix best
  assume m: "snd best = matchable buys sells (fst best)"
    and k: "\<forall>k \<in> set (candidate_keys m buys sells). fle (matchable buys sells (auctionRound4 k)) (snd best)"
    and M: "Match order m buys sells = (if fle (snd best) (Fin 0) then no_match ''no_overlap''
       else (no_match [])\<lparr>crClearingPrice := fst best, crMatchedVolume := snd best,
              crFills := allocateFills buys sells (fst best) (snd best)\<rparr>)"
  have p: "fle (matchable buys sells p) (snd best)"
    using candidate_dominates [OF assms(1,2), of p] k fle_trans by blast
  show ?thesis
  proof (cases "fle (snd best) (Fin 0)")
    case True
    then show ?thesis using fle_trans [OF p True] by (simp add: M no_match_def)
  next
    case False
    have "snd best \<noteq> NaN" using p by auto
    then have "flt (Fin 0) (snd best)" using False not_fle_iff [of "snd best" "Fin 0"] by auto
    then show ?thesis using p m False by (simp add: M)
  qed
qed

section \<open>Fills\<close>

definition rest_ok :: "f64 \<Rightarrow> bool" where
  "rest_ok x \<longleftrightarrow> is_fin x \<and> f64_wf x \<and> fle (Fin 0) x"

lemma fneg_wf: "f64_wf b \<Longrightarrow> f64_wf (fneg b)"
  by (simp add: f64_wf_def)

lemma fin_between: "fle x u \<Longrightarrow> is_fin u \<Longrightarrow> fle (Fin 0) x \<Longrightarrow> is_fin x"
  by (cases x; cases u) (auto simp: fle_def)

lemma fsub_rest:
  assumes "rest_ok a" "rest_ok b" "fle b a"
  shows "rest_ok (fsub a b)"
proof -
  have nb: "fle (fneg b) (Fin 0)" using assms(2) by (cases b) (auto simp: rest_ok_def fle_def)
  have "fadd a (fneg b) \<noteq> NaN" "fadd a (Fin 0) \<noteq> NaN"
    using assms by (simp_all add: rest_ok_def fadd_fin_not_NaN)
  with nb have "fle (fadd a (fneg b)) (fadd a (Fin 0))"
    using assms(1) by (intro fadd_mono fle_refl) (auto simp: rest_ok_def is_fin_not_NaN)
  moreover have "is_fin (fadd a (Fin 0))"
    using assms(1) by (cases a) (auto simp: rest_ok_def fadd_fin f64_wf_def rnd_exact)
  moreover have "fle (Fin 0) (fsub a b)" using assms by (intro fsub_nonneg) (auto simp: rest_ok_def)
  moreover have "f64_wf (fsub a b)" using assms fadd_wf fneg_wf by (simp add: rest_ok_def fsub_def)
  ultimately show ?thesis using fin_between [of "fsub a b" "fadd a (Fin 0)"] by (simp add: rest_ok_def fsub_def)
qed

lemma math_Min_rest:
  assumes "rest_ok a" "f64_wf b" "fle (Fin 0) b"
  shows "rest_ok (math_Min a b) \<and> fle (math_Min a b) a \<and> fle (math_Min a b) b"
proof -
  have a: "fle (Fin 0) a" "is_fin a" "f64_wf a" using assms(1) by (auto simp: rest_ok_def)
  note m = math_Min_props [OF a(1) assms(3)]
  have "f64_wf (math_Min a b)" using a(3) assms(2) by (auto simp: math_Min_def fmin_def f64_wf_def)
  moreover have "is_fin (math_Min a b)" using fin_between [OF m(1) a(2) m(3)] .
  ultimately show ?thesis using m by (simp add: rest_ok_def)
qed

text \<open>What both kinds of fill have in common: an amount within the order and within what is left.\<close>

definition fill_step :: "(CallAuctionOrder \<Rightarrow> f64 \<times> f64 dict \<Rightarrow> f64 \<times> f64 dict) \<Rightarrow> bool" where
  "fill_step F \<longleftrightarrow> (\<forall>ord rest fills. order_ok ord \<longrightarrow> rest_ok rest \<longrightarrow>
     (\<exists>f. F ord (rest, fills) = (fsub rest f, fmupd (caID ord) f fills) \<and> rest_ok f \<and> fle f (caQuantity ord) \<and> fle f rest))"

lemma fill_market_step: "fill_step fill_market"
  unfolding fill_step_def
proof (intro allI impI)
  fix ord rest fills assume "order_ok ord" "rest_ok rest"
  with math_Min_rest [of "caQuantity ord" rest]
  show "\<exists>f. fill_market ord (rest, fills) = (fsub rest f, fmupd (caID ord) f fills) \<and> rest_ok f \<and>
      fle f (caQuantity ord) \<and> fle f rest"
    by (auto simp: fill_market_def Let_def order_ok_def rest_ok_def)
qed

lemma fill_limit_step:
  assumes "is_fin ratio" "fle (Fin 0) ratio"
  shows "fill_step (fill_limit ratio)"
  unfolding fill_step_def
proof (intro allI impI)
  fix ord rest fills assume o: "order_ok ord" and r: "rest_ok rest"
  let ?raw = "fmul (caQuantity ord) ratio"
  have raw: "fle (Fin 0) ?raw" using o assms by (intro fmul_nonneg) (auto simp: order_ok_def)
  have i: "fle (math_Min ?raw rest) rest" "fle (Fin 0) (math_Min ?raw rest)"
    using math_Min_props [OF raw] r by (auto simp: rest_ok_def)
  have "f64_wf (math_Min ?raw rest)" using r fmul_wf by (auto simp: math_Min_def fmin_def rest_ok_def) (simp_all add: f64_wf_def)
  with o i math_Min_rest [of "caQuantity ord" "math_Min ?raw rest"]
  show "\<exists>f. fill_limit ratio ord (rest, fills) = (fsub rest f, fmupd (caID ord) f fills) \<and> rest_ok f \<and>
      fle f (caQuantity ord) \<and> fle f rest"
    using fle_trans by (auto simp: fill_limit_def Let_def order_ok_def rest_ok_def)
qed

lemma fold_fills:
  assumes "fill_step F" "\<forall>ord \<in> set os. order_ok ord" "rest_ok rest" "fold F os (rest, fills) = (rest', fills')"
  shows "rest_ok rest' \<and> (\<forall>i f. fmlookup fills' i = Some f \<longrightarrow>
      (\<exists>ord \<in> set os. caID ord = i \<and> fle (Fin 0) f \<and> fle f (caQuantity ord)) \<or> fmlookup fills i = Some f)"
  using assms(2-4)
proof (induction os arbitrary: rest fills)
  case (Cons ord os)
  from assms(1) Cons.prems obtain f where f: "F ord (rest, fills) = (fsub rest f, fmupd (caID ord) f fills)" "rest_ok f"
    "fle f (caQuantity ord)" "fle f rest" unfolding fill_step_def by (metis list.set_intros(1))
  have "rest_ok (fsub rest f)" using fsub_rest Cons.prems(2) f by blast
  from Cons.IH [OF _ this, of "fmupd (caID ord) f fills"] Cons.prems f(1) have ih: "rest_ok rest'"
    "\<And>i g. fmlookup fills' i = Some g \<Longrightarrow>
      (\<exists>ord \<in> set os. caID ord = i \<and> fle (Fin 0) g \<and> fle g (caQuantity ord)) \<or> fmlookup (fmupd (caID ord) f fills) i = Some g"
    by auto
  have f0: "fle (Fin 0) f" using f(2) by (simp add: rest_ok_def)
  show ?case
  proof (intro conjI allI impI)
    fix i g assume "fmlookup fills' i = Some g"
    from ih(2) [OF this] show "(\<exists>ord' \<in> set (ord # os). caID ord' = i \<and> fle (Fin 0) g \<and> fle g (caQuantity ord')) \<or>
        fmlookup fills i = Some g"
      using f0 f(3) by (cases "i = caID ord") auto
  qed (rule ih(1))
qed simp

lemma fill_ratio_ok:
  assumes "rest_ok matched"
  shows "is_fin (fill_ratio matched demand) \<and> fle (Fin 0) (fill_ratio matched demand)"
proof (cases "flt (Fin 0) demand \<and> flt matched demand")
  case True
  have m: "is_fin matched" "fle (Fin 0) matched" using assms by (auto simp: rest_ok_def)
  show ?thesis
  proof (cases "is_fin demand")
    case fin: True
    have d: "0 \<le> valof matched / valof demand" "valof matched / valof demand \<le> 1" "0 < valof demand"
      using True m fin by (auto simp: flt_fin fle_fin divide_le_eq)
    have e: "fdiv matched demand = f64_of (neg_bit matched \<noteq> neg_bit demand) (valof matched / valof demand)"
      using m fin d(3) by (cases matched; cases demand) (auto simp: fdiv_def Let_def is_inf_def is_zero_def)
    have "fle (f64_of (neg_bit matched \<noteq> neg_bit demand) (valof matched / valof demand)) (rnd 1)"
      unfolding rnd_def by (rule f64_of_mono) (rule d(2))
    moreover have "is_fin (rnd 1)" by code_simp
    ultimately show ?thesis
      using True f64_of_nonneg [OF d(1)] fin_between by (auto simp: fill_ratio_def e)
  next
    case False
    then have "demand = PInf" using True by (cases demand) (auto simp: flt_def)
    then have "fill_ratio matched demand \<in> {Fin 0, MZero}"
      using m True by (cases matched) (auto simp: fill_ratio_def fdiv_def Let_def is_inf_def is_zero_def)
    then show ?thesis by (auto simp: fle_fin)
  qed
qed (auto simp: fill_ratio_def fle_fin)

lemma allocateFills_bounded:
  assumes "\<forall>ord \<in> set buys \<union> set sells. order_ok ord" "rest_ok matched"
    and "fmlookup (allocateFills buys sells price matched) i = Some f"
  shows "\<exists>ord. caID ord = i \<and> fle (Fin 0) f \<and> fle f (caQuantity ord) \<and>
    (ord \<in> set buys \<and> eligible_buy price ord \<or> ord \<in> set sells \<and> eligible_sell price ord)"
proof -
  let ?eb = "filter (eligible_buy price) buys" and ?es = "filter (eligible_sell price) sells"
  let ?mb = "filter is_market ?eb" and ?lb = "filter (\<lambda>ord. \<not> is_market ord) ?eb"
  let ?ms = "filter is_market ?es" and ?ls = "filter (\<lambda>ord. \<not> is_market ord) ?es"
  define br where "br = fill_ratio matched (fadd (cum_qty (\<lambda>_. True) ?mb (Fin 0)) (cum_qty (\<lambda>_. True) ?lb (Fin 0)))"
  define sr where "sr = fill_ratio matched (cum_qty (\<lambda>_. True) ?es (Fin 0))"
  have steps: "fill_step fill_market" "fill_step (fill_limit br)" "fill_step (fill_limit sr)"
    using fill_market_step fill_limit_step fill_ratio_ok [OF assms(2)] by (auto simp: br_def sr_def)
  have ok: "\<forall>ord \<in> set ?mb. order_ok ord" "\<forall>ord \<in> set ?lb. order_ok ord" "\<forall>ord \<in> set ?ms. order_ok ord" "\<forall>ord \<in> set ?ls. order_ok ord"
    using assms(1) by auto
  obtain r1 f1 where 1: "fold fill_market ?mb (matched, fmempty) = (r1, f1)" by fastforce
  obtain r2 f2 where 2: "fold (fill_limit br) ?lb (r1, f1) = (r2, f2)" by fastforce
  obtain r3 f3 where 3: "fold fill_market ?ms (matched, f2) = (r3, f3)" by fastforce
  obtain r4 f4 where 4: "fold (fill_limit sr) ?ls (r3, f3) = (r4, f4)" by fastforce
  have a: "allocateFills buys sells price matched = f4"
    using 1 2 3 4 by (simp add: allocateFills_def Let_def br_def sr_def)
  note s1 = fold_fills [OF steps(1) ok(1) assms(2) 1]
  note s2 = fold_fills [OF steps(2) ok(2) conjunct1 [OF s1] 2]
  note s3 = fold_fills [OF steps(1) ok(3) assms(2) 3]
  note s4 = fold_fills [OF steps(3) ok(4) conjunct1 [OF s3] 4]
  define good :: "CallAuctionOrder list \<Rightarrow> bool" where "good os \<longleftrightarrow> (\<exists>ord \<in> set os. caID ord = i \<and> fle (Fin 0) f \<and> fle f (caQuantity ord))" for os
  have l4: "fmlookup f4 i = Some f" using assms(3) a by simp
  from s4 l4 have "good ?ls \<or> fmlookup f3 i = Some f" unfolding good_def by blast
  with s3 have "good ?ls \<or> good ?ms \<or> fmlookup f2 i = Some f" unfolding good_def by blast
  with s2 have "good ?ls \<or> good ?ms \<or> good ?lb \<or> fmlookup f1 i = Some f" unfolding good_def by blast
  with s1 have "good ?ls \<or> good ?ms \<or> good ?lb \<or> good ?mb" unfolding good_def fmempty_lookup by blast
  then show ?thesis unfolding good_def by auto
qed

lemma cum_qty_wf: "\<forall>ord \<in> set os. order_ok ord \<Longrightarrow> f64_wf a \<Longrightarrow> f64_wf (cum_qty E os a)"
proof (induction os arbitrary: a)
  case (Cons ord os)
  then have "f64_wf (if E ord then fadd a (caQuantity ord) else a)" by (simp add: order_ok_def fadd_wf)
  with Cons show ?case by (simp add: cum_qty_def)
qed (simp add: cum_qty_def)

lemma matchable_rest:
  assumes "\<forall>ord \<in> set buys \<union> set sells. order_ok ord" "is_fin (matchable buys sells p)"
  shows "rest_ok (matchable buys sells p)"
proof -
  have "f64_wf (cum_qty (eligible_buy p) buys (Fin 0))" "f64_wf (cum_qty (eligible_sell p) sells (Fin 0))"
    by (rule cum_qty_wf; use assms(1) in \<open>simp add: f64_wf_def\<close>)+
  then have "f64_wf (matchable buys sells p)" by (auto simp: matchable_def math_Min_def fmin_def)
  with assms matchable_mono [of buys sells p p] show ?thesis by (simp add: rest_ok_def)
qed

text \<open>C29: a fill of the auction belongs to an order that may trade at the clearing price, a buy at or above it,
  a sell at or below it, or a market order, and it is between zero and the order's quantity.\<close>

theorem auction_fills_bounded:
  assumes "\<forall>ord \<in> set buys \<union> set sells. order_ok ord" "mset order = mset (candidate_keys m buys sells)"
    and "Match order m buys sells = r" "is_fin (crMatchedVolume r)" "fmlookup (crFills r) i = Some f"
  shows "\<exists>ord. caID ord = i \<and> fle (Fin 0) f \<and> fle f (caQuantity ord) \<and>
    (ord \<in> set buys \<and> eligible_buy (crClearingPrice r) ord \<or> ord \<in> set sells \<and> eligible_sell (crClearingPrice r) ord)"
proof (cases "buys = [] \<or> sells = [] \<or> candidate_keys m buys sells = []")
  case True
  with assms(3,5) show ?thesis by (auto simp: Match_def no_match_def)
next
  case False
  then have ne: "candidate_keys m buys sells \<noteq> []" "buys \<noteq> []" "sells \<noteq> []" by auto
  show ?thesis
  proof (rule Match_cases [OF assms(1) ne(1) assms(2) ne(2,3)])
    fix best
    assume m: "snd best = matchable buys sells (fst best)"
      and M: "Match order m buys sells = (if fle (snd best) (Fin 0) then no_match ''no_overlap''
         else (no_match [])\<lparr>crClearingPrice := fst best, crMatchedVolume := snd best,
                crFills := allocateFills buys sells (fst best) (snd best)\<rparr>)"
    from M assms(3,5) have r: "crClearingPrice r = fst best" "crMatchedVolume r = snd best"
      "crFills r = allocateFills buys sells (fst best) (snd best)"
      by (auto simp: no_match_def split: if_splits)
    have "rest_ok (snd best)" using matchable_rest [OF assms(1)] assms(4) r(2) m by simp
    from allocateFills_bounded [OF assms(1) this, of "fst best" i f] assms(5) show ?thesis by (simp add: r)
  qed
qed

section \<open>Examples\<close>

definition sample_auction_order :: "string \<Rightarrow> int \<Rightarrow> int \<Rightarrow> CallAuctionOrder" where
  "sample_auction_order i qty limit = \<lparr>caID = i, caSymbol = ''600000.SH'', caDirection = [],
     caQuantity = Fin (of_int qty), caLimitPrice = Fin (of_int limit), caTimestamp = 0\<rparr>"

definition sample_buys :: "CallAuctionOrder list" where
  "sample_buys = [sample_auction_order ''b'' 300 8]"

definition sample_sells :: "CallAuctionOrder list" where
  "sample_sells = [sample_auction_order ''s'' 200 8]"

definition sample_matcher :: CallAuctionMatcher where
  "sample_matcher = \<lparr>cmPriceTick = Fin 1, cmAnchorPrice = Fin 8\<rparr>"

lemma sample_auction_keys: "candidate_keys sample_matcher sample_buys sample_sells = [Fin 8, Fin 9, Fin 7]"
  by code_simp

lemma sample_auction_ok: "\<forall>ord \<in> set sample_buys \<union> set sample_sells. order_ok ord"
  by code_simp

lemma sample_auction_premises: "candidate_keys sample_matcher sample_buys sample_sells \<noteq> []"
    "mset [Fin 9, Fin 7, Fin 8] = mset (candidate_keys sample_matcher sample_buys sample_sells)"
    "sample_buys \<noteq> []" "sample_sells \<noteq> []"
  unfolding sample_auction_keys by (simp_all add: sample_buys_def sample_sells_def add_mset_commute)

theorem auction_maximal_witness:
  "fle (matchable sample_buys sample_sells (Fin 5)) (crMatchedVolume (Match [Fin 9, Fin 7, Fin 8] sample_matcher sample_buys sample_sells))"
  using auction_maximal [OF sample_auction_ok sample_auction_premises, of "Fin 5"] by blast

theorem auction_fills_bounded_witness:
  "\<exists>f. fmlookup (crFills (Match [Fin 9, Fin 7, Fin 8] sample_matcher sample_buys sample_sells)) ''b'' = Some f \<and>
     fle (Fin 0) f \<and> fle f (Fin 300)"
proof -
  let ?r = "Match [Fin 9, Fin 7, Fin 8] sample_matcher sample_buys sample_sells"
  have "is_fin (crMatchedVolume ?r) \<and> fmlookup (crFills ?r) ''b'' \<noteq> None" by code_simp
  then obtain f where f: "is_fin (crMatchedVolume ?r)" "fmlookup (crFills ?r) ''b'' = Some f" by blast
  from auction_fills_bounded [OF sample_auction_ok sample_auction_premises(2) refl f] show ?thesis
    using f(2) by (auto simp: sample_buys_def sample_sells_def sample_auction_order_def)
qed

end
