(* ===== verification/Stock_State.thy ===== *)
theory Stock_State
  imports Mock_Trader
begin

text \<open>
  The delisting state machine and the forced liquidator (\<open>src/pkg/live/stockstate/stock_state.go\<close>). The
  registry's clock is an argument of the operations, as is the order in which Go iterates its map.
  The liquidator calls a trader through an interface: \<open>LiveTrader\<close> has the two operations it uses, and
  \<open>mock_live\<close> is the paper trader seen through it.
\<close>

section \<open>States\<close>

datatype StockState =
    StockStateListed | StockStateSuspended | StockStateDelisting | StockStateDelisted | StockStateOther string

definition IsTerminal :: "StockState \<Rightarrow> bool" where
  "IsTerminal s \<longleftrightarrow> s = StockStateDelisted"

record StockStateRecord =
  srSymbol :: symbol
  srState :: StockState
  srReason :: string
  srDelistingPeriodStart :: gotime
  srDelistingPeriodEnd :: gotime
  srDelistedDate :: gotime
  srUpdatedAt :: gotime

definition IsInDelistingWindow :: "StockStateRecord \<Rightarrow> gotime \<Rightarrow> duration \<Rightarrow> bool" where
  "IsInDelistingWindow r now window \<longleftrightarrow>
     srState r = StockStateDelisting \<and> \<not> is_zero_time (srDelistedDate r) \<and>
     now < srDelistedDate r \<and> srDelistedDate r - now \<le> window"

fun isValidStockState :: "StockState \<Rightarrow> bool" where
  "isValidStockState (StockStateOther _) = False"
| "isValidStockState _ = True"

fun isLegalTransition :: "StockState \<Rightarrow> StockState \<Rightarrow> bool" where
  "isLegalTransition StockStateListed to =
     (to = StockStateSuspended \<or> to = StockStateDelisting \<or> to = StockStateDelisted)"
| "isLegalTransition StockStateSuspended to = (to = StockStateListed \<or> to = StockStateDelisting)"
| "isLegalTransition StockStateDelisting to = (to = StockStateDelisted)"
| "isLegalTransition StockStateDelisted to = False"
| "isLegalTransition (StockStateOther _) to = False"

section \<open>Registry\<close>

record StockStateRegistry =
  rgRecords :: "StockStateRecord dict"
  rgLiquidationWindow :: duration

datatype state_error =
    StateSymbolRequired
  | InvalidState StockState
  | ErrIllegalStateTransition symbol StockState StockState
  | DelistedDateRequired StockState

definition default_window :: "duration \<Rightarrow> duration" where
  "default_window w = (if w = 0 then 5 * day_ns else w)"

definition NewStockStateRegistry :: "duration \<Rightarrow> StockStateRegistry" where
  "NewStockStateRegistry window = \<lparr>rgRecords = fmempty, rgLiquidationWindow = default_window window\<rparr>"

text \<open>The record of a transition: the delisting timeline is filled in, or kept from the previous record.\<close>

definition new_record ::
    "gotime \<Rightarrow> symbol \<Rightarrow> StockState \<Rightarrow> string \<Rightarrow> gotime \<Rightarrow> StockStateRecord option \<Rightarrow> StockStateRecord option" where
  "new_record now symb state reason delistedDate prev =
     (let rec = \<lparr>srSymbol = symb, srState = state, srReason = reason, srDelistingPeriodStart = 0,
                 srDelistingPeriodEnd = 0, srDelistedDate = 0, srUpdatedAt = now\<rparr>
      in if state = StockStateDelisting \<or> state = StockStateDelisted
         then (if is_zero_time delistedDate then None
               else let rec = rec\<lparr>srDelistedDate := delistedDate,
                                  srDelistingPeriodStart := delistedDate - 21 * day_ns,
                                  srDelistingPeriodEnd := delistedDate - day_ns\<rparr>
                    in Some (if state = StockStateDelisted
                             then rec\<lparr>srDelistingPeriodStart := delistedDate, srDelistingPeriodEnd := delistedDate\<rparr>
                             else rec))
         else case prev of
             None \<Rightarrow> Some rec
           | Some p \<Rightarrow> Some (rec\<lparr>srDelistingPeriodStart := srDelistingPeriodStart p,
                                 srDelistingPeriodEnd := srDelistingPeriodEnd p, srDelistedDate := srDelistedDate p\<rparr>))"

definition SetState ::
    "gotime \<Rightarrow> symbol \<Rightarrow> StockState \<Rightarrow> string \<Rightarrow> gotime \<Rightarrow> StockStateRegistry \<Rightarrow> state_error option \<times> StockStateRegistry" where
  "SetState now symb state reason delistedDate r =
     (if symb = [] then (Some StateSymbolRequired, r)
      else if \<not> isValidStockState state then (Some (InvalidState state), r)
      else let prev = fmlookup (rgRecords r) symb
           in if (case prev of None \<Rightarrow> False | Some p \<Rightarrow> \<not> isLegalTransition (srState p) state)
              then (Some (ErrIllegalStateTransition symb (srState (the prev)) state), r)
              else case new_record now symb state reason delistedDate prev of
                  None \<Rightarrow> (Some (DelistedDateRequired state), r)
                | Some rec \<Rightarrow> (None, r\<lparr>rgRecords := fmupd symb rec (rgRecords r)\<rparr>))"

definition GetState :: "symbol \<Rightarrow> StockStateRegistry \<Rightarrow> StockStateRecord option" where
  "GetState symb r = fmlookup (rgRecords r) symb"

text \<open>\<open>order\<close> is the order in which the map is iterated. \<open>sort.Slice\<close> is not stable: the order among equal dates is
  arbitrary in the code, and here it is the one of \<open>order\<close>.\<close>

definition ListByState :: "symbol list \<Rightarrow> StockState \<Rightarrow> StockStateRegistry \<Rightarrow> StockStateRecord list" where
  "ListByState order state r =
     sort_key srDelistedDate
       (filter (\<lambda>rec. state = StockStateOther [] \<or> srState rec = state) (List.map_filter (fmlookup (rgRecords r)) order))"

definition AllSymbols :: "StockStateRegistry \<Rightarrow> symbol list" where
  "AllSymbols r = sorted_keys (rgRecords r)"

definition Count :: "StockStateRegistry \<Rightarrow> nat" where
  "Count r = length (AllSymbols r)"

definition Delete_state :: "symbol \<Rightarrow> StockStateRegistry \<Rightarrow> StockStateRegistry" where
  "Delete_state symb r = r\<lparr>rgRecords := fmdrop symb (rgRecords r)\<rparr>"

section \<open>Forced liquidation\<close>

record 'a LiveTrader =
  ltGetPositions :: "'a \<Rightarrow> string + PositionInfo list"
  ltEmergencyFlatten :: "string \<Rightarrow> 'a \<Rightarrow> (string + EmergencyFlattenResult) \<times> 'a"

record LiquidationAction =
  laSymbol :: symbol
  laState :: StockState
  laDelistedDate :: gotime
  laQuantity :: f64
  laSold :: bool
  laReason :: string
  laTimestamp :: gotime

record LiquidationResult =
  lqScannedAt :: gotime
  lqActions :: "LiquidationAction list"
  lqTotalSold :: nat
  lqTotalSkipped :: nat

text \<open>The quantities by symbol: a later position of the same symbol overwrites an earlier one.\<close>

definition pos_by_symbol :: "PositionInfo list \<Rightarrow> f64 dict" where
  "pos_by_symbol ps = fold (\<lambda>p m. fmupd (piSymbol p) (piQuantity p) m) ps fmempty"

definition scan_action :: "gotime \<Rightarrow> StockStateRecord \<Rightarrow> LiquidationAction" where
  "scan_action now rec = \<lparr>laSymbol = srSymbol rec, laState = srState rec, laDelistedDate = srDelistedDate rec,
     laQuantity = Fin 0, laSold = False, laReason = [], laTimestamp = now\<rparr>"

definition add_action :: "LiquidationAction \<Rightarrow> LiquidationResult \<Rightarrow> LiquidationResult" where
  "add_action action res =
     (if laSold action then res\<lparr>lqActions := lqActions res @ [action], lqTotalSold := lqTotalSold res + 1\<rparr>
      else res\<lparr>lqActions := lqActions res @ [action], lqTotalSkipped := lqTotalSkipped res + 1\<rparr>)"

text \<open>The outcome of one flatten call for a record: the first sold order of its symbol decides.\<close>

definition flatten_action :: "LiquidationAction \<Rightarrow> string + EmergencyFlattenResult \<Rightarrow> LiquidationAction" where
  "flatten_action action outcome =
     (case outcome of
        Inl e \<Rightarrow> action\<lparr>laReason := ''flatten_error: '' @ e\<rparr>
      | Inr flatten \<Rightarrow>
          (case find (\<lambda>so. efSymbol so = laSymbol action) (efSold flatten) of
             Some so \<Rightarrow> action\<lparr>laSold := True, laQuantity := efQuantity so\<rparr>
           | None \<Rightarrow> action\<lparr>laReason := ''flatten_returned_no_sell''\<rparr>))"

text \<open>\<open>ctxErr\<close> is what \<open>ctx.Err()\<close> returns when the candidate is reached.\<close>

fun scan_loop ::
    "'a LiveTrader \<Rightarrow> (StockStateRecord \<Rightarrow> string option) \<Rightarrow> gotime \<Rightarrow> duration \<Rightarrow> f64 dict \<Rightarrow>
     StockStateRecord list \<Rightarrow> LiquidationResult \<Rightarrow> 'a \<Rightarrow> (string option \<times> LiquidationResult) \<times> 'a" where
  "scan_loop tr ctxErr now window positions [] res a = ((None, res), a)"
| "scan_loop tr ctxErr now window positions (rec # recs) res a =
     (let action = scan_action now rec
      in if \<not> IsInDelistingWindow rec now window
         then scan_loop tr ctxErr now window positions recs (add_action (action\<lparr>laReason := ''outside_window''\<rparr>) res) a
         else case ctxErr rec of
             Some e \<Rightarrow> ((Some e, res), a)
           | None \<Rightarrow>
               (let qty = (case fmlookup positions (srSymbol rec) of None \<Rightarrow> Fin 0 | Some q \<Rightarrow> q);
                    action = action\<lparr>laQuantity := qty\<rparr>
                in if fle qty (Fin 0)
                   then scan_loop tr ctxErr now window positions recs
                          (add_action (action\<lparr>laReason := ''no_position''\<rparr>) res) a
                   else let reason = ''forced_liquidation_delisting:'' @ srSymbol rec @ '':'' @ format_date (srDelistedDate rec);
                            (outcome, a) = ltEmergencyFlatten tr reason a
                        in scan_loop tr ctxErr now window positions recs (add_action (flatten_action action outcome) res) a))"

definition Scan ::
    "'a LiveTrader \<Rightarrow> (StockStateRecord \<Rightarrow> string option) \<Rightarrow> gotime \<Rightarrow> duration \<Rightarrow> symbol list \<Rightarrow> StockStateRegistry \<Rightarrow> 'a \<Rightarrow>
     (string + (string option \<times> LiquidationResult)) \<times> 'a" where
  "Scan tr ctxErr now window order r a =
     (let candidates = ListByState order StockStateDelisting r;
          res = \<lparr>lqScannedAt = now, lqActions = [], lqTotalSold = 0, lqTotalSkipped = 0\<rparr>
      in if candidates = [] then (Inr (None, res), a)
         else case ltGetPositions tr a of
             Inl e \<Rightarrow> (Inl (''fetch positions: '' @ e), a)
           | Inr positions \<Rightarrow>
               (let (out, a) = scan_loop tr ctxErr now window (pos_by_symbol positions) candidates res a in (Inr out, a)))"

text \<open>
  The paper trader behind the interface: \<open>iter\<close> is the order in which its map of positions is iterated
  in a state, \<open>oid\<close> names the orders of a flatten call.
\<close>

definition mock_live :: "(MockTrader \<Rightarrow> symbol list) \<Rightarrow> (string \<Rightarrow> symbol \<Rightarrow> string) \<Rightarrow> MockTrader LiveTrader" where
  "mock_live iter oid =
     \<lparr>ltGetPositions = (\<lambda>m. Inr (mt_GetPositions (iter m) m)),
      ltEmergencyFlatten = (\<lambda>reason m. let (res, m') = EmergencyFlatten (oid reason) (iter m) reason m in (Inr res, m'))\<rparr>"

section \<open>Delisting is one-way\<close>

inductive ss_step :: "StockStateRegistry \<Rightarrow> StockStateRegistry \<Rightarrow> bool" where
  "ss_step r (snd (SetState now symb state reason delistedDate r))"

definition record_ok :: "symbol \<Rightarrow> StockStateRecord \<Rightarrow> bool" where
  "record_ok symb rec \<longleftrightarrow> srSymbol rec = symb \<and> symb \<noteq> [] \<and> isValidStockState (srState rec) \<and>
     (srState rec \<in> {StockStateDelisting, StockStateDelisted} \<longrightarrow> \<not> is_zero_time (srDelistedDate rec))"

definition registry_ok :: "StockStateRegistry \<Rightarrow> bool" where
  "registry_ok r \<longleftrightarrow> (\<forall>symb rec. fmlookup (rgRecords r) symb = Some rec \<longrightarrow> record_ok symb rec)"

definition later_record :: "StockStateRecord \<Rightarrow> StockStateRecord \<Rightarrow> bool" where
  "later_record rec rec' \<longleftrightarrow> (srState rec = StockStateDelisted \<longrightarrow> rec' = rec) \<and>
     (srState rec = StockStateDelisting \<longrightarrow> rec' = rec \<or> srState rec' = StockStateDelisted)"

lemma new_record_ok:
  assumes "new_record now symb state reason d prev = Some rec" "symb \<noteq> []" "isValidStockState state"
  shows "record_ok symb rec \<and> srState rec = state"
  using assms by (auto simp: new_record_def record_ok_def Let_def split: if_splits option.splits)

lemma SetState_cases:
  obtains "snd (SetState now symb state reason d r) = r"
  | rec where "snd (SetState now symb state reason d r) = r\<lparr>rgRecords := fmupd symb rec (rgRecords r)\<rparr>"
      "record_ok symb rec" "srState rec = state"
      "\<And>p. fmlookup (rgRecords r) symb = Some p \<Longrightarrow> isLegalTransition (srState p) state"
proof (cases "snd (SetState now symb state reason d r) = r")
  case False
  then obtain rec where "symb \<noteq> []" "isValidStockState state"
    "new_record now symb state reason d (fmlookup (rgRecords r) symb) = Some rec"
    "snd (SetState now symb state reason d r) = r\<lparr>rgRecords := fmupd symb rec (rgRecords r)\<rparr>"
    "\<And>p. fmlookup (rgRecords r) symb = Some p \<Longrightarrow> isLegalTransition (srState p) state"
    by (auto simp: SetState_def Let_def split: if_splits option.splits)
  with new_record_ok that(2) show ?thesis by blast
qed (rule that(1))

lemma ss_step_ok:
  assumes "ss_step r r'" "registry_ok r"
  shows "registry_ok r' \<and> (\<forall>symb rec. fmlookup (rgRecords r) symb = Some rec \<longrightarrow>
    (\<exists>rec'. fmlookup (rgRecords r') symb = Some rec' \<and> later_record rec rec'))"
  using assms
proof (induction rule: ss_step.induct)
  case (1 r now symb state reason d)
  show ?case
  proof (rule SetState_cases [of now symb state reason d r])
    fix rec
    assume e: "snd (SetState now symb state reason d r) = r\<lparr>rgRecords := fmupd symb rec (rgRecords r)\<rparr>"
      and ok: "record_ok symb rec" "srState rec = state"
      and legal: "\<And>p. fmlookup (rgRecords r) symb = Some p \<Longrightarrow> isLegalTransition (srState p) state"
    have "later_record p rec" if "fmlookup (rgRecords r) symb = Some p" for p
      using legal [OF that] ok(2) by (auto simp: later_record_def)
    then show ?thesis using 1 ok(1) unfolding e by (auto simp: registry_ok_def later_record_def)
  qed (use 1 in \<open>auto simp: later_record_def\<close>)
qed

lemma later_record_trans: "later_record a b \<Longrightarrow> later_record b c \<Longrightarrow> later_record a c"
  by (auto simp: later_record_def)

lemma ss_run_ok:
  assumes "ss_step\<^sup>*\<^sup>* r r'" "registry_ok r"
  shows "registry_ok r' \<and> (\<forall>symb rec. fmlookup (rgRecords r) symb = Some rec \<longrightarrow>
    (\<exists>rec'. fmlookup (rgRecords r') symb = Some rec' \<and> later_record rec rec'))"
  using assms
proof (induction rule: rtranclp_induct)
  case base
  then show ?case by (auto simp: later_record_def)
next
  case (step r' r'')
  then have "registry_ok r'" and a: "\<And>symb rec. fmlookup (rgRecords r) symb = Some rec \<Longrightarrow>
      \<exists>rec'. fmlookup (rgRecords r') symb = Some rec' \<and> later_record rec rec'" by auto
  from ss_step_ok [OF step(2) this(1)] have "registry_ok r''" and b: "\<And>symb rec. fmlookup (rgRecords r') symb = Some rec \<Longrightarrow>
      \<exists>rec'. fmlookup (rgRecords r'') symb = Some rec' \<and> later_record rec rec'" by auto
  moreover have "\<exists>rec'. fmlookup (rgRecords r'') symb = Some rec' \<and> later_record rec rec'"
    if "fmlookup (rgRecords r) symb = Some rec" for symb rec
    using a [OF that] b later_record_trans by blast
  ultimately show ?case by blast
qed


definition sample_registry :: StockStateRegistry where
  "sample_registry = snd (SetState 5 ''600000.SH'' StockStateDelisting ''loss'' (10 * day_ns) (NewStockStateRegistry 0))"


section \<open>What a scan sells\<close>

definition keyed :: "MockTrader \<Rightarrow> bool" where
  "keyed m \<longleftrightarrow> (\<forall>s pos. fmlookup (mtPositions m) s = Some pos \<longrightarrow> piSymbol pos = s)"

text \<open>\<open>m'\<close> is \<open>m\<close> with every position gone that has a positive quantity and a price.\<close>

definition cleared :: "MockTrader \<Rightarrow> MockTrader \<Rightarrow> bool" where
  "cleared m m' \<longleftrightarrow> mtConfig m' = mtConfig m \<and>
     (\<forall>s. fmlookup (mtPositions m') s = (if flatten_status m s = Some True then None else fmlookup (mtPositions m) s))"

lemma cleared_trans:
  assumes "cleared m m1" "cleared m1 m2"
  shows "cleared m m2"
proof -
  have "flatten_status m1 s = (if flatten_status m s = Some True then None else flatten_status m s)" for s
    using assms(1) flatten_status_frame [of m1 m s] by (auto simp: cleared_def flatten_status_def)
  then show ?thesis using assms by (auto simp: cleared_def)
qed

lemma flatten_cleared:
  assumes "iteration_order (mtPositions m) xs" "EmergencyFlatten oids xs reason m = (res, m')"
  shows "cleared m m'"
proof -
  have "distinct xs" and d: "\<And>s. s \<in> set xs \<longleftrightarrow> fmlookup (mtPositions m) s \<noteq> None"
    using assms(1) by (auto simp: iteration_order_def fmlookup_dom_iff simp flip: fset_of_list.rep_eq)
  from flatten_fold [OF this(1)] assms(2) have c: "mtConfig m' = mtConfig m"
    "\<And>y. fmlookup (mtPositions m') y = (if y \<in> set xs \<and> flatten_status m y = Some True then None else fmlookup (mtPositions m) y)"
    by (auto simp: EmergencyFlatten_def Let_def)
  have "flatten_status m y = Some True \<Longrightarrow> y \<in> set xs" for y
    unfolding d by (auto simp: flatten_status_def split: option.splits)
  with c show ?thesis by (auto simp: cleared_def)
qed

lemma pos_by_symbol_fold:
  assumes "keyed m" "\<And>pos. piSymbol (g pos) = piSymbol pos \<and> piQuantity (g pos) = piQuantity pos"
  shows "fmlookup (fold (\<lambda>p M. fmupd (piSymbol p) (piQuantity p) M) (map g (List.map_filter (fmlookup (mtPositions m)) xs)) M) s =
    (if s \<in> set xs \<and> fmlookup (mtPositions m) s \<noteq> None then map_option piQuantity (fmlookup (mtPositions m) s) else fmlookup M s)"
proof (induction xs arbitrary: M)
  case (Cons x xs)
  then show ?case
    using assms by (cases "fmlookup (mtPositions m) x") (auto simp: map_filter_simps keyed_def)
qed (simp add: map_filter_simps)

lemma pos_by_symbol_lookup:
  assumes "iteration_order (mtPositions m) xs" "keyed m"
  shows "fmlookup (pos_by_symbol (mt_GetPositions xs m)) s = map_option piQuantity (fmlookup (mtPositions m) s)"
proof -
  have "s \<in> set xs \<longleftrightarrow> fmlookup (mtPositions m) s \<noteq> None"
    using assms(1) by (auto simp: iteration_order_def fmlookup_dom_iff simp flip: fset_of_list.rep_eq)
  then show ?thesis
    unfolding pos_by_symbol_def mt_GetPositions_def
    by (subst pos_by_symbol_fold [OF assms(2)]) (auto simp: mt_snapshot_def Let_def split: option.split)
qed

lemma flatten_action_symbol [simp]: "laSymbol (flatten_action a out) = laSymbol a"
  by (auto simp: flatten_action_def split: sum.split option.split)

lemma add_action_symbols [simp]: "map laSymbol (lqActions (add_action a res)) = map laSymbol (lqActions res) @ [laSymbol a]"
  by (simp add: add_action_def)

definition must_sell :: "gotime \<Rightarrow> duration \<Rightarrow> f64 dict \<Rightarrow> StockStateRecord \<Rightarrow> bool" where
  "must_sell now window P rec \<longleftrightarrow> IsInDelistingWindow rec now window \<and>
     (case fmlookup P (srSymbol rec) of None \<Rightarrow> False | Some q \<Rightarrow> \<not> fle q (Fin 0))"

lemma scan_loop_effect:
  assumes "\<And>m. iteration_order (mtPositions m) (iter m)" "a = m \<or> cleared m a"
  shows "\<exists>res' a'. scan_loop (mock_live iter oid) (\<lambda>_. None) now window P recs res a = ((None, res'), a') \<and>
    map laSymbol (lqActions res') = map laSymbol (lqActions res) @ map srSymbol recs \<and>
    (if \<exists>rec \<in> set recs. must_sell now window P rec then cleared m a' else a' = a)"
  using assms(2)
proof (induction recs arbitrary: res a)
  case (Cons rec recs)
  show ?case
  proof (cases "must_sell now window P rec")
    case False
    then obtain reason q where e: "scan_loop (mock_live iter oid) (\<lambda>_. None) now window P (rec # recs) res a =
        scan_loop (mock_live iter oid) (\<lambda>_. None) now window P recs
          (add_action ((scan_action now rec)\<lparr>laQuantity := q, laReason := reason\<rparr>) res) a"
    proof (cases "IsInDelistingWindow rec now window")
      case True
      with False show ?thesis
        by (intro that [of "''no_position''" "case fmlookup P (srSymbol rec) of None \<Rightarrow> Fin 0 | Some q \<Rightarrow> q"])
          (auto simp: must_sell_def Let_def fle_fin split: option.splits)
    next
      case False
      then show ?thesis by (intro that [of "''outside_window''" "Fin 0"]) (simp add: scan_action_def)
    qed
    from Cons.IH [OF Cons.prems, of "add_action ((scan_action now rec)\<lparr>laQuantity := q, laReason := reason\<rparr>) res"] False show ?thesis
      unfolding e by (auto simp: scan_action_def)
  next
    case True
    define reason where "reason = ''forced_liquidation_delisting:'' @ srSymbol rec @ '':'' @ format_date (srDelistedDate rec)"
    obtain fr a1 where f: "EmergencyFlatten (oid reason) (iter a) reason a = (fr, a1)" by fastforce
    have "cleared a a1" by (rule flatten_cleared [OF assms(1) f])
    with Cons.prems cleared_trans have c: "cleared m a1" by blast
    from True obtain q where q: "fmlookup P (srSymbol rec) = Some q" "\<not> fle q (Fin 0)" "IsInDelistingWindow rec now window"
      by (auto simp: must_sell_def split: option.splits)
    let ?res = "add_action (flatten_action ((scan_action now rec)\<lparr>laQuantity := q\<rparr>) (Inr fr)) res"
    have e: "scan_loop (mock_live iter oid) (\<lambda>_. None) now window P (rec # recs) res a =
        scan_loop (mock_live iter oid) (\<lambda>_. None) now window P recs ?res a1"
      using q f by (simp add: mock_live_def Let_def reason_def)
    from Cons.IH [of a1 ?res] c True show ?thesis unfolding e by (auto simp: scan_action_def split: if_splits)
  qed
qed simp


text \<open>
  With two held stocks inside the window the first flatten sells both; the second call finds nothing to
  sell, and the second stock is reported as not sold.
\<close>

definition two_delisting :: StockStateRegistry where
  "two_delisting = snd (SetState 5 ''B'' StockStateDelisting [] (3 * day_ns)
     (snd (SetState 5 ''A'' StockStateDelisting [] (2 * day_ns) (NewStockStateRegistry 0))))"

definition two_held :: MockTrader where
  "two_held = (let m = NewMockTrader \<lparr>mcInitialCash = Fin 100000, mcCommissionRate = Fin (1 / 1024), mcStampTaxRate = Fin (1 / 1024),
       mcSlippageRate = Fin (1 / 1024), mcTransferFeeRate = Fin (1 / 1024), mcMinCommission = Fin 1, mcPriceProvider = None,
       mcOrderStore = False, mcSlippageModel = ''none'', mcImpactSigma = Fin 0, mcImpactLiquidityFactor = Fin 0\<rparr>
     in snd (executeBuy ''2'' ''B'' OrderTypeMarket (Fin 100) (Fin 8)
          (snd (executeBuy ''1'' ''A'' OrderTypeMarket (Fin 100) (Fin 8) m))))"

definition sample_iter :: "MockTrader \<Rightarrow> symbol list" where
  "sample_iter m = sorted_keys (mtPositions m)"

lemma sample_iter_order: "iteration_order (mtPositions m) (sample_iter m)"
  by (auto simp: sample_iter_def iteration_order_def fset_of_list_elem)

lemma second_sale_unreported:
  "case Scan (mock_live sample_iter (\<lambda>r s. r @ s)) (\<lambda>_. None) 0 (5 * day_ns) [''A'', ''B''] two_delisting two_held of
     (Inr (_, res), m') \<Rightarrow> map laSold (lqActions res) = [True, False] \<and> fmdom (mtPositions m') = {||}
   | _ \<Rightarrow> False"
  by code_simp


end
