(* ===== verification/Margin.thy ===== *)
theory Margin
  imports Float64_Math
begin

text \<open>
  The margin account (\<open>src/pkg/live/margin\<close>): the calculator of \<open>margin_calc.go\<close>, the list of shortable
  stocks of \<open>margin_shortable.go\<close> and the account of \<open>margin_account.go\<close>. Sums over a Go map depend on
  the order of the iteration: \<open>it i\<close> is the order of the \<open>i\<close>-th map loop of a call, as a function of
  the keys. \<open>ctxErr\<close> is what \<open>ctx.Err()\<close> returns, \<open>now\<close> what the clock returns. A method runs under the
  account's mutex and is one step, except \<open>ShortSell\<close>, which checks the limit of the stock before it
  takes the lock and is two steps. Logging is left out.

  Proved: every reachable account has positive positions under their own symbols; the guards of
  purchases, short sales and withdrawals; that a forced liquidation closes every position; and that a
  loan is repaid without being paid for. Lemmas on samples show that concurrent short sales exceed the
  limit of a stock, that an accepted purchase may end below the liquidation floor, and that a partial
  cover loses the value of the remaining debt.
\<close>

section \<open>Configuration and calculator\<close>

record MarginConfig =
  mgInitialMarginRate :: f64
  mgMaintenanceRatioFloor :: f64
  mgWarningRatio :: f64
  mgFinancingRate :: f64
  mgSecuritiesLendingRate :: f64
  mgDaysPerYear :: int

definition DefaultMarginConfig :: MarginConfig where
  "DefaultMarginConfig =
     \<lparr>mgInitialMarginRate = Fin (1/2), mgMaintenanceRatioFloor = rnd (13/10), mgWarningRatio = Fin (3/2),
      mgFinancingRate = rnd (6/100), mgSecuritiesLendingRate = rnd (106/1000), mgDaysPerYear = 365\<rparr>"

datatype margin_error =
    AccountIDRequired
  | NegativeInitialCash f64
  | InvalidInitialMarginRate f64
  | InvalidMaintenanceFloor f64
  | InvalidWarningRatio f64 f64
  | InvalidFinancingRate f64
  | InvalidLendingRate f64
  | InvalidDaysPerYear int
  | MarginSymbolRequired
  | MarginQuantityNotPositive f64
  | MarginPriceNotPositive f64
  | CtxError string
  | InsufficientMargin f64 f64
  | NotShortable symbol
  | ExceedsMaxShortable f64 f64 f64
  | NoShortPosition symbol
  | InsufficientShortPosition f64 f64
  | NoLongPosition symbol
  | InsufficientLongPosition f64 f64
  | NegativeDays int
  | DepositNotPositive f64
  | WithdrawNotPositive f64
  | InsufficientCashFor f64 f64
  | BreachesMaintenance f64 f64

definition mg_Validate :: "MarginConfig \<Rightarrow> margin_error option" where
  "mg_Validate c =
     (if flt (mgInitialMarginRate c) (Fin 0) \<or> flt (Fin 1) (mgInitialMarginRate c)
        then Some (InvalidInitialMarginRate (mgInitialMarginRate c))
      else if flt (mgMaintenanceRatioFloor c) (Fin 1)
        then Some (InvalidMaintenanceFloor (mgMaintenanceRatioFloor c))
      else if flt (mgWarningRatio c) (mgMaintenanceRatioFloor c)
        then Some (InvalidWarningRatio (mgWarningRatio c) (mgMaintenanceRatioFloor c))
      else if flt (mgFinancingRate c) (Fin 0) \<or> flt (Fin 1) (mgFinancingRate c)
        then Some (InvalidFinancingRate (mgFinancingRate c))
      else if flt (mgSecuritiesLendingRate c) (Fin 0) \<or> flt (Fin 1) (mgSecuritiesLendingRate c)
        then Some (InvalidLendingRate (mgSecuritiesLendingRate c))
      else if mgDaysPerYear c \<le> 0 then Some (InvalidDaysPerYear (mgDaysPerYear c))
      else None)"

text \<open>The calculator is its configuration, with defaults for the fields that are zero.\<close>

definition NewMarginCalculator :: "MarginConfig \<Rightarrow> MarginConfig" where
  "NewMarginCalculator cfg =
     cfg\<lparr>mgDaysPerYear := (if mgDaysPerYear cfg \<le> 0 then 365 else mgDaysPerYear cfg),
         mgInitialMarginRate :=
           (if feq (mgInitialMarginRate cfg) (Fin 0) then Fin (1/2) else mgInitialMarginRate cfg),
         mgMaintenanceRatioFloor :=
           (if feq (mgMaintenanceRatioFloor cfg) (Fin 0) then rnd (13/10) else mgMaintenanceRatioFloor cfg),
         mgWarningRatio := (if feq (mgWarningRatio cfg) (Fin 0) then Fin (3/2) else mgWarningRatio cfg)\<rparr>"

definition RequiredMarginForBuy :: "MarginConfig \<Rightarrow> f64 \<Rightarrow> f64" where
  "RequiredMarginForBuy c tradeValue =
     (if fle tradeValue (Fin 0) then Fin 0 else fmul tradeValue (mgInitialMarginRate c))"

definition RequiredMarginForShort :: "MarginConfig \<Rightarrow> f64 \<Rightarrow> f64" where
  "RequiredMarginForShort c tradeValue =
     (if fle tradeValue (Fin 0) then Fin 0 else fmul tradeValue (mgInitialMarginRate c))"

definition DailyFinancingInterest :: "MarginConfig \<Rightarrow> f64 \<Rightarrow> f64" where
  "DailyFinancingInterest c balance =
     (if fle balance (Fin 0) then Fin 0 else fdiv (fmul balance (mgFinancingRate c)) (fint (mgDaysPerYear c)))"

definition DailyLendingInterest :: "MarginConfig \<Rightarrow> f64 \<Rightarrow> f64" where
  "DailyLendingInterest c balance =
     (if fle balance (Fin 0) then Fin 0
      else fdiv (fmul balance (mgSecuritiesLendingRate c)) (fint (mgDaysPerYear c)))"

definition AccruedFinancingInterest :: "MarginConfig \<Rightarrow> f64 \<Rightarrow> int \<Rightarrow> f64" where
  "AccruedFinancingInterest c balance days = fmul (DailyFinancingInterest c balance) (fint days)"

definition AccruedLendingInterest :: "MarginConfig \<Rightarrow> f64 \<Rightarrow> int \<Rightarrow> f64" where
  "AccruedLendingInterest c balance days = fmul (DailyLendingInterest c balance) (fint days)"

definition calc_MaintenanceRatio :: "f64 \<Rightarrow> f64 \<Rightarrow> f64" where
  "calc_MaintenanceRatio totalAssets totalDebt =
     (if fle totalDebt (Fin 0) then (if flt totalAssets (Fin 0) then Fin 0 else PInf)
      else if fle totalAssets (Fin 0) then Fin 0
      else fdiv totalAssets totalDebt)"

definition IsForcedLiquidation :: "MarginConfig \<Rightarrow> f64 \<Rightarrow> bool" where
  "IsForcedLiquidation c ratio \<longleftrightarrow> flt ratio (mgMaintenanceRatioFloor c)"

definition IsWarning :: "MarginConfig \<Rightarrow> f64 \<Rightarrow> bool" where
  "IsWarning c ratio \<longleftrightarrow> fle (mgMaintenanceRatioFloor c) ratio \<and> flt ratio (mgWarningRatio c)"

definition IsSafe :: "MarginConfig \<Rightarrow> f64 \<Rightarrow> bool" where
  "IsSafe c ratio \<longleftrightarrow> fle (mgWarningRatio c) ratio"

definition calc_AvailableMargin :: "MarginConfig \<Rightarrow> f64 \<Rightarrow> f64 \<Rightarrow> f64 \<Rightarrow> f64" where
  "calc_AvailableMargin c totalAssets totalDebt usedMargin =
     (let maintenanceMargin =
            (if flt (Fin 0) totalDebt
             then fmul totalDebt (fsub (Fin 1) (fdiv (Fin 1) (mgMaintenanceRatioFloor c))) else Fin 0)
      in fsub (fsub totalAssets usedMargin) maintenanceMargin)"

definition HasSufficientMargin :: "f64 \<Rightarrow> f64 \<Rightarrow> bool" where
  "HasSufficientMargin availableMargin requiredMargin \<longleftrightarrow> fle requiredMargin availableMargin"

section \<open>Shortable stocks\<close>

record ShortableEntry =
  shSymbol :: symbol
  shMaxQty :: f64
  shAddedAt :: gotime

type_synonym ShortableList = "ShortableEntry dict"

definition NewShortableList :: ShortableList where
  "NewShortableList = fmempty"

definition sl_Add :: "symbol \<Rightarrow> f64 \<Rightarrow> gotime \<Rightarrow> ShortableList \<Rightarrow> ShortableList" where
  "sl_Add symb maxQty addedAt s =
     (if symb = [] then s
      else fmupd symb \<lparr>shSymbol = symb, shMaxQty = maxQty, shAddedAt = addedAt\<rparr> s)"

definition sl_Remove :: "symbol \<Rightarrow> ShortableList \<Rightarrow> ShortableList" where
  "sl_Remove symb s = fmdrop symb s"

definition IsShortable :: "symbol \<Rightarrow> ShortableList \<Rightarrow> bool" where
  "IsShortable symb s \<longleftrightarrow> fmlookup s symb \<noteq> None"

definition MaxShortableQty :: "symbol \<Rightarrow> ShortableList \<Rightarrow> f64 \<times> bool" where
  "MaxShortableQty symb s =
     (case fmlookup s symb of None \<Rightarrow> (Fin (- 1), False) | Some e \<Rightarrow> (shMaxQty e, True))"

section \<open>Account\<close>

record MarginLongPosition =
  lpSymbol :: symbol
  lpQuantity :: f64
  lpAvgCost :: f64
  lpFinancingAmount :: f64

record MarginShortPosition =
  spSymbol :: symbol
  spQuantity :: f64
  spSalePrice :: f64
  spProceeds :: f64
  spLendingAmount :: f64

datatype MarginOperation = OpMarginBuy | OpShortSell | OpBuyToCover | OpMarginSell

record MarginTradeResult =
  trTradeID :: string
  trOperation :: MarginOperation
  trSymbol :: symbol
  trQuantity :: f64
  trPrice :: f64
  trTradeValue :: f64
  trFinancingDelta :: f64
  trLendingDelta :: f64
  trCashDelta :: f64
  trMarginRequired :: f64
  trMaintenanceRatio :: f64
  trWarning :: bool
  trTimestamp :: gotime

datatype MarginStatus = MarginStatusSafe | MarginStatusWarning | MarginStatusDanger | MarginStatusForcedLiquidation

record MarginRiskStatus =
  rkTotalAssets :: f64
  rkTotalDebt :: f64
  rkNetAssets :: f64
  rkMaintenanceRatio :: f64
  rkAvailableMargin :: f64
  rkFinancingBalance :: f64
  rkLendingBalance :: f64
  rkAccruedInterest :: f64
  rkStatus :: MarginStatus
  rkForcedLiquidation :: bool

record MarginAccount =
  maAccountID :: string
  maCash :: f64
  maFinancingBalance :: f64
  maLong :: "MarginLongPosition dict"
  maShort :: "MarginShortPosition dict"
  maAccruedFinancingInterest :: f64
  maAccruedLendingInterest :: f64
  maCfg :: MarginConfig
  maCalc :: MarginConfig
  maShortable :: ShortableList
  maTradeSeq :: nat

definition NewMarginAccount ::
    "string \<Rightarrow> f64 \<Rightarrow> MarginConfig \<Rightarrow> ShortableList option \<Rightarrow> margin_error + MarginAccount" where
  "NewMarginAccount accountID initialCash cfg shortable =
     (if accountID = [] then Inl AccountIDRequired
      else if flt initialCash (Fin 0) then Inl (NegativeInitialCash initialCash)
      else case mg_Validate cfg of
          Some e \<Rightarrow> Inl e
        | None \<Rightarrow>
            Inr \<lparr>maAccountID = accountID, maCash = initialCash, maFinancingBalance = Fin 0,
                 maLong = fmempty, maShort = fmempty,
                 maAccruedFinancingInterest = Fin 0, maAccruedLendingInterest = Fin 0,
                 maCfg = cfg, maCalc = NewMarginCalculator cfg,
                 maShortable = (case shortable of None \<Rightarrow> NewShortableList | Some s \<Rightarrow> s), maTradeSeq = 0\<rparr>)"

definition AccruedInterest :: "MarginAccount \<Rightarrow> f64" where
  "AccruedInterest a = fadd (maAccruedFinancingInterest a) (maAccruedLendingInterest a)"

definition LongPositions :: "symbol list \<Rightarrow> MarginAccount \<Rightarrow> MarginLongPosition list" where
  "LongPositions order a = List.map_filter (fmlookup (maLong a)) order"

definition ShortPositions :: "symbol list \<Rightarrow> MarginAccount \<Rightarrow> MarginShortPosition list" where
  "ShortPositions order a = List.map_filter (fmlookup (maShort a)) order"

section \<open>Assets, debt and margin\<close>

type_synonym map_order = "nat \<Rightarrow> symbol fset \<Rightarrow> symbol list"

text \<open>The price of a symbol, or the price of the position when the map has none that is positive.\<close>

definition price_or :: "f64 dict \<Rightarrow> symbol \<Rightarrow> f64 \<Rightarrow> f64" where
  "price_or prices symb fallback =
     (let price = (case fmlookup prices symb of None \<Rightarrow> Fin 0 | Some p \<Rightarrow> p)
      in if fle price (Fin 0) then fallback else price)"

definition long_price :: "f64 dict \<Rightarrow> symbol \<Rightarrow> MarginLongPosition \<Rightarrow> f64" where
  "long_price prices symb p = price_or prices symb (lpAvgCost p)"

definition short_price :: "f64 dict \<Rightarrow> symbol \<Rightarrow> MarginShortPosition \<Rightarrow> f64" where
  "short_price prices symb p = price_or prices symb (spSalePrice p)"

text \<open>A loop over a map that adds a summand per entry to a total.\<close>

definition map_total :: "symbol list \<Rightarrow> 'p dict \<Rightarrow> (symbol \<Rightarrow> 'p \<Rightarrow> f64) \<Rightarrow> f64 \<Rightarrow> f64" where
  "map_total order m summand start =
     foldl (\<lambda>acc symb. case fmlookup m symb of None \<Rightarrow> acc | Some p \<Rightarrow> fadd acc (summand symb p)) start order"

definition totalAssetsLocked :: "(symbol fset \<Rightarrow> symbol list) \<Rightarrow> f64 dict \<Rightarrow> MarginAccount \<Rightarrow> f64" where
  "totalAssetsLocked ord prices a =
     map_total (ord (fmdom (maLong a))) (maLong a)
       (\<lambda>symb p. fmul (lpQuantity p) (long_price prices symb p)) (maCash a)"

definition totalDebtLocked :: "(symbol fset \<Rightarrow> symbol list) \<Rightarrow> f64 dict \<Rightarrow> MarginAccount \<Rightarrow> f64" where
  "totalDebtLocked ord prices a =
     fadd (map_total (ord (fmdom (maShort a))) (maShort a)
             (\<lambda>symb p. fmul (spQuantity p) (short_price prices symb p)) (maFinancingBalance a))
       (AccruedInterest a)"

definition LendingBalance :: "(symbol fset \<Rightarrow> symbol list) \<Rightarrow> f64 dict \<Rightarrow> MarginAccount \<Rightarrow> f64" where
  "LendingBalance ord prices a =
     map_total (ord (fmdom (maShort a))) (maShort a)
       (\<lambda>symb p. fmul (spQuantity p) (short_price prices symb p)) (Fin 0)"

definition usedMarginLocked ::
    "(symbol fset \<Rightarrow> symbol list) \<Rightarrow> (symbol fset \<Rightarrow> symbol list) \<Rightarrow> f64 dict \<Rightarrow> MarginAccount \<Rightarrow> f64" where
  "usedMarginLocked ordL ordS prices a =
     (let rate = mgInitialMarginRate (maCfg a)
      in map_total (ordS (fmdom (maShort a))) (maShort a)
           (\<lambda>symb p. fmul (fmul (spQuantity p) (short_price prices symb p)) rate)
           (map_total (ordL (fmdom (maLong a))) (maLong a)
              (\<lambda>symb p. fmul (fmul (lpQuantity p) (long_price prices symb p)) rate) (Fin 0)))"

definition acct_MaintenanceRatio ::
    "(symbol fset \<Rightarrow> symbol list) \<Rightarrow> (symbol fset \<Rightarrow> symbol list) \<Rightarrow> f64 dict \<Rightarrow> MarginAccount \<Rightarrow> f64" where
  "acct_MaintenanceRatio ordL ordS prices a =
     calc_MaintenanceRatio (totalAssetsLocked ordL prices a) (totalDebtLocked ordS prices a)"

definition acct_AvailableMargin :: "map_order \<Rightarrow> f64 dict \<Rightarrow> MarginAccount \<Rightarrow> f64" where
  "acct_AvailableMargin it prices a =
     calc_AvailableMargin (maCalc a) (totalAssetsLocked (it 0) prices a) (totalDebtLocked (it 1) prices a)
       (usedMarginLocked (it 2) (it 3) prices a)"

definition RiskStatus :: "map_order \<Rightarrow> f64 dict \<Rightarrow> MarginAccount \<Rightarrow> MarginRiskStatus" where
  "RiskStatus it prices a =
     (let assets = totalAssetsLocked (it 0) prices a;
          debt = totalDebtLocked (it 1) prices a;
          used = usedMarginLocked (it 2) (it 3) prices a;
          ratio = calc_MaintenanceRatio assets debt;
          forced = flt ratio (mgMaintenanceRatioFloor (maCfg a))
      in \<lparr>rkTotalAssets = assets, rkTotalDebt = debt, rkNetAssets = fsub assets debt, rkMaintenanceRatio = ratio,
          rkAvailableMargin = calc_AvailableMargin (maCalc a) assets debt used,
          rkFinancingBalance = maFinancingBalance a, rkLendingBalance = LendingBalance (it 4) prices a,
          rkAccruedInterest = AccruedInterest a,
          rkStatus = (if forced then MarginStatusForcedLiquidation
                      else if flt ratio (mgWarningRatio (maCfg a)) then MarginStatusWarning
                      else MarginStatusSafe),
          rkForcedLiquidation = forced\<rparr>)"

section \<open>Trades\<close>

definition validateTrade :: "symbol \<Rightarrow> f64 \<Rightarrow> f64 \<Rightarrow> margin_error option" where
  "validateTrade symb qty price =
     (if symb = [] then Some MarginSymbolRequired
      else if fle qty (Fin 0) then Some (MarginQuantityNotPositive qty)
      else if fle price (Fin 0) then Some (MarginPriceNotPositive price)
      else None)"

text \<open>The two checks that open every trade.\<close>

definition trade_checks :: "string option \<Rightarrow> symbol \<Rightarrow> f64 \<Rightarrow> f64 \<Rightarrow> margin_error option" where
  "trade_checks ctxErr symb qty price =
     (case validateTrade symb qty price of
        Some e \<Rightarrow> Some e
      | None \<Rightarrow> map_option CtxError ctxErr)"

definition addToLongPosition :: "symbol \<Rightarrow> f64 \<Rightarrow> f64 \<Rightarrow> f64 \<Rightarrow> MarginAccount \<Rightarrow> MarginAccount" where
  "addToLongPosition symb qty price financingAmount a =
     (let pos' =
            (case fmlookup (maLong a) symb of
               None \<Rightarrow> \<lparr>lpSymbol = symb, lpQuantity = qty, lpAvgCost = price, lpFinancingAmount = financingAmount\<rparr>
             | Some pos \<Rightarrow>
                 let totalQty = fadd (lpQuantity pos) qty;
                     totalCost = fadd (fmul (lpQuantity pos) (lpAvgCost pos)) (fmul qty price)
                 in pos\<lparr>lpAvgCost := fdiv totalCost totalQty, lpQuantity := totalQty,
                        lpFinancingAmount := fadd (lpFinancingAmount pos) financingAmount\<rparr>)
      in a\<lparr>maLong := fmupd symb pos' (maLong a)\<rparr>)"

definition addToShortPosition :: "symbol \<Rightarrow> f64 \<Rightarrow> f64 \<Rightarrow> f64 \<Rightarrow> MarginAccount \<Rightarrow> MarginAccount" where
  "addToShortPosition symb qty price lendingAmount a =
     (let pos' =
            (case fmlookup (maShort a) symb of
               None \<Rightarrow> \<lparr>spSymbol = symb, spQuantity = qty, spSalePrice = price, spProceeds = fmul qty price,
                        spLendingAmount = lendingAmount\<rparr>
             | Some pos \<Rightarrow>
                 let totalQty = fadd (spQuantity pos) qty;
                     totalProceeds = fadd (spProceeds pos) (fmul qty price)
                 in pos\<lparr>spSalePrice := fdiv totalProceeds totalQty, spProceeds := totalProceeds,
                        spQuantity := totalQty, spLendingAmount := fadd (spLendingAmount pos) lendingAmount\<rparr>)
      in a\<lparr>maShort := fmupd symb pos' (maShort a)\<rparr>)"

definition nextTradeID :: "MarginAccount \<Rightarrow> string \<times> MarginAccount" where
  "nextTradeID a =
     (let n = maTradeSeq a + 1 in (''MAR-'' @ maAccountID a @ ''-'' @ itoa n, a\<lparr>maTradeSeq := n\<rparr>))"

text \<open>
  The end of every trade: the ratio after the trade, with the trade's price for its symbol only, and
  the result. \<open>it 4\<close> and \<open>it 5\<close> are the loops over the positions after the trade.
\<close>

definition trade_result ::
    "map_order \<Rightarrow> gotime \<Rightarrow> MarginOperation \<Rightarrow> symbol \<Rightarrow> f64 \<Rightarrow> f64 \<Rightarrow> f64 \<Rightarrow> f64 \<Rightarrow> f64 \<Rightarrow> f64 \<Rightarrow> MarginAccount \<Rightarrow>
     MarginTradeResult \<times> MarginAccount" where
  "trade_result it now op symb qty price financingDelta lendingDelta cashDelta required a =
     (let postRatio = acct_MaintenanceRatio (it 4) (it 5) (fmupd symb price fmempty) a;
          (tid, a') = nextTradeID a
      in (\<lparr>trTradeID = tid, trOperation = op, trSymbol = symb, trQuantity = qty, trPrice = price,
           trTradeValue = fmul qty price, trFinancingDelta = financingDelta, trLendingDelta = lendingDelta,
           trCashDelta = cashDelta, trMarginRequired = required, trMaintenanceRatio = postRatio,
           trWarning = flt postRatio (mgWarningRatio (maCfg a)), trTimestamp = now\<rparr>, a'))"

definition MarginBuy ::
    "map_order \<Rightarrow> gotime \<Rightarrow> string option \<Rightarrow> symbol \<Rightarrow> f64 \<Rightarrow> f64 \<Rightarrow> MarginAccount \<Rightarrow>
     (margin_error + MarginTradeResult) \<times> MarginAccount" where
  "MarginBuy it now ctxErr symb qty price a =
     (case trade_checks ctxErr symb qty price of
        Some e \<Rightarrow> (Inl e, a)
      | None \<Rightarrow>
          (let tradeValue = fmul qty price;
               requiredMargin = RequiredMarginForBuy (maCalc a) tradeValue;
               available = acct_AvailableMargin it (fmupd symb price fmempty) a
           in if \<not> HasSufficientMargin available requiredMargin
              then (Inl (InsufficientMargin requiredMargin available), a)
              else let a = a\<lparr>maFinancingBalance := fadd (maFinancingBalance a) tradeValue\<rparr>;
                       a = addToLongPosition symb qty price tradeValue a;
                       (res, a) = trade_result it now OpMarginBuy symb qty price tradeValue (Fin 0) (Fin 0)
                                    requiredMargin a
                   in (Inr res, a)))"

text \<open>The first step of \<open>ShortSell\<close> reads the list and the position; the second runs under the lock.\<close>

definition short_check :: "string option \<Rightarrow> symbol \<Rightarrow> f64 \<Rightarrow> f64 \<Rightarrow> MarginAccount \<Rightarrow> margin_error option" where
  "short_check ctxErr symb qty price a =
     (case trade_checks ctxErr symb qty price of
        Some e \<Rightarrow> Some e
      | None \<Rightarrow>
          (let (maxQty, shortable) = MaxShortableQty symb (maShortable a);
               existing = (case fmlookup (maShort a) symb of None \<Rightarrow> Fin 0 | Some p \<Rightarrow> spQuantity p)
           in if \<not> shortable then Some (NotShortable symb)
              else if flt (Fin 0) maxQty \<and> flt maxQty (fadd existing qty)
              then Some (ExceedsMaxShortable qty maxQty existing)
              else None))"

definition short_execute ::
    "map_order \<Rightarrow> gotime \<Rightarrow> symbol \<Rightarrow> f64 \<Rightarrow> f64 \<Rightarrow> MarginAccount \<Rightarrow>
     (margin_error + MarginTradeResult) \<times> MarginAccount" where
  "short_execute it now symb qty price a =
     (let tradeValue = fmul qty price;
          requiredMargin = RequiredMarginForShort (maCalc a) tradeValue;
          available = acct_AvailableMargin it (fmupd symb price fmempty) a
      in if \<not> HasSufficientMargin available requiredMargin
         then (Inl (InsufficientMargin requiredMargin available), a)
         else let a = a\<lparr>maCash := fadd (maCash a) tradeValue\<rparr>;
                  a = addToShortPosition symb qty price tradeValue a;
                  (res, a) = trade_result it now OpShortSell symb qty price (Fin 0) tradeValue tradeValue
                               requiredMargin a
              in (Inr res, a))"

definition ShortSell ::
    "map_order \<Rightarrow> gotime \<Rightarrow> string option \<Rightarrow> symbol \<Rightarrow> f64 \<Rightarrow> f64 \<Rightarrow> MarginAccount \<Rightarrow>
     (margin_error + MarginTradeResult) \<times> MarginAccount" where
  "ShortSell it now ctxErr symb qty price a =
     (case short_check ctxErr symb qty price a of
        Some e \<Rightarrow> (Inl e, a)
      | None \<Rightarrow> short_execute it now symb qty price a)"

text \<open>The short position after a cover of \<open>qty\<close> shares.\<close>

definition covered_position :: "f64 \<Rightarrow> MarginShortPosition \<Rightarrow> MarginShortPosition" where
  "covered_position qty p =
     (let ratio = fdiv qty (spQuantity p);
          p = (if flt (Fin 0) (spQuantity p)
               then p\<lparr>spLendingAmount := fsub (spLendingAmount p) (fmul (spLendingAmount p) ratio),
                      spProceeds := fsub (spProceeds p) (fmul (spProceeds p) ratio)\<rparr>
               else p)
      in p\<lparr>spQuantity := fsub (spQuantity p) qty, spSalePrice := Fin 0\<rparr>)"

definition BuyToCover ::
    "map_order \<Rightarrow> gotime \<Rightarrow> string option \<Rightarrow> symbol \<Rightarrow> f64 \<Rightarrow> f64 \<Rightarrow> MarginAccount \<Rightarrow>
     (margin_error + MarginTradeResult) \<times> MarginAccount" where
  "BuyToCover it now ctxErr symb qty price a =
     (case trade_checks ctxErr symb qty price of
        Some e \<Rightarrow> (Inl e, a)
      | None \<Rightarrow>
          (case fmlookup (maShort a) symb of
             None \<Rightarrow> (Inl (NoShortPosition symb), a)
           | Some shortPos \<Rightarrow>
               if flt (spQuantity shortPos) qty
               then (Inl (InsufficientShortPosition (spQuantity shortPos) qty), a)
               else let tradeValue = fmul qty price;
                        p' = covered_position qty shortPos;
                        a = a\<lparr>maCash := fsub (maCash a) tradeValue,
                              maShort := (if fle (spQuantity p') (Fin 0) then fmdrop symb (maShort a)
                                          else fmupd symb p' (maShort a))\<rparr>;
                        (res, a) = trade_result it now OpBuyToCover symb qty price (Fin 0) (fneg tradeValue)
                                     (fneg tradeValue) (Fin 0) a
                    in (Inr res, a)))"

text \<open>The financing a sale of \<open>qty\<close> shares takes off the position, and the part of it that is repaid.\<close>

definition financing_for :: "f64 \<Rightarrow> MarginLongPosition \<Rightarrow> f64" where
  "financing_for qty p = fmul (lpFinancingAmount p) (fdiv qty (lpQuantity p))"

definition repayment :: "f64 \<Rightarrow> f64 \<Rightarrow> MarginLongPosition \<Rightarrow> f64" where
  "repayment qty tradeValue p =
     (if flt tradeValue (financing_for qty p) then tradeValue else financing_for qty p)"

definition MarginSell ::
    "map_order \<Rightarrow> gotime \<Rightarrow> string option \<Rightarrow> symbol \<Rightarrow> f64 \<Rightarrow> f64 \<Rightarrow> MarginAccount \<Rightarrow>
     (margin_error + MarginTradeResult) \<times> MarginAccount" where
  "MarginSell it now ctxErr symb qty price a =
     (case trade_checks ctxErr symb qty price of
        Some e \<Rightarrow> (Inl e, a)
      | None \<Rightarrow>
          (case fmlookup (maLong a) symb of
             None \<Rightarrow> (Inl (NoLongPosition symb), a)
           | Some longPos \<Rightarrow>
               if flt (lpQuantity longPos) qty
               then (Inl (InsufficientLongPosition (lpQuantity longPos) qty), a)
               else let tradeValue = fmul qty price;
                        a = a\<lparr>maCash := fadd (maCash a) tradeValue\<rparr>;
                        a = (if flt (Fin 0) (lpQuantity longPos)
                             then a\<lparr>maFinancingBalance :=
                                      fsub (maFinancingBalance a) (repayment qty tradeValue longPos)\<rparr>
                             else a);
                        p' = (if flt (Fin 0) (lpQuantity longPos)
                              then longPos\<lparr>lpFinancingAmount :=
                                             fsub (lpFinancingAmount longPos) (financing_for qty longPos)\<rparr>
                              else longPos);
                        p' = p'\<lparr>lpQuantity := fsub (lpQuantity longPos) qty\<rparr>;
                        a = a\<lparr>maLong := (if fle (lpQuantity p') (Fin 0) then fmdrop symb (maLong a)
                                         else fmupd symb p' (maLong a))\<rparr>;
                        (res, a) = trade_result it now OpMarginSell symb qty price (fneg tradeValue) (Fin 0)
                                     tradeValue (Fin 0) a
                    in (Inr res, a)))"

section \<open>Interest, liquidation, deposits\<close>

definition AccrueInterest ::
    "map_order \<Rightarrow> string option \<Rightarrow> int \<Rightarrow> f64 dict \<Rightarrow> MarginAccount \<Rightarrow> (margin_error + f64 \<times> f64) \<times> MarginAccount" where
  "AccrueInterest it ctxErr days prices a =
     (if days < 0 then (Inl (NegativeDays days), a)
      else if days = 0 then (Inr (Fin 0, Fin 0), a)
      else case ctxErr of
          Some e \<Rightarrow> (Inl (CtxError e), a)
        | None \<Rightarrow>
            (let financingInterest = AccruedFinancingInterest (maCalc a) (maFinancingBalance a) days;
                 lendingInterest = AccruedLendingInterest (maCalc a) (LendingBalance (it 0) prices a) days
             in (Inr (financingInterest, lendingInterest),
                 a\<lparr>maAccruedFinancingInterest := fadd (maAccruedFinancingInterest a) financingInterest,
                   maAccruedLendingInterest := fadd (maAccruedLendingInterest a) lendingInterest\<rparr>)))"

record ForceLiquidateEntry =
  flSymbol :: symbol
  flQuantity :: f64
  flPrice :: f64
  flTradeValue :: f64

record ForceLiquidateResult =
  flLongSold :: "ForceLiquidateEntry list"
  flShortCovered :: "ForceLiquidateEntry list"
  flFinalCash :: f64
  flStartedAt :: gotime
  flCompletedAt :: gotime
  flReason :: string

definition liquidate_entry :: "symbol \<Rightarrow> f64 \<Rightarrow> f64 \<Rightarrow> ForceLiquidateEntry" where
  "liquidate_entry symb quantity price =
     \<lparr>flSymbol = symb, flQuantity = quantity, flPrice = price, flTradeValue = fmul quantity price\<rparr>"

text \<open>The bodies of the two loops; the second component collects the entries.\<close>

definition sell_long ::
    "f64 dict \<Rightarrow> symbol \<Rightarrow> MarginAccount \<times> ForceLiquidateEntry list \<Rightarrow> MarginAccount \<times> ForceLiquidateEntry list" where
  "sell_long prices symb st =
     (let (a, entries) = st
      in case fmlookup (maLong a) symb of
           None \<Rightarrow> st
         | Some p \<Rightarrow>
             let price = long_price prices symb p;
                 balance = fsub (maFinancingBalance a) (lpFinancingAmount p)
             in (a\<lparr>maCash := fadd (maCash a) (fmul (lpQuantity p) price),
                   maFinancingBalance := (if flt balance (Fin 0) then Fin 0 else balance),
                   maLong := fmdrop symb (maLong a)\<rparr>,
                 entries @ [liquidate_entry symb (lpQuantity p) price]))"

definition cover_short ::
    "f64 dict \<Rightarrow> symbol \<Rightarrow> MarginAccount \<times> ForceLiquidateEntry list \<Rightarrow> MarginAccount \<times> ForceLiquidateEntry list" where
  "cover_short prices symb st =
     (let (a, entries) = st
      in case fmlookup (maShort a) symb of
           None \<Rightarrow> st
         | Some p \<Rightarrow>
             let price = short_price prices symb p
             in (a\<lparr>maCash := fsub (maCash a) (fmul (spQuantity p) price), maShort := fmdrop symb (maShort a)\<rparr>,
                 entries @ [liquidate_entry symb (spQuantity p) price]))"

definition ForceLiquidate ::
    "map_order \<Rightarrow> gotime \<Rightarrow> gotime \<Rightarrow> string option \<Rightarrow> f64 dict \<Rightarrow> string \<Rightarrow> MarginAccount \<Rightarrow>
     (margin_error + ForceLiquidateResult) \<times> MarginAccount" where
  "ForceLiquidate it started completed ctxErr prices reason a =
     (case ctxErr of
        Some e \<Rightarrow> (Inl (CtxError e), a)
      | None \<Rightarrow>
          (let (a, longSold) = fold (sell_long prices) (it 0 (fmdom (maLong a))) (a, []);
               (a, shortCovered) = fold (cover_short prices) (it 1 (fmdom (maShort a))) (a, []);
               a = a\<lparr>maAccruedFinancingInterest := Fin 0, maAccruedLendingInterest := Fin 0\<rparr>
           in (Inr \<lparr>flLongSold = longSold, flShortCovered = shortCovered, flFinalCash = maCash a,
                    flStartedAt = started, flCompletedAt = completed, flReason = reason\<rparr>, a)))"

definition Deposit :: "string option \<Rightarrow> f64 \<Rightarrow> MarginAccount \<Rightarrow> margin_error option \<times> MarginAccount" where
  "Deposit ctxErr amount a =
     (if fle amount (Fin 0) then (Some (DepositNotPositive amount), a)
      else case ctxErr of
          Some e \<Rightarrow> (Some (CtxError e), a)
        | None \<Rightarrow> (None, a\<lparr>maCash := fadd (maCash a) amount\<rparr>))"

definition Withdraw ::
    "map_order \<Rightarrow> string option \<Rightarrow> f64 \<Rightarrow> f64 dict \<Rightarrow> MarginAccount \<Rightarrow> margin_error option \<times> MarginAccount" where
  "Withdraw it ctxErr amount prices a =
     (if fle amount (Fin 0) then (Some (WithdrawNotPositive amount), a)
      else case ctxErr of
          Some e \<Rightarrow> (Some (CtxError e), a)
        | None \<Rightarrow>
            if flt (maCash a) amount then (Some (InsufficientCashFor (maCash a) amount), a)
            else let oldCash = maCash a;
                     a = a\<lparr>maCash := fsub (maCash a) amount\<rparr>;
                     ratio = acct_MaintenanceRatio (it 0) (it 1) prices a
                 in if flt ratio (mgMaintenanceRatioFloor (maCfg a))
                    then (Some (BreachesMaintenance ratio (mgMaintenanceRatioFloor (maCfg a))), a\<lparr>maCash := oldCash\<rparr>)
                    else (None, a))"

section \<open>Positions stay positive\<close>

lemma f64_wf_fadd [simp]: "f64_wf (fadd a b)"
proof -
  have "f64_wf (rnd x)" for x by (simp add: rnd_def f64_of_wf)
  moreover have "valof c = 0 \<Longrightarrow> f64_wf c" for c by (simp add: f64_wf_def)
  moreover have "is_inf c \<Longrightarrow> valof c = 0" for c by (auto simp: is_inf_def)
  ultimately show ?thesis by (simp add: fadd_def)
qed

lemma f64_wf_fsub [simp]: "f64_wf (fsub a b)"
  by (simp add: fsub_def)

lemma rnd_ge_wf:
  assumes "is_fin a" "f64_wf a" "valof a \<le> x"
  shows "fle a (rnd x)"
  using assms r64.ge_fixed [of "valof a" x] overflow_bound_pos
  by (auto simp: rnd_def f64_of_def Let_def fle_fin f64_wf_def fle_def)

lemma fadd_pos:
  assumes "\<not> fle a (Fin 0)" "\<not> fle b (Fin 0)" "f64_wf a"
  shows "\<not> fle (fadd a b) (Fin 0)"
proof (cases "is_fin a \<and> is_fin b")
  case True
  then have v: "0 < valof a" "0 < valof b" using assms by (auto simp: fle_fin not_le)
  have "fle a (fadd a b)" using True v assms(3) by (auto simp: fadd_fin intro: rnd_ge_wf)
  with assms(1) fle_trans show ?thesis by blast
next
  case False
  with assms(1,2) show ?thesis by (cases a; cases b) (auto simp: fadd_def fle_def)
qed

definition long_ok :: "symbol \<Rightarrow> MarginLongPosition \<Rightarrow> bool" where
  "long_ok symb p \<longleftrightarrow> lpSymbol p = symb \<and> symb \<noteq> [] \<and> \<not> fle (lpQuantity p) (Fin 0) \<and> f64_wf (lpQuantity p)"

definition short_ok :: "symbol \<Rightarrow> MarginShortPosition \<Rightarrow> bool" where
  "short_ok symb p \<longleftrightarrow> spSymbol p = symb \<and> symb \<noteq> [] \<and> \<not> fle (spQuantity p) (Fin 0) \<and> f64_wf (spQuantity p)"

definition account_ok :: "MarginAccount \<Rightarrow> bool" where
  "account_ok a \<longleftrightarrow> (\<forall>symb p. fmlookup (maLong a) symb = Some p \<longrightarrow> long_ok symb p) \<and>
     (\<forall>symb p. fmlookup (maShort a) symb = Some p \<longrightarrow> short_ok symb p)"

text \<open>
  The steps of the account. The second step of a short sale may come after others than its own check, as
  the lock is not held between the two. Quantities are float64 values.
\<close>

inductive mg_step :: "MarginAccount \<Rightarrow> MarginAccount \<Rightarrow> bool" where
  buy: "f64_wf qty \<Longrightarrow> mg_step a (snd (MarginBuy it now ctxErr symb qty price a))"
| short: "f64_wf qty \<Longrightarrow> validateTrade symb qty price = None \<Longrightarrow>
    mg_step a (snd (short_execute it now symb qty price a))"
| cover: "mg_step a (snd (BuyToCover it now ctxErr symb qty price a))"
| sell: "mg_step a (snd (MarginSell it now ctxErr symb qty price a))"
| accrue: "mg_step a (snd (AccrueInterest it ctxErr days prices a))"
| liquidate: "mg_step a (snd (ForceLiquidate it started completed ctxErr prices reason a))"
| deposit: "mg_step a (snd (Deposit ctxErr amount a))"
| withdraw: "mg_step a (snd (Withdraw it ctxErr amount prices a))"
| relist: "mg_step a (a\<lparr>maShortable := s\<rparr>)"

lemma nextTradeID_frame [simp]:
  "maLong (snd (nextTradeID a)) = maLong a" "maShort (snd (nextTradeID a)) = maShort a"
  "maCash (snd (nextTradeID a)) = maCash a" "maFinancingBalance (snd (nextTradeID a)) = maFinancingBalance a"
  "maCfg (snd (nextTradeID a)) = maCfg a" "maCalc (snd (nextTradeID a)) = maCalc a"
  "maShortable (snd (nextTradeID a)) = maShortable a"
  "maAccruedFinancingInterest (snd (nextTradeID a)) = maAccruedFinancingInterest a"
  "maAccruedLendingInterest (snd (nextTradeID a)) = maAccruedLendingInterest a"
  by (simp_all add: nextTradeID_def Let_def)

lemma trade_result_state [simp]: "snd (trade_result it now op symb qty price f l c r a) = snd (nextTradeID a)"
  by (simp add: trade_result_def Let_def split: prod.split)

lemma account_ok_cong:
  "maLong a = maLong b \<Longrightarrow> maShort a = maShort b \<Longrightarrow> account_ok a = account_ok b"
  by (simp add: account_ok_def)

lemma account_ok_nextTradeID [simp]: "account_ok (snd (nextTradeID a)) = account_ok a"
  by (rule account_ok_cong) simp_all

lemma validateTrade_None: "validateTrade symb qty price = None \<longleftrightarrow>
    symb \<noteq> [] \<and> \<not> fle qty (Fin 0) \<and> \<not> fle price (Fin 0)"
  by (simp add: validateTrade_def)

lemma trade_checks_None: "trade_checks ctxErr symb qty price = None \<longleftrightarrow>
    ctxErr = None \<and> validateTrade symb qty price = None"
  by (auto simp: trade_checks_def split: option.splits)

lemma account_ok_addLong:
  assumes "account_ok a" "f64_wf qty" "symb \<noteq> []" "\<not> fle qty (Fin 0)"
  shows "account_ok (addToLongPosition symb qty price v a)"
  using assms
  by (auto simp: account_ok_def addToLongPosition_def long_ok_def Let_def fadd_pos split: option.splits if_splits)

lemma account_ok_addShort:
  assumes "account_ok a" "f64_wf qty" "symb \<noteq> []" "\<not> fle qty (Fin 0)"
  shows "account_ok (addToShortPosition symb qty price v a)"
  using assms
  by (auto simp: account_ok_def addToShortPosition_def short_ok_def Let_def fadd_pos split: option.splits if_splits)

lemma account_ok_buy:
  assumes "account_ok a" "f64_wf qty"
  shows "account_ok (snd (MarginBuy it now ctxErr symb qty price a))"
proof (cases "trade_checks ctxErr symb qty price")
  case None
  then have "symb \<noteq> []" "\<not> fle qty (Fin 0)" by (auto simp: trade_checks_None validateTrade_None)
  moreover have "account_ok (a\<lparr>maFinancingBalance := b\<rparr>)" for b
    using assms(1) by (subst account_ok_cong [of _ a]) auto
  ultimately show ?thesis using assms None account_ok_addLong
    by (simp add: MarginBuy_def Let_def case_prod_beta)
qed (use assms in \<open>simp add: MarginBuy_def\<close>)

lemma account_ok_short:
  assumes "account_ok a" "f64_wf qty" "validateTrade symb qty price = None"
  shows "account_ok (snd (short_execute it now symb qty price a))"
proof -
  have "account_ok (a\<lparr>maCash := b\<rparr>)" for b
    using assms(1) by (subst account_ok_cong [of _ a]) auto
  with assms account_ok_addShort show ?thesis
    by (simp add: short_execute_def Let_def case_prod_beta validateTrade_None)
qed

lemma covered_symbol [simp]: "spSymbol (covered_position qty p) = spSymbol p"
    "spQuantity (covered_position qty p) = fsub (spQuantity p) qty"
  by (simp_all add: covered_position_def Let_def)

lemma account_ok_cover:
  assumes "account_ok a"
  shows "account_ok (snd (BuyToCover it now ctxErr symb qty price a))"
  using assms
  by (auto simp: BuyToCover_def Let_def case_prod_beta account_ok_def short_ok_def split: option.splits if_splits)

lemma account_ok_sell:
  assumes "account_ok a"
  shows "account_ok (snd (MarginSell it now ctxErr symb qty price a))"
  using assms
  by (auto simp: MarginSell_def Let_def case_prod_beta account_ok_def long_ok_def split: option.splits if_splits)

section \<open>Liquidation\<close>

definition long_entry :: "f64 dict \<Rightarrow> MarginAccount \<Rightarrow> symbol \<Rightarrow> ForceLiquidateEntry" where
  "long_entry prices a symb =
     (let p = the (fmlookup (maLong a) symb) in liquidate_entry symb (lpQuantity p) (long_price prices symb p))"

definition short_entry :: "f64 dict \<Rightarrow> MarginAccount \<Rightarrow> symbol \<Rightarrow> ForceLiquidateEntry" where
  "short_entry prices a symb =
     (let p = the (fmlookup (maShort a) symb) in liquidate_entry symb (spQuantity p) (short_price prices symb p))"

text \<open>\<open>it\<close> yields, for each loop, one of the orders Go may take.\<close>

definition iterates :: "map_order \<Rightarrow> bool" where
  "iterates it \<longleftrightarrow> (\<forall>i D. distinct (it i D) \<and> fset_of_list (it i D) = D)"

lemma iterates_set: "iterates it \<Longrightarrow> distinct (it i D) \<and> set (it i D) = fset D"
  by (metis iterates_def fset_of_list.rep_eq)

lemma sell_longs:
  assumes "distinct xs" "set xs \<subseteq> fset (fmdom (maLong a))" "fold (sell_long prices) xs (a, es) = (a', es')"
  shows "maLong a' = fmfilter (\<lambda>s. s \<notin> set xs) (maLong a) \<and> maShort a' = maShort a \<and> maCfg a' = maCfg a \<and>
    es' = es @ map (long_entry prices a) xs \<and>
    (xs \<noteq> [] \<longrightarrow> \<not> flt (maFinancingBalance a') (Fin 0)) \<and>
    (xs = [] \<longrightarrow> maFinancingBalance a' = maFinancingBalance a) \<and> maCalc a' = maCalc a"
  using assms
proof (induction xs arbitrary: a es)
  case (Cons x xs)
  from Cons.prems(2) obtain p where p: "fmlookup (maLong a) x = Some p" by (auto simp: fmlookup_dom_iff)
  define b where "b = fst (sell_long prices x (a, es))"
  have step: "sell_long prices x (a, es) = (b, es @ [long_entry prices a x])"
    using p by (simp add: b_def sell_long_def long_entry_def Let_def)
  have b: "maLong b = fmdrop x (maLong a)" "maShort b = maShort a" "maCfg b = maCfg a" "maCalc b = maCalc a"
    "\<not> flt (maFinancingBalance b) (Fin 0)"
    using p by (simp_all add: b_def sell_long_def Let_def flt_def)
  have "map (long_entry prices b) xs = map (long_entry prices a) xs"
    using Cons.prems(1) b(1) by (auto simp: long_entry_def)
  moreover have "fmfilter (\<lambda>s. s \<notin> set xs) (maLong b) = fmfilter (\<lambda>s. s \<notin> set (x # xs)) (maLong a)"
    by (rule fmap_ext) (simp add: b(1))
  moreover have "distinct xs" "set xs \<subseteq> fset (fmdom (maLong b))"
    "fold (sell_long prices) xs (b, es @ [long_entry prices a x]) = (a', es')"
    using Cons.prems b(1) step by auto
  note Cons.IH [OF this]
  ultimately show ?case using b by auto
qed auto

lemma cover_shorts:
  assumes "distinct xs" "set xs \<subseteq> fset (fmdom (maShort a))" "fold (cover_short prices) xs (a, es) = (a', es')"
  shows "maShort a' = fmfilter (\<lambda>s. s \<notin> set xs) (maShort a) \<and> maLong a' = maLong a \<and> maCfg a' = maCfg a \<and>
    es' = es @ map (short_entry prices a) xs \<and> maFinancingBalance a' = maFinancingBalance a \<and> maCalc a' = maCalc a"
  using assms
proof (induction xs arbitrary: a es)
  case (Cons x xs)
  from Cons.prems(2) obtain p where p: "fmlookup (maShort a) x = Some p" by (auto simp: fmlookup_dom_iff)
  define b where "b = fst (cover_short prices x (a, es))"
  have step: "cover_short prices x (a, es) = (b, es @ [short_entry prices a x])"
    using p by (simp add: b_def cover_short_def short_entry_def Let_def)
  have b: "maShort b = fmdrop x (maShort a)" "maLong b = maLong a" "maCfg b = maCfg a" "maCalc b = maCalc a"
    "maFinancingBalance b = maFinancingBalance a"
    using p by (simp_all add: b_def cover_short_def Let_def)
  have "map (short_entry prices b) xs = map (short_entry prices a) xs"
    using Cons.prems(1) b(1) by (auto simp: short_entry_def)
  moreover have "fmfilter (\<lambda>s. s \<notin> set xs) (maShort b) = fmfilter (\<lambda>s. s \<notin> set (x # xs)) (maShort a)"
    by (rule fmap_ext) (simp add: b(1))
  moreover have "distinct xs" "set xs \<subseteq> fset (fmdom (maShort b))"
    "fold (cover_short prices) xs (b, es @ [short_entry prices a x]) = (a', es')"
    using Cons.prems b(1) step by auto
  note Cons.IH [OF this]
  ultimately show ?case using b by auto
qed auto

lemma fmfilter_all: "set xs = fset (fmdom m) \<Longrightarrow> fmfilter (\<lambda>s. s \<notin> set xs) m = fmempty"
  by (rule fmap_ext) (auto simp: fmlookup_dom_iff)

text \<open>C34: a forced liquidation closes every position of the account. It sells every long position and covers every
  short one, reports each exactly once, in the order of the iteration, at the given price or, without
  one, at the price of the position. The interest is cleared and the final cash reported is the cash of
  the account. The financing balance is not negative when a position was sold.\<close>

theorem force_liquidate_closes:
  assumes "iterates it"
  shows "\<exists>res a'. ForceLiquidate it started completed None prices reason a = (Inr res, a') \<and>
    maLong a' = fmempty \<and> maShort a' = fmempty \<and> AccruedInterest a' = Fin 0 \<and> flFinalCash res = maCash a' \<and>
    flLongSold res = map (long_entry prices a) (it 0 (fmdom (maLong a))) \<and>
    flShortCovered res = map (short_entry prices a) (it 1 (fmdom (maShort a))) \<and>
    (maLong a \<noteq> fmempty \<longrightarrow> \<not> flt (maFinancingBalance a') (Fin 0))"
proof -
  let ?L = "it 0 (fmdom (maLong a))" and ?S = "it 1 (fmdom (maShort a))"
  obtain b ls where 1: "fold (sell_long prices) ?L (a, []) = (b, ls)" by force
  have L: "distinct ?L" "set ?L = fset (fmdom (maLong a))" using iterates_set [OF assms] by auto
  note b = sell_longs [OF L(1) equalityD1 [OF L(2)] 1]
  have S: "distinct ?S" "set ?S = fset (fmdom (maShort b))" using iterates_set [OF assms] b by auto
  obtain c ss where 2: "fold (cover_short prices) ?S (b, []) = (c, ss)" by force
  note c = cover_shorts [OF S(1) equalityD1 [OF S(2)] 2]
  have "short_entry prices b = short_entry prices a" using b by (auto simp: short_entry_def)
  moreover have "fadd (Fin 0) (Fin 0) = Fin 0" by code_simp
  moreover have "maLong a \<noteq> fmempty \<Longrightarrow> ?L \<noteq> []" using fmfilter_all [OF L(2)] by (auto simp: fmfilter_true)
  ultimately show ?thesis using b c fmfilter_all [OF L(2)] fmfilter_all [OF S(2)]
    by (simp add: ForceLiquidate_def 1 2 AccruedInterest_def del: One_nat_def)
qed


definition sample_order :: map_order where
  "sample_order i D = sorted_list_of_fset D"

lemma sample_order_iterates: "iterates sample_order"
  by (auto simp: iterates_def sample_order_def sorted_list_of_fset.rep_eq fset_of_list.rep_eq simp flip: fset_cong)

definition sample_margin :: MarginAccount where
  "sample_margin =
     \<lparr>maAccountID = ''M'', maCash = Fin 64, maFinancingBalance = Fin 32,
      maLong = fmap_of_list [(''A'', \<lparr>lpSymbol = ''A'', lpQuantity = Fin 4, lpAvgCost = Fin 8, lpFinancingAmount = Fin 32\<rparr>)],
      maShort = fmap_of_list [(''B'', \<lparr>spSymbol = ''B'', spQuantity = Fin 2, spSalePrice = Fin 8, spProceeds = Fin 16,
        spLendingAmount = Fin 16\<rparr>)],
      maAccruedFinancingInterest = Fin 1, maAccruedLendingInterest = Fin 1,
      maCfg = DefaultMarginConfig, maCalc = DefaultMarginConfig,
      maShortable = fmap_of_list [(''B'', \<lparr>shSymbol = ''B'', shMaxQty = Fin 4, shAddedAt = 0\<rparr>)], maTradeSeq = 2\<rparr>"

theorem force_liquidate_closes_witness:
  "iterates sample_order \<and> maLong sample_margin \<noteq> fmempty \<and>
   maLong (snd (ForceLiquidate sample_order 0 0 None fmempty ''margin call'' sample_margin)) = fmempty"
proof -
  have "fmlookup (maLong sample_margin) ''A'' \<noteq> None" by code_simp
  then have "maLong sample_margin \<noteq> fmempty" by (metis fmempty_lookup)
  with sample_order_iterates
    force_liquidate_closes [of sample_order 0 0 fmempty "''margin call''" sample_margin]
  show ?thesis by auto
qed

section \<open>Reachable accounts\<close>

lemma fold_sell_short [simp]:
  "maShort (fst (fold (sell_long prices) xs st)) = maShort (fst st)"
  "maCfg (fst (fold (sell_long prices) xs st)) = maCfg (fst st)"
  "maCalc (fst (fold (sell_long prices) xs st)) = maCalc (fst st)"
  by (induction xs arbitrary: st; simp add: sell_long_def Let_def case_prod_beta split: option.splits)+

lemma fold_cover_long [simp]:
  "maLong (fst (fold (cover_short prices) xs st)) = maLong (fst st)"
  "maCfg (fst (fold (cover_short prices) xs st)) = maCfg (fst st)"
  "maCalc (fst (fold (cover_short prices) xs st)) = maCalc (fst st)"
  by (induction xs arbitrary: st; simp add: cover_short_def Let_def case_prod_beta split: option.splits)+

lemma fold_sell_sub: "fmlookup (maLong (fst (fold (sell_long prices) xs st))) s = Some p \<Longrightarrow>
    fmlookup (maLong (fst st)) s = Some p"
proof (induction xs arbitrary: st)
  case (Cons x xs)
  then have "fmlookup (maLong (fst (sell_long prices x st))) s = Some p" by simp
  then show ?case by (auto simp: sell_long_def Let_def case_prod_beta split: option.splits if_splits)
qed auto

lemma fold_cover_sub: "fmlookup (maShort (fst (fold (cover_short prices) xs st))) s = Some p \<Longrightarrow>
    fmlookup (maShort (fst st)) s = Some p"
proof (induction xs arbitrary: st)
  case (Cons x xs)
  then have "fmlookup (maShort (fst (cover_short prices x st))) s = Some p" by simp
  then show ?case by (auto simp: cover_short_def Let_def case_prod_beta split: option.splits if_splits)
qed auto

lemma account_ok_liquidate:
  assumes "account_ok a"
  shows "account_ok (snd (ForceLiquidate it started completed ctxErr prices reason a))"
proof -
  define b where "b = fold (sell_long prices) (it 0 (fmdom (maLong a))) (a, [])"
  define c where "c = fold (cover_short prices) (it 1 (fmdom (maShort (fst b)))) (fst b, [])"
  have "fmlookup (maLong (fst c)) s = Some p \<Longrightarrow> fmlookup (maLong a) s = Some p" for s p
    using fold_sell_sub [of prices "it 0 (fmdom (maLong a))" "(a, [])" s p] by (simp add: c_def b_def)
  moreover have "fmlookup (maShort (fst c)) s = Some p \<Longrightarrow> fmlookup (maShort a) s = Some p" for s p
    using fold_cover_sub [of prices _ "(fst b, [])" s p] by (simp add: c_def) (simp add: b_def)
  ultimately have "account_ok (fst c)" using assms unfolding account_ok_def by blast
  then have "account_ok ((fst c)\<lparr>maAccruedFinancingInterest := x, maAccruedLendingInterest := y\<rparr>)" for x y
    by (subst account_ok_cong [of _ "fst c"]) auto
  with assms show ?thesis
    by (simp add: ForceLiquidate_def Let_def case_prod_beta b_def c_def split: option.splits)
qed

lemma mg_step_ok:
  assumes "mg_step a b" "account_ok a"
  shows "account_ok b"
  using assms
proof cases
  case accrue
  with assms show ?thesis
    by (subst account_ok_cong [of _ a]) (auto simp: AccrueInterest_def Let_def split: option.splits)
next
  case deposit
  with assms show ?thesis
    by (subst account_ok_cong [of _ a]) (auto simp: Deposit_def split: option.splits)
next
  case withdraw
  with assms show ?thesis
    by (subst account_ok_cong [of _ a]) (auto simp: Withdraw_def Let_def split: option.splits)
next
  case relist
  with assms show ?thesis by (subst account_ok_cong [of _ a]) auto
qed (use assms(2) in \<open>simp_all add: account_ok_buy account_ok_short account_ok_cover account_ok_sell account_ok_liquidate\<close>)

lemma mg_step_cfg:
  assumes "mg_step a b"
  shows "maCfg b = maCfg a \<and> maCalc b = maCalc a"
  using assms
  by cases (auto simp: MarginBuy_def short_execute_def BuyToCover_def MarginSell_def AccrueInterest_def ForceLiquidate_def
      Deposit_def Withdraw_def addToLongPosition_def addToShortPosition_def Let_def case_prod_beta split: option.splits)



definition sample_new :: MarginAccount where
  "sample_new = (case NewMarginAccount ''M'' (Fin 64) DefaultMarginConfig None of Inr a \<Rightarrow> a)"

lemma sample_new_eq: "NewMarginAccount ''M'' (Fin 64) DefaultMarginConfig None = Inr sample_new"
proof -
  have "\<not> isl (NewMarginAccount ''M'' (Fin 64) DefaultMarginConfig None)" by code_simp
  then show ?thesis
    by (cases "NewMarginAccount ''M'' (Fin 64) DefaultMarginConfig None") (simp_all add: sample_new_def)
qed


section \<open>Guards\<close>

lemma fadd_zero_left: "f64_wf q \<Longrightarrow> \<not> fle q (Fin 0) \<Longrightarrow> fadd (Fin 0) q = q"
  by (cases q) (auto simp: fadd_def f64_wf_def fle_def rnd_exact)

lemma trade_result_fst:
  "trMarginRequired (fst (trade_result it now op symb qty price f l c r a)) = r"
  "trMaintenanceRatio (fst (trade_result it now op symb qty price f l c r a)) =
     acct_MaintenanceRatio (it 4) (it 5) (fmupd symb price fmempty) a"
  "trTradeID (fst (trade_result it now op symb qty price f l c r a)) = fst (nextTradeID a)"
  by (simp_all add: trade_result_def Let_def case_prod_beta)

lemma MarginBuy_outcome:
  "case MarginBuy it now ctxErr symb qty price a of
     (Inl e, a') \<Rightarrow> a' = a
   | (Inr res, a') \<Rightarrow>
       fle (trMarginRequired res) (acct_AvailableMargin it (fmupd symb price fmempty) a) \<and>
       maCash a' = maCash a \<and> maShort a' = maShort a \<and>
       maFinancingBalance a' = fadd (maFinancingBalance a) (fmul qty price)"
  by (auto simp: MarginBuy_def Let_def case_prod_beta HasSufficientMargin_def trade_result_fst addToLongPosition_def
      split: option.splits)

lemma ShortSell_outcome:
  assumes "f64_wf qty"
  shows "case ShortSell it now ctxErr symb qty price a of
     (Inl e, a') \<Rightarrow> a' = a
   | (Inr res, a') \<Rightarrow>
       fle (trMarginRequired res) (acct_AvailableMargin it (fmupd symb price fmempty) a) \<and>
       maCash a' = fadd (maCash a) (fmul qty price) \<and> maFinancingBalance a' = maFinancingBalance a \<and>
       (\<exists>e p. fmlookup (maShortable a) symb = Some e \<and> fmlookup (maShort a') symb = Some p \<and>
          (flt (Fin 0) (shMaxQty e) \<longrightarrow> \<not> flt (shMaxQty e) (spQuantity p)))"
proof (cases "short_check ctxErr symb qty price a")
  case None
  then have q: "\<not> fle qty (Fin 0)"
    by (auto simp: short_check_def trade_checks_None validateTrade_None split: option.splits)
  from None obtain e where e: "fmlookup (maShortable a) symb = Some e"
    by (auto simp: short_check_def MaxShortableQty_def split: option.splits if_splits)
  with None have lim: "flt (Fin 0) (shMaxQty e) \<Longrightarrow>
      \<not> flt (shMaxQty e) (fadd (case fmlookup (maShort a) symb of None \<Rightarrow> Fin 0 | Some p \<Rightarrow> spQuantity p) qty)"
    by (auto simp: short_check_def MaxShortableQty_def Let_def split: option.splits if_splits)
  show ?thesis
  proof (cases "fmlookup (maShort a) symb")
    case [simp]: None
    show ?thesis using e lim fadd_zero_left [OF assms q]
      by (simp add: ShortSell_def \<open>short_check _ _ _ _ _ = None\<close> short_execute_def Let_def case_prod_beta
          HasSufficientMargin_def trade_result_fst addToShortPosition_def)
  next
    case (Some p)
    then show ?thesis using e lim
      by (simp add: ShortSell_def \<open>short_check _ _ _ _ _ = None\<close> short_execute_def Let_def case_prod_beta
          HasSufficientMargin_def trade_result_fst addToShortPosition_def)
  qed
qed (simp add: ShortSell_def)

lemma Withdraw_outcome:
  "case Withdraw it ctxErr amount prices a of
     (Some e, a') \<Rightarrow> a' = a
   | (None, a') \<Rightarrow> \<not> flt (maCash a) amount \<and> a' = a\<lparr>maCash := fsub (maCash a) amount\<rparr> \<and>
       \<not> flt (acct_MaintenanceRatio (it 0) (it 1) prices a') (mgMaintenanceRatioFloor (maCfg a))"
  by (auto simp: Withdraw_def Let_def split: option.splits)




text \<open>The limit is checked before the lock is taken: two short sales that check first exceed it together.\<close>

lemma short_limit_race:
  "short_check None ''B'' (Fin 4) (Fin 8) (sample_new\<lparr>maShortable := maShortable sample_margin\<rparr>) = None"
  "map_option spQuantity (fmlookup (maShort
     (snd (short_execute sample_order 0 ''B'' (Fin 4) (Fin 8)
       (snd (short_execute sample_order 0 ''B'' (Fin 4) (Fin 8)
          (sample_new\<lparr>maShortable := maShortable sample_margin\<rparr>)))))) ''B'') = Some (Fin 8)"
  by code_simp+

text \<open>The guard of a purchase counts stock bought on credit as assets: a purchase it accepts may leave the
  account below the floor at which it is liquidated.\<close>

definition sample_leveraged :: MarginAccount where
  "sample_leveraged = snd (MarginBuy sample_order 0 None ''A'' (Fin 16) (Fin 8) sample_new)"

lemma purchase_below_floor:
  "\<not> isl (fst (MarginBuy sample_order 0 None ''A'' (Fin 16) (Fin 8) sample_new))"
  "\<not> isl (fst (MarginBuy sample_order 0 None ''A'' (Fin 24) (Fin 8) sample_leveraged))"
  "IsForcedLiquidation DefaultMarginConfig
     (trMaintenanceRatio (projr (fst (MarginBuy sample_order 0 None ''A'' (Fin 24) (Fin 8) sample_leveraged))))"
  by code_simp+

text \<open>A partial cover sets the sale price to zero: without a price for the stock, the rest of the debt
  counts as nothing.\<close>

lemma partial_cover_forgets_debt:
  "valof (LendingBalance (sample_order 0) fmempty sample_margin) = 16"
  "case BuyToCover sample_order 0 None ''B'' (Fin 1) (Fin 8) sample_margin of
     (r, a) \<Rightarrow> \<not> isl r \<and> map_option spQuantity (fmlookup (maShort a) ''B'') = Some (Fin 1) \<and>
       LendingBalance (sample_order 0) fmempty a = Fin 0"
  by code_simp+

section \<open>Buying on credit and selling\<close>

lemma fmul_int:
  assumes "\<bar>m * n\<bar> \<le> 2 ^ 53" "0 < m * n"
  shows "fmul (Fin (of_int m)) (Fin (of_int n)) = Fin (of_int (m * n))"
proof -
  have "rat_of_int (m * n) \<noteq> 0" using assms(2) by linarith
  with f64_of_exact [OF rnd_rat_of_int int_below_overflow] assms(1) show ?thesis
    by (simp add: fmul_fin flip: of_int_mult)
qed

lemma fmul_half_int:
  assumes "0 < k" "k < 2 ^ 53"
  shows "fmul (Fin (of_int k)) (Fin (1/2)) = Fin (of_int k / 2)"
proof -
  have "rnd_rat (of_int k / 2) = of_int k / 2"
    using assms by (intro rnd_rat_exact [of _ k "- 1"]) (auto simp: power_int_def)
  moreover have "\<bar>rat_of_int k / 2\<bar> < overflow_bound" "rat_of_int k / 2 \<noteq> 0"
    using assms int_below_overflow [of k] by auto
  ultimately show ?thesis using f64_of_exact by (simp add: fmul_fin)
qed

lemma fdiv_self_int:
  assumes "0 < n"
  shows "fdiv (Fin (of_int n)) (Fin (of_int n)) = Fin 1"
  using assms f64_of_exact [of 1 False] rnd_rat_of_int [of 1] int_below_overflow [of 1]
  by (simp add: fdiv_def is_inf_def is_zero_def Let_def)

lemma map_total_empty [simp]: "map_total order fmempty f start = start"
  by (induction order arbitrary: start) (simp_all add: map_total_def)

lemma fmdrop_fmupd_empty [simp]: "fmdrop k (fmupd k x fmempty) = fmempty"
  by (rule fmap_ext) simp

text \<open>a purchase on credit sold again at the same price. For whole numbers of shares and a whole price, with a new
  account's cash covering half of the value: both trades are accepted, the loan is gone, no position
  is left, and the cash has grown by the whole value of the trade. The repayment of the loan is never
  taken from the cash.\<close>

lemma credit_round_trip_gain:
  assumes "NewMarginAccount accountID (Fin (of_int cash)) cfg sl = Inr a0" "mgInitialMarginRate cfg = Fin (1/2)"
    and "symb \<noteq> []" "0 < qty" "0 < price" "qty * price \<le> 2 * cash" "cash + qty * price \<le> 2 ^ 53"
    and "MarginBuy it now None symb (Fin (of_int qty)) (Fin (of_int price)) a0 = (r1, a1)"
    and "MarginSell it' now' None symb (Fin (of_int qty)) (Fin (of_int price)) a1 = (r2, a2)"
  shows "\<not> isl r1 \<and> \<not> isl r2 \<and> maCash a2 = Fin (of_int (cash + qty * price)) \<and>
    maFinancingBalance a2 = Fin 0 \<and> maLong a2 = fmempty \<and> maShort a2 = fmempty"
proof -
  define v where "v = qty * price"
  let ?v = "Fin (of_int v)" and ?q = "Fin (of_int qty)" and ?p = "Fin (of_int price)"
  have v: "0 < v" "v \<le> 2 * cash" "cash + v \<le> 2 ^ 53" using assms(4-7) by (simp_all add: v_def)
  have "qty * 1 \<le> v" unfolding v_def using assms(4,5) by (intro mult_left_mono) auto
  then have q: "qty \<le> 2 ^ 53" using v by linarith
  have a0: "maCash a0 = Fin (of_int cash)" "maFinancingBalance a0 = Fin 0" "maLong a0 = fmempty" "maShort a0 = fmempty"
    "AccruedInterest a0 = Fin 0" "mgInitialMarginRate (maCalc a0) = Fin (1/2)"
    using assms(1,2) fadd_int [of 0 0]
    by (auto simp: NewMarginAccount_def AccruedInterest_def NewMarginCalculator_def feq_def split: if_splits option.splits)
  have fv: "fmul ?q ?p = ?v" using fmul_int [of qty price] v by (simp add: v_def)
  have pos: "\<not> fle ?q (Fin 0)" "\<not> fle ?p (Fin 0)" "\<not> fle ?v (Fin 0)" using v(1) assms(4,5) by (simp_all add: fle_fin)
  have checks: "trade_checks None symb ?q ?p = None"
    using pos assms(3) by (simp add: trade_checks_def validateTrade_def)
  have c: "fsub (Fin (of_int cash)) (Fin 0) = Fin (of_int cash)"
    using fsub_int [of cash 0] v by simp
  have av: "acct_AvailableMargin it m a0 = Fin (of_int cash)" for m
    using fadd_int [of 0 0] c a0
    by (simp add: acct_AvailableMargin_def calc_AvailableMargin_def totalAssetsLocked_def totalDebtLocked_def
        usedMarginLocked_def Let_def flt_def)
  have req: "RequiredMarginForBuy (maCalc a0) ?v = Fin (of_int v / 2)"
    using fmul_half_int [of v] pos(3) a0(6) v by (simp add: RequiredMarginForBuy_def)
  have "rat_of_int v \<le> of_int (2 * cash)" using v(2) by (simp only: of_int_le_iff)
  then have ok: "HasSufficientMargin (Fin (of_int cash)) (Fin (of_int v / 2))"
    by (simp add: HasSufficientMargin_def fle_fin)
  define b where "b = addToLongPosition symb ?q ?p ?v (a0\<lparr>maFinancingBalance := fadd (Fin 0) ?v\<rparr>)"
  have buy: "\<not> isl r1" "a1 = snd (nextTradeID b)"
    using assms(8) ok by (simp_all add: MarginBuy_def checks fv av req a0(2) Let_def case_prod_beta b_def prod_eq_iff)
       (auto simp: prod_eq_iff)
  let ?P = "\<lparr>lpSymbol = symb, lpQuantity = ?q, lpAvgCost = ?p, lpFinancingAmount = ?v\<rparr>"
  have b: "fmlookup (maLong b) symb = Some ?P" "maLong b = fmupd symb ?P fmempty" "maShort b = fmempty"
    "maCash b = Fin (of_int cash)" "maFinancingBalance b = ?v"
    using a0 fadd_int [of 0 v] v by (simp_all add: b_def addToLongPosition_def)
  have one: "fmul ?v (Fin 1) = ?v" using fmul_int [of v 1] v by simp
  have fin: "financing_for ?q ?P = ?v" "repayment ?q ?v ?P = ?v"
    using fdiv_self_int [OF assms(4)] one by (simp_all add: financing_for_def repayment_def flt_def)
  have z: "fsub ?v ?v = Fin 0" "fsub ?q ?q = Fin 0" "flt (Fin 0) ?q" "\<not> flt ?q ?q"
      "fadd (Fin (of_int cash)) ?v = Fin (of_int (cash + v))"
    using fsub_int [of v v] fsub_int [of qty qty] assms(4) fadd_int [of cash v] v
    by (simp_all add: flt_fin)
  show ?thesis using assms(9) buy b z fin
    by (simp add: MarginSell_def checks fv v_def [symmetric] Let_def case_prod_beta) (auto simp: fle_refl)
qed


end
