(* ===== verification/Expr_Syntax.thy ===== *)
theory Expr_Syntax
  imports Float64_Math
begin

text \<open>
  The factor expression language of \<open>pkg/expression\<close>: the syntax tree (\<open>ast.go\<close>) and the tokens
  (\<open>parser.go\<close>). A formula is a list of code points below 256, which is what \<open>char\<close> holds; the
  character classes are those of Go's \<open>unicode\<close> package on that range.
\<close>

section \<open>The syntax tree\<close>

datatype Node =
    LiteralNode f64
  | IdentifierNode string
  | BinaryOpNode string Node Node
  | UnaryOpNode string Node
  | FunctionNode string "Node list"
  | CrossSectionalNode string Node "Node option"

fun Children :: "Node \<Rightarrow> Node list" where
  "Children (LiteralNode v) = []"
| "Children (IdentifierNode name) = []"
| "Children (BinaryOpNode oper l r) = [l, r]"
| "Children (UnaryOpNode oper x) = [x]"
| "Children (FunctionNode name args) = args"
| "Children (CrossSectionalNode oper x grp) = (case grp of None \<Rightarrow> [x] | Some g \<Rightarrow> [x, g])"

text \<open>The raw data fields an expression needs; the result of the code is this set in some order.\<close>

fun ExtractInputs :: "Node \<Rightarrow> string set" where
  "ExtractInputs (LiteralNode v) = {}"
| "ExtractInputs (IdentifierNode name) = {name}"
| "ExtractInputs (BinaryOpNode oper l r) = ExtractInputs l \<union> ExtractInputs r"
| "ExtractInputs (UnaryOpNode oper x) = ExtractInputs x"
| "ExtractInputs (FunctionNode name args) = \<Union> (set (map ExtractInputs args))"
| "ExtractInputs (CrossSectionalNode oper x grp) =
     ExtractInputs x \<union> (case grp of None \<Rightarrow> {} | Some g \<Rightarrow> ExtractInputs g)"

section \<open>Tokens\<close>

datatype tokenType =
    tokenEOF | tokenNumber | tokenIdentifier | tokenLParen | tokenRParen | tokenComma
  | tokenPlus | tokenMinus | tokenMul | tokenDiv | tokenPow
  | tokenGT | tokenLT | tokenEQ | tokenGE | tokenLE | tokenAND | tokenOR | tokenNOT

record token =
  tokTyp :: tokenType
  tokVal :: string

definition tok :: "tokenType \<Rightarrow> string \<Rightarrow> token" where
  "tok t v = \<lparr>tokTyp = t, tokVal = v\<rparr>"

definition IsSpace :: "char \<Rightarrow> bool" where
  "IsSpace c \<longleftrightarrow> (let n = of_char c :: nat in 9 \<le> n \<and> n \<le> 13 \<or> n = 32 \<or> n = 133 \<or> n = 160)"

definition IsDigit :: "char \<Rightarrow> bool" where
  "IsDigit c \<longleftrightarrow> (let n = of_char c :: nat in 48 \<le> n \<and> n \<le> 57)"

definition IsLetter :: "char \<Rightarrow> bool" where
  "IsLetter c \<longleftrightarrow>
     (let n = of_char c :: nat
      in 65 \<le> n \<and> n \<le> 90 \<or> 97 \<le> n \<and> n \<le> 122 \<or> n = 170 \<or> n = 181 \<or> n = 186 \<or>
         192 \<le> n \<and> n \<le> 214 \<or> 216 \<le> n \<and> n \<le> 246 \<or> 248 \<le> n)"

text \<open>\<open>strings.ToUpper\<close> up to the code points outside ASCII, which no keyword has.\<close>

definition to_upper :: "char \<Rightarrow> char" where
  "to_upper c = (let n = of_char c :: nat in if 97 \<le> n \<and> n \<le> 122 then char_of (n - 32) else c)"

section \<open>The tokenizer\<close>

datatype token_error =
    InvalidNumber nat
  | UnexpectedCharacter char nat

text \<open>The rest of a number after its first character: its characters and what follows, or a second dot.\<close>

fun scan_number :: "bool \<Rightarrow> nat \<Rightarrow> string \<Rightarrow> token_error + (string \<times> string)" where
  "scan_number hasDot i [] = Inr ([], [])"
| "scan_number hasDot i (c # cs) =
     (if c = CHR ''.'' then
        (if hasDot then Inl (InvalidNumber i)
         else map_sum id (apfst ((#) c)) (scan_number True (i + 1) cs))
      else if IsDigit c then map_sum id (apfst ((#) c)) (scan_number hasDot (i + 1) cs)
      else Inr ([], c # cs))"

definition word_char :: "char \<Rightarrow> bool" where
  "word_char c \<longleftrightarrow> IsLetter c \<or> IsDigit c \<or> c = CHR ''_''"

definition word_token :: "string \<Rightarrow> token" where
  "word_token word =
     (let up = map to_upper word
      in if up = ''AND'' then tok tokenAND ''AND''
         else if up = ''OR'' then tok tokenOR ''OR''
         else if up = ''NOT'' then tok tokenNOT ''NOT''
         else tok tokenIdentifier word)"

text \<open>An operator or a punctuation mark at the head of the text, with the number of characters it takes.\<close>

definition punct :: "char \<Rightarrow> string \<Rightarrow> (token \<times> nat) option" where
  "punct r rest =
     (let eq = (case rest of c # _ \<Rightarrow> c = CHR ''='' | [] \<Rightarrow> False)
      in if r = CHR ''('' then Some (tok tokenLParen ''('', 1)
         else if r = CHR '')'' then Some (tok tokenRParen '')'', 1)
         else if r = CHR '','' then Some (tok tokenComma '','', 1)
         else if r = CHR ''+'' then Some (tok tokenPlus ''+'', 1)
         else if r = CHR ''-'' then Some (tok tokenMinus ''-'', 1)
         else if r = CHR ''*'' then Some (tok tokenMul ''*'', 1)
         else if r = CHR ''/'' then Some (tok tokenDiv ''/'', 1)
         else if r = CHR ''^'' then Some (tok tokenPow ''^'', 1)
         else if r = CHR ''>'' then Some (if eq then (tok tokenGE ''>='', 2) else (tok tokenGT ''>'', 1))
         else if r = CHR ''<'' then Some (if eq then (tok tokenLE ''<='', 2) else (tok tokenLT ''<'', 1))
         else if r = CHR ''='' then (if eq then Some (tok tokenEQ ''=='', 2) else None)
         else None)"

lemma map_sum_eq_Inr [simp]: "map_sum f g s = Inr y \<longleftrightarrow> (\<exists>x. s = Inr x \<and> y = g x)"
  by (cases s) auto

lemma scan_number_shorter: "scan_number d i cs = Inr (num, rest) \<Longrightarrow> length num + length rest = length cs"
  by (induction d i cs arbitrary: num rest rule: scan_number.induct) (fastforce split: if_splits)+

lemma punct_takes: "punct r rest = Some (t, n) \<Longrightarrow> 1 \<le> n"
  by (auto simp: punct_def Let_def split: if_splits)

function tokenize_loop :: "nat \<Rightarrow> string \<Rightarrow> token_error + token list" where
  "tokenize_loop i [] = Inr [tok tokenEOF []]"
| "tokenize_loop i (r # rest) =
     (if IsSpace r then tokenize_loop (i + 1) rest
      else if IsDigit r \<or> r = CHR ''.'' then
        (case scan_number (r = CHR ''.'') (i + 1) rest of
           Inl e \<Rightarrow> Inl e
         | Inr (num, rest') \<Rightarrow>
             map_sum id ((#) (tok tokenNumber (r # num))) (tokenize_loop (i + 1 + length num) rest'))
      else if IsLetter r \<or> r = CHR ''_'' then
        (let word = r # takeWhile word_char rest
         in map_sum id ((#) (word_token word)) (tokenize_loop (i + length word) (dropWhile word_char rest)))
      else case punct r rest of
             None \<Rightarrow> Inl (UnexpectedCharacter r i)
           | Some (t, n) \<Rightarrow> map_sum id ((#) t) (tokenize_loop (i + n) (drop n (r # rest))))"
  by pat_completeness auto
termination
  by (relation "measure (length \<circ> snd)")
    (auto dest!: scan_number_shorter punct_takes simp: less_Suc_eq_le length_dropWhile_le)

definition tokenize :: "string \<Rightarrow> token_error + token list" where
  "tokenize formula = tokenize_loop 0 formula"

section \<open>Numbers\<close>

text \<open>
  \<open>strconv.ParseFloat\<close> on a number token, which has digits and at most one dot: the nearest
  \<open>float64\<close>, an error when there is no digit or the value is out of range.
\<close>

definition ParseFloat :: "string \<Rightarrow> f64 option" where
  "ParseFloat s =
     (let whole = takeWhile (\<lambda>c. c \<noteq> CHR ''.'') s;
          frac = drop 1 (dropWhile (\<lambda>c. c \<noteq> CHR ''.'') s);
          v = rnd (of_nat (digits_val (whole @ frac)) / 10 ^ length frac)
      in if whole = [] \<and> frac = [] then None else if is_inf v then None else Some v)"

end
