(* ===== verification/Indicator.thy ===== *)
theory Indicator
  imports Float64_Math
begin

text \<open>
  The recursive indicators of \<open>pkg/indicator\<close>: Wilder's moving average (\<open>rma.go\<close>), the exponentially
  weighted average (\<open>ewma.go\<close>) and the local-level Kalman filter (\<open>kalman.go\<close>). Each has a core with
  a \<open>step\<close>, a streaming type over it (\<open>Update\<close>, \<open>Value\<close>, \<open>Reset\<close>, \<open>SaveState\<close>, \<open>LoadState\<close>) and a batch
  function that runs the core over a whole series.

  The locale \<open>stream_core\<close> is what the three have in common; inside it the batch result is computed
  from the states of the streaming run. Its three interpretations give the agreement of batch,
  streaming and resumed runs, and that no output depends on a later input.

  The bytes of a saved state stand for the JSON object they encode: a state that does not decode
  (empty, malformed, an unknown or a missing field) is \<open>None\<close>. The natural logarithm of the warm-up
  of the exponential average is an argument.
\<close>

section \<open>Shared parts\<close>

datatype indicator_error =
    IllegalParameter
  | NonFiniteInput nat f64
  | NotWarm
  | UnsupportedValue
  | BadState

definition isFinite :: "f64 \<Rightarrow> bool" where
  "isFinite x \<longleftrightarrow> x \<noteq> NaN \<and> \<not> is_inf x"

lemma isFinite_is_fin: "isFinite x = is_fin x"
  by (cases x) (auto simp: isFinite_def)

section \<open>Wilder's moving average\<close>

record rmaCore =
  rmaN :: int
  rmaCount :: int
  rmaSum :: f64
  rmaPrev :: f64

definition newRMACore :: "int \<Rightarrow> rmaCore" where
  "newRMACore n = \<lparr>rmaN = n, rmaCount = 0, rmaSum = Fin 0, rmaPrev = Fin 0\<rparr>"

definition rma_step :: "rmaCore \<Rightarrow> f64 \<Rightarrow> rmaCore" where
  "rma_step c0 x =
     (let c = c0\<lparr>rmaCount := rmaCount c0 + 1\<rparr>
      in if rmaCount c \<le> rmaN c
         then let c = c\<lparr>rmaSum := fadd (rmaSum c) x\<rparr>
              in if rmaCount c = rmaN c then c\<lparr>rmaPrev := fdiv (rmaSum c) (fint (rmaN c))\<rparr> else c
         else c\<lparr>rmaPrev := fadd (rmaPrev c) (fdiv (fsub x (rmaPrev c)) (fint (rmaN c)))\<rparr>)"

definition rma_ready :: "rmaCore \<Rightarrow> bool" where
  "rma_ready c \<longleftrightarrow> rmaN c \<le> rmaCount c"

definition NewRMA :: "int \<Rightarrow> indicator_error + rmaCore" where
  "NewRMA n = (if n < 1 then Inl IllegalParameter else Inr (newRMACore n))"

definition rma_Update :: "f64 \<Rightarrow> rmaCore \<Rightarrow> indicator_error + rmaCore" where
  "rma_Update x c = (if \<not> isFinite x then Inl (NonFiniteInput 0 x) else Inr (rma_step c x))"

definition rma_Value :: "rmaCore \<Rightarrow> indicator_error + f64" where
  "rma_Value c = (if \<not> rma_ready c then Inl NotWarm else Inr (rmaPrev c))"

definition rma_Warmup :: "rmaCore \<Rightarrow> int" where
  "rma_Warmup c = rmaN c"

definition rma_Reset :: "rmaCore \<Rightarrow> rmaCore" where
  "rma_Reset c = newRMACore (rmaN c)"

record rmaState =
  rsVersion :: int
  rsCount :: int
  rsSum :: f64
  rsPrev :: f64

text \<open>\<open>json.Marshal\<close> refuses a NaN and an infinity.\<close>

definition rma_SaveState :: "rmaCore \<Rightarrow> indicator_error + rmaState" where
  "rma_SaveState c =
     (if isFinite (rmaSum c) \<and> isFinite (rmaPrev c)
      then Inr \<lparr>rsVersion = 1, rsCount = rmaCount c, rsSum = rmaSum c, rsPrev = rmaPrev c\<rparr>
      else Inl UnsupportedValue)"

definition rma_LoadState :: "rmaState option \<Rightarrow> rmaCore \<Rightarrow> indicator_error + rmaCore" where
  "rma_LoadState b c =
     (case b of
        None \<Rightarrow> Inl BadState
      | Some s \<Rightarrow>
          if rsVersion s \<noteq> 1 then Inl BadState
          else if rsCount s < 0 then Inl BadState
          else if \<not> isFinite (rsSum s) \<or> \<not> isFinite (rsPrev s) then Inl BadState
          else Inr (c\<lparr>rmaCount := rsCount s, rmaSum := rsSum s, rmaPrev := rsPrev s\<rparr>))"

fun rma_loop :: "rmaCore \<Rightarrow> nat \<Rightarrow> f64 list \<Rightarrow> indicator_error + f64 list" where
  "rma_loop c i [] = Inr []"
| "rma_loop c i (x # xs) =
     (if \<not> isFinite x then Inl (NonFiniteInput i x)
      else let c = rma_step c x
           in case rma_loop c (i + 1) xs of
                Inl e \<Rightarrow> Inl e
              | Inr out \<Rightarrow> Inr ((if rma_ready c then rmaPrev c else NaN) # out))"

definition RMABatch :: "f64 list \<Rightarrow> int \<Rightarrow> indicator_error + f64 list" where
  "RMABatch xs n = (if n < 1 then Inl IllegalParameter else rma_loop (newRMACore n) 0 xs)"

section \<open>The exponentially weighted average\<close>

record ewmaCore =
  ewAlpha :: f64
  ewWarm :: int
  ewCount :: int
  ewPrev :: f64

definition ewmaWarmup :: "(f64 \<Rightarrow> f64) \<Rightarrow> f64 \<Rightarrow> int" where
  "ewmaWarmup lg alpha =
     (if fle (Fin 1) alpha then 1
      else let w = go_int (math_Ceil (fdiv (lg (rnd (1 / 1000000))) (lg (fsub (Fin 1) alpha))))
           in if w < 1 then 1 else w)"

definition newEWMACore :: "(f64 \<Rightarrow> f64) \<Rightarrow> f64 \<Rightarrow> ewmaCore" where
  "newEWMACore lg alpha = \<lparr>ewAlpha = alpha, ewWarm = ewmaWarmup lg alpha, ewCount = 0, ewPrev = Fin 0\<rparr>"

definition ewma_step :: "ewmaCore \<Rightarrow> f64 \<Rightarrow> ewmaCore" where
  "ewma_step c0 x =
     (let c = c0\<lparr>ewCount := ewCount c0 + 1\<rparr>
      in if ewCount c = 1 then c\<lparr>ewPrev := x\<rparr>
         else c\<lparr>ewPrev := fadd (fmul (ewAlpha c) x) (fmul (fsub (Fin 1) (ewAlpha c)) (ewPrev c))\<rparr>)"

definition ewma_ready :: "ewmaCore \<Rightarrow> bool" where
  "ewma_ready c \<longleftrightarrow> ewWarm c \<le> ewCount c"

definition legal_alpha :: "f64 \<Rightarrow> bool" where
  "legal_alpha alpha \<longleftrightarrow> flt (Fin 0) alpha \<and> fle alpha (Fin 1)"

definition NewEWMA :: "(f64 \<Rightarrow> f64) \<Rightarrow> f64 \<Rightarrow> indicator_error + ewmaCore" where
  "NewEWMA lg alpha = (if \<not> legal_alpha alpha then Inl IllegalParameter else Inr (newEWMACore lg alpha))"

definition ewma_Update :: "f64 \<Rightarrow> ewmaCore \<Rightarrow> indicator_error + ewmaCore" where
  "ewma_Update x c = (if \<not> isFinite x then Inl (NonFiniteInput 0 x) else Inr (ewma_step c x))"

definition ewma_Value :: "ewmaCore \<Rightarrow> indicator_error + f64" where
  "ewma_Value c = (if \<not> ewma_ready c then Inl NotWarm else Inr (ewPrev c))"

definition ewma_Warmup :: "ewmaCore \<Rightarrow> int" where
  "ewma_Warmup c = ewWarm c"

definition ewma_Reset :: "(f64 \<Rightarrow> f64) \<Rightarrow> ewmaCore \<Rightarrow> ewmaCore" where
  "ewma_Reset lg c = newEWMACore lg (ewAlpha c)"

record ewmaState =
  esVersion :: int
  esCount :: int
  esPrev :: f64

definition ewma_SaveState :: "ewmaCore \<Rightarrow> indicator_error + ewmaState" where
  "ewma_SaveState c =
     (if isFinite (ewPrev c) then Inr \<lparr>esVersion = 1, esCount = ewCount c, esPrev = ewPrev c\<rparr>
      else Inl UnsupportedValue)"

definition ewma_LoadState :: "ewmaState option \<Rightarrow> ewmaCore \<Rightarrow> indicator_error + ewmaCore" where
  "ewma_LoadState b c =
     (case b of
        None \<Rightarrow> Inl BadState
      | Some s \<Rightarrow>
          if esVersion s \<noteq> 1 then Inl BadState
          else if esCount s < 0 then Inl BadState
          else if \<not> isFinite (esPrev s) then Inl BadState
          else Inr (c\<lparr>ewCount := esCount s, ewPrev := esPrev s\<rparr>))"

fun ewma_loop :: "ewmaCore \<Rightarrow> nat \<Rightarrow> f64 list \<Rightarrow> indicator_error + f64 list" where
  "ewma_loop c i [] = Inr []"
| "ewma_loop c i (x # xs) =
     (if \<not> isFinite x then Inl (NonFiniteInput i x)
      else let c = ewma_step c x
           in case ewma_loop c (i + 1) xs of
                Inl e \<Rightarrow> Inl e
              | Inr out \<Rightarrow> Inr ((if ewma_ready c then ewPrev c else NaN) # out))"

definition EWMABatch :: "(f64 \<Rightarrow> f64) \<Rightarrow> f64 list \<Rightarrow> f64 \<Rightarrow> indicator_error + f64 list" where
  "EWMABatch lg xs alpha =
     (if \<not> legal_alpha alpha then Inl IllegalParameter else ewma_loop (newEWMACore lg alpha) 0 xs)"

section \<open>The Kalman filter\<close>

record kalmanCore =
  kalQ :: f64
  kalR :: f64
  kalP0 :: f64
  kalCount :: int
  kalX :: f64
  kalP :: f64

definition newKalmanCore :: "f64 \<Rightarrow> f64 \<Rightarrow> kalmanCore" where
  "newKalmanCore q r = \<lparr>kalQ = q, kalR = r, kalP0 = r, kalCount = 0, kalX = Fin 0, kalP = Fin 0\<rparr>"

definition kalman_step :: "kalmanCore \<Rightarrow> f64 \<Rightarrow> kalmanCore" where
  "kalman_step c0 z =
     (let c = c0\<lparr>kalCount := kalCount c0 + 1\<rparr>
      in if kalCount c = 1 then c\<lparr>kalX := z, kalP := kalP0 c\<rparr>
         else let p = fadd (kalP c) (kalQ c);
                  k = fdiv p (fadd p (kalR c))
              in c\<lparr>kalX := fadd (kalX c) (fmul k (fsub z (kalX c))), kalP := fmul (fsub (Fin 1) k) p\<rparr>)"

definition kalman_ready :: "kalmanCore \<Rightarrow> bool" where
  "kalman_ready c \<longleftrightarrow> 1 \<le> kalCount c"

definition illegal_noise :: "f64 \<Rightarrow> f64 \<Rightarrow> bool" where
  "illegal_noise q r \<longleftrightarrow> \<not> isFinite q \<or> flt q (Fin 0) \<or> \<not> isFinite r \<or> fle r (Fin 0)"

definition NewKalman :: "f64 \<Rightarrow> f64 \<Rightarrow> indicator_error + kalmanCore" where
  "NewKalman q r = (if illegal_noise q r then Inl IllegalParameter else Inr (newKalmanCore q r))"

definition kalman_Update :: "f64 \<Rightarrow> kalmanCore \<Rightarrow> indicator_error + kalmanCore" where
  "kalman_Update z c = (if \<not> isFinite z then Inl (NonFiniteInput 0 z) else Inr (kalman_step c z))"

definition kalman_Value :: "kalmanCore \<Rightarrow> indicator_error + f64" where
  "kalman_Value c = (if \<not> kalman_ready c then Inl NotWarm else Inr (kalX c))"

definition kalman_Warmup :: "kalmanCore \<Rightarrow> int" where
  "kalman_Warmup c = 1"

definition kalman_Reset :: "kalmanCore \<Rightarrow> kalmanCore" where
  "kalman_Reset c = newKalmanCore (kalQ c) (kalR c)"

record kalmanState =
  ksVersion :: int
  ksCount :: int
  ksX :: f64
  ksP :: f64

definition kalman_SaveState :: "kalmanCore \<Rightarrow> indicator_error + kalmanState" where
  "kalman_SaveState c =
     (if isFinite (kalX c) \<and> isFinite (kalP c)
      then Inr \<lparr>ksVersion = 1, ksCount = kalCount c, ksX = kalX c, ksP = kalP c\<rparr>
      else Inl UnsupportedValue)"

definition kalman_LoadState :: "kalmanState option \<Rightarrow> kalmanCore \<Rightarrow> indicator_error + kalmanCore" where
  "kalman_LoadState b c =
     (case b of
        None \<Rightarrow> Inl BadState
      | Some s \<Rightarrow>
          if ksVersion s \<noteq> 1 then Inl BadState
          else if ksCount s < 0 then Inl BadState
          else if \<not> isFinite (ksX s) \<or> \<not> isFinite (ksP s) then Inl BadState
          else Inr (c\<lparr>kalCount := ksCount s, kalX := ksX s, kalP := ksP s\<rparr>))"

fun kalman_loop :: "kalmanCore \<Rightarrow> nat \<Rightarrow> f64 list \<Rightarrow> indicator_error + f64 list" where
  "kalman_loop c i [] = Inr []"
| "kalman_loop c i (z # zs) =
     (if \<not> isFinite z then Inl (NonFiniteInput i z)
      else let c = kalman_step c z
           in case kalman_loop c (i + 1) zs of
                Inl e \<Rightarrow> Inl e
              | Inr out \<Rightarrow> Inr ((if kalman_ready c then kalX c else NaN) # out))"

definition KalmanBatch :: "f64 list \<Rightarrow> f64 \<Rightarrow> f64 \<Rightarrow> indicator_error + f64 list" where
  "KalmanBatch zs q r = (if illegal_noise q r then Inl IllegalParameter else kalman_loop (newKalmanCore q r) 0 zs)"

text \<open>\<open>truerange.go\<close>\<close>

definition TrueRange :: "f64 \<Rightarrow> f64 \<Rightarrow> f64 \<Rightarrow> f64" where
  "TrueRange prevClose high low =
     math_Max (fsub high low) (math_Max (fabs (fsub high prevClose)) (fabs (fsub low prevClose)))"

section \<open>Batch and streaming runs\<close>

text \<open>
  A streaming run feeds the values one after the other; \<open>reading\<close> is what a consumer sees of
  \<open>Value()\<close> when an indicator that is not warm counts as NaN.
\<close>

primrec feed :: "('x \<Rightarrow> 'c \<Rightarrow> 'e + 'c) \<Rightarrow> 'x list \<Rightarrow> 'c \<Rightarrow> 'e + 'c" where
  "feed update [] c = Inr c"
| "feed update (x # xs) c = (case update x c of Inl e \<Rightarrow> Inl e | Inr c \<Rightarrow> feed update xs c)"

definition reading :: "'e + f64 \<Rightarrow> f64" where
  "reading r = (case r of Inl _ \<Rightarrow> NaN | Inr v \<Rightarrow> v)"

text \<open>
  What the batch loops and the streaming methods do with a core: \<open>core_loop\<close> runs over a series,
  \<open>core_Update\<close> and \<open>core_Value\<close> feed and read one value.
\<close>

locale stream_core =
  fixes core_step :: "'c \<Rightarrow> f64 \<Rightarrow> 'c"
    and core_Update :: "f64 \<Rightarrow> 'c \<Rightarrow> indicator_error + 'c"
    and core_Value :: "'c \<Rightarrow> indicator_error + f64"
    and core_loop :: "'c \<Rightarrow> nat \<Rightarrow> f64 list \<Rightarrow> indicator_error + f64 list"
  assumes loop_Nil: "core_loop c i [] = Inr []"
    and loop_Cons: "core_loop c i (x # xs) =
        (if isFinite x
         then (case core_loop (core_step c x) (i + 1) xs of
                 Inl e \<Rightarrow> Inl e | Inr out \<Rightarrow> Inr (reading (core_Value (core_step c x)) # out))
         else Inl (NonFiniteInput i x))"
    and Update_step: "core_Update x c = (if isFinite x then Inr (core_step c x) else Inl (NonFiniteInput 0 x))"
begin

lemma feed_foldl: "\<forall>x \<in> set xs. isFinite x \<Longrightarrow> feed core_Update xs c = Inr (foldl core_step c xs)"
  by (induction xs arbitrary: c) (auto simp: Update_step)

lemma loop_Inr:
  "core_loop c i xs = Inr out \<Longrightarrow>
   (\<forall>x \<in> set xs. isFinite x) \<and> length out = length xs \<and>
   (\<forall>k < length xs. out ! k = reading (core_Value (foldl core_step c (take (Suc k) xs))))"
proof (induction xs arbitrary: c i out)
  case (Cons x xs)
  then obtain out' where out': "isFinite x" "core_loop (core_step c x) (i + 1) xs = Inr out'"
    "out = reading (core_Value (core_step c x)) # out'"
    by (auto simp: loop_Cons split: if_splits sum.splits)
  from Cons.IH [OF out'(2)] out'(1,3) show ?case by (auto simp: nth_Cons split: nat.split)
qed (simp add: loop_Nil)

lemma loop_take: "core_loop c i xs = Inr out \<Longrightarrow> core_loop c i (take k xs) = Inr (take k out)"
  by (induction xs arbitrary: c i out k)
    (auto simp: loop_Nil loop_Cons take_Cons split: if_splits sum.splits nat.split)

lemma loop_total: "\<forall>x \<in> set xs. isFinite x \<Longrightarrow> \<exists>out. core_loop c i xs = Inr out"
proof (induction xs arbitrary: c i)
  case (Cons x xs)
  then obtain out where "core_loop (core_step c x) (i + 1) xs = Inr out" by fastforce
  with Cons.prems show ?case by (simp add: loop_Cons)
qed (simp add: loop_Nil)

lemma batch_is_stream:
  assumes "core_loop c 0 xs = Inr out" "k < length xs"
  shows "\<exists>c'. feed core_Update (take (Suc k) xs) c = Inr c' \<and> c' = foldl core_step c (take (Suc k) xs) \<and>
     out ! k = reading (core_Value c')"
  using loop_Inr [OF assms(1)] assms(2) feed_foldl [of "take (Suc k) xs" c] by (auto dest: in_set_takeD)

end

lemma rma_loop_Cons: "rma_loop c i (x # xs) =
    (if isFinite x
     then (case rma_loop (rma_step c x) (i + 1) xs of
             Inl e \<Rightarrow> Inl e | Inr out \<Rightarrow> Inr (reading (rma_Value (rma_step c x)) # out))
     else Inl (NonFiniteInput i x))"
  by (simp add: rma_Value_def reading_def Let_def split: sum.split)

lemma ewma_loop_Cons: "ewma_loop c i (x # xs) =
    (if isFinite x
     then (case ewma_loop (ewma_step c x) (i + 1) xs of
             Inl e \<Rightarrow> Inl e | Inr out \<Rightarrow> Inr (reading (ewma_Value (ewma_step c x)) # out))
     else Inl (NonFiniteInput i x))"
  by (simp add: ewma_Value_def reading_def Let_def split: sum.split)

lemma kalman_loop_Cons: "kalman_loop c i (z # zs) =
    (if isFinite z
     then (case kalman_loop (kalman_step c z) (i + 1) zs of
             Inl e \<Rightarrow> Inl e | Inr out \<Rightarrow> Inr (reading (kalman_Value (kalman_step c z)) # out))
     else Inl (NonFiniteInput i z))"
  by (simp add: kalman_Value_def reading_def Let_def split: sum.split)

interpretation rma: stream_core rma_step rma_Update rma_Value rma_loop
  by unfold_locales (simp, rule rma_loop_Cons, simp add: rma_Update_def)

interpretation ewma: stream_core ewma_step ewma_Update ewma_Value ewma_loop
  by unfold_locales (simp, rule ewma_loop_Cons, simp add: ewma_Update_def)

interpretation kalman: stream_core kalman_step kalman_Update kalman_Value kalman_loop
  by unfold_locales (simp, rule kalman_loop_Cons, simp add: kalman_Update_def)

section \<open>Saved states\<close>

text \<open>A run keeps the parameters of the core and counts the values.\<close>

lemma rma_run: "rmaN (foldl rma_step c xs) = rmaN c \<and> rmaCount (foldl rma_step c xs) = rmaCount c + int (length xs)"
  by (induction xs arbitrary: c) (auto simp: rma_step_def Let_def)

lemma ewma_run: "ewAlpha (foldl ewma_step c xs) = ewAlpha c \<and> ewWarm (foldl ewma_step c xs) = ewWarm c \<and>
    ewCount (foldl ewma_step c xs) = ewCount c + int (length xs)"
  by (induction xs arbitrary: c) (auto simp: ewma_step_def Let_def)

lemma kalman_run: "kalQ (foldl kalman_step c xs) = kalQ c \<and> kalR (foldl kalman_step c xs) = kalR c \<and>
    kalP0 (foldl kalman_step c xs) = kalP0 c \<and> kalCount (foldl kalman_step c xs) = kalCount c + int (length xs)"
  by (induction xs arbitrary: c) (auto simp: kalman_step_def Let_def)

lemma rma_resume:
  "c = foldl rma_step (newRMACore n) xs \<Longrightarrow> rma_SaveState c = Inr s \<Longrightarrow>
   rma_LoadState (Some s) (newRMACore n) = Inr c"
  using rma_run [of "newRMACore n" xs]
  by (auto simp: rma_SaveState_def rma_LoadState_def newRMACore_def split: if_splits)

lemma ewma_resume:
  "c = foldl ewma_step (newEWMACore lg a) xs \<Longrightarrow> ewma_SaveState c = Inr s \<Longrightarrow>
   ewma_LoadState (Some s) (newEWMACore lg a) = Inr c"
  using ewma_run [of "newEWMACore lg a" xs]
  by (auto simp: ewma_SaveState_def ewma_LoadState_def newEWMACore_def split: if_splits)

lemma kalman_resume:
  "c = foldl kalman_step (newKalmanCore q r) xs \<Longrightarrow> kalman_SaveState c = Inr s \<Longrightarrow>
   kalman_LoadState (Some s) (newKalmanCore q r) = Inr c"
  using kalman_run [of "newKalmanCore q r" xs]
  by (auto simp: kalman_SaveState_def kalman_LoadState_def newKalmanCore_def split: if_splits)

text \<open>
  C37: The three ways to run an indicator agree. Where the batch function accepts a series, feeding
  the first \<open>k + 1\<close> values to a new indicator succeeds at every value and its reading is entry \<open>k\<close> of
  the batch result; and when the state is saved at that point, a new indicator that loads it is the
  running one, so a resumed run goes on exactly as an uninterrupted one would. This is the
  consistency contract of \<open>pkg/indicator\<close>, here for all three indicators.
\<close>

theorem batch_stream_resume:
  "(\<forall>n out. RMABatch xs n = Inr out \<and> k < length xs \<longrightarrow>
      (\<exists>c0 c. NewRMA n = Inr c0 \<and> feed rma_Update (take (Suc k) xs) c0 = Inr c \<and> out ! k = reading (rma_Value c) \<and>
        (\<forall>s. rma_SaveState c = Inr s \<longrightarrow> rma_LoadState (Some s) c0 = Inr c))) \<and>
   (\<forall>a out. EWMABatch lg xs a = Inr out \<and> k < length xs \<longrightarrow>
      (\<exists>c0 c. NewEWMA lg a = Inr c0 \<and> feed ewma_Update (take (Suc k) xs) c0 = Inr c \<and> out ! k = reading (ewma_Value c) \<and>
        (\<forall>s. ewma_SaveState c = Inr s \<longrightarrow> ewma_LoadState (Some s) c0 = Inr c))) \<and>
   (\<forall>q r out. KalmanBatch xs q r = Inr out \<and> k < length xs \<longrightarrow>
      (\<exists>c0 c. NewKalman q r = Inr c0 \<and> feed kalman_Update (take (Suc k) xs) c0 = Inr c \<and> out ! k = reading (kalman_Value c) \<and>
        (\<forall>s. kalman_SaveState c = Inr s \<longrightarrow> kalman_LoadState (Some s) c0 = Inr c)))"
proof (intro conjI allI impI)
  fix n out assume "RMABatch xs n = Inr out \<and> k < length xs"
  then have b: "rma_loop (newRMACore n) 0 xs = Inr out" "k < length xs" and n: "NewRMA n = Inr (newRMACore n)"
    by (auto simp: RMABatch_def NewRMA_def split: if_splits)
  from rma.batch_is_stream [OF b] rma_resume n
  show "\<exists>c0 c. NewRMA n = Inr c0 \<and> feed rma_Update (take (Suc k) xs) c0 = Inr c \<and> out ! k = reading (rma_Value c) \<and>
        (\<forall>s. rma_SaveState c = Inr s \<longrightarrow> rma_LoadState (Some s) c0 = Inr c)" by blast
next
  fix a out assume "EWMABatch lg xs a = Inr out \<and> k < length xs"
  then have b: "ewma_loop (newEWMACore lg a) 0 xs = Inr out" "k < length xs" and n: "NewEWMA lg a = Inr (newEWMACore lg a)"
    by (auto simp: EWMABatch_def NewEWMA_def split: if_splits)
  from ewma.batch_is_stream [OF b] ewma_resume n
  show "\<exists>c0 c. NewEWMA lg a = Inr c0 \<and> feed ewma_Update (take (Suc k) xs) c0 = Inr c \<and> out ! k = reading (ewma_Value c) \<and>
        (\<forall>s. ewma_SaveState c = Inr s \<longrightarrow> ewma_LoadState (Some s) c0 = Inr c)" by blast
next
  fix q r out assume "KalmanBatch xs q r = Inr out \<and> k < length xs"
  then have b: "kalman_loop (newKalmanCore q r) 0 xs = Inr out" "k < length xs" and n: "NewKalman q r = Inr (newKalmanCore q r)"
    by (auto simp: KalmanBatch_def NewKalman_def split: if_splits)
  from kalman.batch_is_stream [OF b] kalman_resume n
  show "\<exists>c0 c. NewKalman q r = Inr c0 \<and> feed kalman_Update (take (Suc k) xs) c0 = Inr c \<and> out ! k = reading (kalman_Value c) \<and>
        (\<forall>s. kalman_SaveState c = Inr s \<longrightarrow> kalman_LoadState (Some s) c0 = Inr c)" by blast
qed

definition sample_series :: "f64 list" where
  "sample_series = [Fin 2, Fin 4]"

lemma sample_batches:
  "RMABatch sample_series 2 = Inr [NaN, Fin 3]"
  "EWMABatch (\<lambda>_. Fin (- 1)) sample_series (Fin (1 / 2)) = Inr [Fin 2, Fin 3]"
  "KalmanBatch sample_series (Fin 0) (Fin 1) = Inr [Fin 2, Fin 3]"
  by code_simp+

theorem batch_stream_resume_witness:
  "(\<exists>c0 c. NewRMA 2 = Inr c0 \<and> feed rma_Update sample_series c0 = Inr c \<and> reading (rma_Value c) = Fin 3) \<and>
   (\<exists>c0 c. NewEWMA (\<lambda>_. Fin (- 1)) (Fin (1 / 2)) = Inr c0 \<and> feed ewma_Update sample_series c0 = Inr c \<and>
     reading (ewma_Value c) = Fin 3) \<and>
   (\<exists>c0 c. NewKalman (Fin 0) (Fin 1) = Inr c0 \<and> feed kalman_Update sample_series c0 = Inr c \<and>
     reading (kalman_Value c) = Fin 3)"
proof -
  have s: "1 < length sample_series" "take (Suc 1) sample_series = sample_series"
    by (simp_all add: sample_series_def)
  note t = batch_stream_resume [of sample_series 1 "\<lambda>_. Fin (- 1)"]
  from t [THEN conjunct1, rule_format, OF conjI, OF sample_batches(1) s(1)]
    t [THEN conjunct2, THEN conjunct1, rule_format, OF conjI, OF sample_batches(2) s(1)]
    t [THEN conjunct2, THEN conjunct2, rule_format, OF conjI, OF sample_batches(3) s(1)]
  show ?thesis unfolding s(2) by fastforce
qed

text \<open>
  A smoothing factor so small that \<open>1 - alpha\<close> rounds to 1 needs the longest warm-up of all, and gets
  the shortest: the logarithm is 0, the quotient is minus infinity, and its conversion to \<open>int\<close> is
  below 1.
\<close>

lemma tiny_alpha_is_warm_at_once:
  assumes "lg (Fin 1) = Fin 0" and "flt (lg (rnd (1 / 1000000))) (Fin 0)" and "alpha = rnd (1 / 10 ^ 17)"
  shows "legal_alpha alpha \<and> ewmaWarmup lg alpha = 1"
proof -
  have a: "legal_alpha alpha" "\<not> fle (Fin 1) alpha" "fsub (Fin 1) alpha = Fin 1"
    unfolding assms(3) by code_simp+
  have "fdiv v (Fin 0) = NInf" if "flt v (Fin 0)" for v
    using that by (cases v) (auto simp: flt_def fdiv_def is_inf_def is_zero_def)
  with assms(1,2) a show ?thesis by (simp add: ewmaWarmup_def go_int_def)
qed

end
