(* ===== verification/Expr_Operators.thy ===== *)
theory Expr_Operators
  imports Indicator "HOL-Library.Multiset"
begin

text \<open>
  The operators of factor expressions (\<open>pkg/expression/operators.go\<close>) and the correlation they use
  (\<open>pkg/statistics/correlation.go\<close>). The time-series operators share the loop \<open>ts_window\<close>: entry \<open>i\<close>
  of the result is computed from the window that ends at entry \<open>i\<close>, newest value first, as the code
  visits it. \<open>sort.Slice\<close> is not stable, so the order it leaves among equal values is an argument.

  Two facts carry the properties of the evaluator: an entry depends on no later input (\<open>ts_window_take\<close>)
  and on no input before its window (\<open>ts_window_agree\<close>).
\<close>

section \<open>Statistics\<close>

definition Pearson :: "f64 list \<Rightarrow> f64 list \<Rightarrow> f64" where
  "Pearson x y =
     (if length x \<noteq> length y \<or> length x < 2 then NaN
      else let n = fint (int (length x));
               add = (\<lambda>f. foldl (\<lambda>s p. fadd s (f p)) (Fin 0) (zip x y));
               sumX = add fst; sumY = add snd;
               sumXY = add (\<lambda>(a, b). fmul a b);
               sumX2 = add (\<lambda>(a, b). fmul a a);
               sumY2 = add (\<lambda>(a, b). fmul b b);
               numerator = fsub (fmul n sumXY) (fmul sumX sumY);
               denominator = math_Sqrt (fmul (fsub (fmul n sumX2) (fmul sumX sumX))
                                             (fsub (fmul n sumY2) (fmul sumY sumY)))
           in if feq denominator (Fin 0) then NaN else fdiv numerator denominator)"

section \<open>Time-series operators\<close>

definition window_at :: "'a list \<Rightarrow> nat \<Rightarrow> nat \<Rightarrow> 'a list" where
  "window_at xs i w = map (\<lambda>j. xs ! (i - j)) [0..<w]"

definition ts_window :: "(f64 list \<Rightarrow> f64) \<Rightarrow> f64 list \<Rightarrow> int \<Rightarrow> f64 list" where
  "ts_window f xs window =
     (if window \<le> 0 \<or> xs = [] then []
      else map (\<lambda>i. if int i < window - 1 then NaN else f (window_at xs i (nat window))) [0..<length xs])"

definition sum_count :: "f64 list \<Rightarrow> f64 \<times> int" where
  "sum_count vs = foldl (\<lambda>(s, n) v. if v = NaN then (s, n) else (fadd s v, n + 1)) (Fin 0, 0) vs"

definition window_mean :: "f64 list \<Rightarrow> f64" where
  "window_mean vs = (let (s, count) = sum_count vs in if 0 < count then fdiv s (fint count) else NaN)"

definition tsMean :: "f64 list \<Rightarrow> int \<Rightarrow> f64 list" where
  "tsMean = ts_window window_mean"

definition window_std :: "f64 list \<Rightarrow> f64" where
  "window_std vs =
     (let mean = tsMean (rev vs) (int (length vs)) ! (length vs - 1)
      in if mean = NaN then NaN
         else let (sumSq, count) =
                    foldl (\<lambda>(s, n) v. if v = NaN then (s, n)
                             else (fadd s (fmul (fsub v mean) (fsub v mean)), n + 1)) (Fin 0, 0) vs
              in if (1 :: int) < count then math_Sqrt (fdiv sumSq (fint (count - 1))) else NaN)"

definition tsStd :: "f64 list \<Rightarrow> int \<Rightarrow> f64 list" where
  "tsStd = ts_window window_std"

definition tsSum :: "f64 list \<Rightarrow> int \<Rightarrow> f64 list" where
  "tsSum = ts_window (\<lambda>vs. fst (sum_count vs))"

definition tsMax :: "f64 list \<Rightarrow> int \<Rightarrow> f64 list" where
  "tsMax = ts_window (\<lambda>vs. foldl (\<lambda>m v. if v \<noteq> NaN \<and> flt m v then v else m) (hd vs) (tl vs))"

definition tsMin :: "f64 list \<Rightarrow> int \<Rightarrow> f64 list" where
  "tsMin = ts_window (\<lambda>vs. foldl (\<lambda>m v. if v \<noteq> NaN \<and> flt v m then v else m) (hd vs) (tl vs))"

definition window_rank :: "f64 list \<Rightarrow> f64" where
  "window_rank vs =
     (let windowVals = filter (\<lambda>v. v \<noteq> NaN) vs;
          rnk = length (filter (\<lambda>v. flt v (hd vs)) windowVals)
      in if windowVals = [] then NaN else fdiv (fint (int rnk)) (fint (int (length windowVals) - 1)))"

definition tsRank :: "f64 list \<Rightarrow> int \<Rightarrow> f64 list" where
  "tsRank = ts_window window_rank"

text \<open>The lags: entry \<open>i\<close> from the values \<open>i\<close> and \<open>i - periods\<close>.\<close>

definition ts_lag :: "(f64 \<Rightarrow> f64 \<Rightarrow> f64) \<Rightarrow> f64 list \<Rightarrow> int \<Rightarrow> f64 list" where
  "ts_lag f xs periods =
     (if periods \<le> 0 \<or> xs = [] then []
      else map (\<lambda>i. if int i < periods then NaN else f (xs ! i) (xs ! (i - nat periods))) [0..<length xs])"

definition tsDelay :: "f64 list \<Rightarrow> int \<Rightarrow> f64 list" where
  "tsDelay = ts_lag (\<lambda>cur prev. prev)"

definition tsDelta :: "f64 list \<Rightarrow> int \<Rightarrow> f64 list" where
  "tsDelta = ts_lag (\<lambda>cur prev. fsub cur prev)"

definition tsPctChange :: "f64 list \<Rightarrow> int \<Rightarrow> f64 list" where
  "tsPctChange = ts_lag (\<lambda>cur prev. if feq prev (Fin 0) then NaN else fdiv (fsub cur prev) prev)"

definition window_corr :: "(f64 \<times> f64) list \<Rightarrow> f64" where
  "window_corr ps =
     (let valid = filter (\<lambda>(a, b). a \<noteq> NaN \<and> b \<noteq> NaN) ps
      in if length valid < 2 then NaN else Pearson (map fst valid) (map snd valid))"

definition tsCorr :: "f64 list \<Rightarrow> f64 list \<Rightarrow> int \<Rightarrow> f64 list" where
  "tsCorr xs ys window =
     (if window \<le> 0 \<or> xs = [] \<or> ys = [] \<or> length xs \<noteq> length ys then []
      else map (\<lambda>i. if int i < window - 1 then NaN else window_corr (window_at (zip xs ys) i (nat window)))
             [0..<length xs])"

section \<open>Cross-sectional operators\<close>

text \<open>\<open>srt\<close> is the order \<open>sort.Slice\<close> leaves the pairs of an index and its value in.\<close>

definition valid_pairs :: "f64 list \<Rightarrow> (nat \<times> f64) list" where
  "valid_pairs vs = filter (\<lambda>(i, v). v \<noteq> NaN) (enumerate 0 vs)"

definition csRank :: "((nat \<times> f64) list \<Rightarrow> (nat \<times> f64) list) \<Rightarrow> f64 list \<Rightarrow> f64 list" where
  "csRank srt vs =
     (let pairs = srt (valid_pairs vs)
      in foldl (\<lambda>result (rnk, (idx, v)). result[idx := fdiv (fint (int rnk)) (fint (int (length pairs) - 1))])
           (replicate (length vs) NaN) (enumerate 0 pairs))"

definition csZScore :: "f64 list \<Rightarrow> f64 list" where
  "csZScore vs =
     (let (s, count) = sum_count vs
      in if count = 0 then replicate (length vs) NaN
         else let mean = fdiv s (fint count);
                  sumSq = foldl (\<lambda>q v. if v = NaN then q else fadd q (fmul (fsub v mean) (fsub v mean))) (Fin 0) vs;
                  std = math_Sqrt (fdiv sumSq (fint count))
              in map (\<lambda>v. if v = NaN \<or> feq std (Fin 0) then NaN else fdiv (fsub v mean) std) vs)"

definition csPercentile :: "f64 list \<Rightarrow> f64 list" where
  "csPercentile vs =
     (let valid = filter (\<lambda>v. v \<noteq> NaN) vs
      in map (\<lambda>v. if v = NaN then NaN
                  else fdiv (fint (int (length (filter (\<lambda>u. fle u v) valid)))) (fint (int (length valid)))) vs)"

definition globalDemean :: "f64 list \<Rightarrow> f64 list" where
  "globalDemean vs =
     (let (s, count) = sum_count vs
      in if count = 0 then replicate (length vs) NaN
         else let mean = fdiv s (fint count) in map (\<lambda>v. if v = NaN then NaN else fsub v mean) vs)"

text \<open>
  The running sum and count of a group. The labels are keys of a Go map: the two zeros are one key,
  and an entry stored under a NaN is never found again.
\<close>

definition group_stat :: "f64 list \<Rightarrow> f64 list \<Rightarrow> f64 \<Rightarrow> f64 \<times> int" where
  "group_stat vs grp g = sum_count (map fst (filter (\<lambda>(v, h). feq h g) (zip vs grp)))"

definition csNeutralize :: "f64 list \<Rightarrow> f64 list option \<Rightarrow> f64 list" where
  "csNeutralize vs grp_opt =
     (case grp_opt of
        None \<Rightarrow> globalDemean vs
      | Some grp \<Rightarrow>
          if length grp \<noteq> length vs then globalDemean vs
          else map (\<lambda>(v, g). if v = NaN then NaN
                       else let (s, count) = group_stat vs grp g
                            in if count = 0 then NaN else fsub v (fdiv s (fint count))) (zip vs grp))"

section \<open>No later input\<close>

lemma take_map_upt: "take k (map f [0..<n]) = map f [0..<min n k]"
  by (cases "k \<le> n") (auto simp: take_map min_def)

lemma window_at_take: "i < k \<Longrightarrow> window_at (take k xs) i w = window_at xs i w"
  by (auto simp: window_at_def)

lemma ts_window_take: "ts_window f (take k xs) w = take k (ts_window f xs w)"
  by (cases "k = 0") (auto simp: ts_window_def take_map_upt window_at_take)

lemma ts_lag_take: "ts_lag f (take k xs) p = take k (ts_lag f xs p)"
  by (cases "k = 0") (auto simp: ts_lag_def take_map_upt)

lemma tsCorr_take: "length xs = length ys \<Longrightarrow> tsCorr (take k xs) (take k ys) w = take k (tsCorr xs ys w)"
  by (cases "k = 0") (auto simp: tsCorr_def take_map_upt window_at_take simp flip: take_zip)

lemma RMABatch_take: "RMABatch xs n = Inr out \<Longrightarrow> RMABatch (take k xs) n = Inr (take k out)"
  by (auto simp: RMABatch_def rma.loop_take split: if_splits)

lemma EWMABatch_take: "EWMABatch lg xs a = Inr out \<Longrightarrow> EWMABatch lg (take k xs) a = Inr (take k out)"
  by (auto simp: EWMABatch_def ewma.loop_take split: if_splits)

lemma KalmanBatch_take: "KalmanBatch xs q r = Inr out \<Longrightarrow> KalmanBatch (take k xs) q r = Inr (take k out)"
  by (auto simp: KalmanBatch_def kalman.loop_take split: if_splits)

section \<open>No input before the window\<close>

text \<open>Two series of one length that agree on their last \<open>m\<close> entries.\<close>

definition agree :: "nat \<Rightarrow> 'a list \<Rightarrow> 'a list \<Rightarrow> bool" where
  "agree m xs ys \<longleftrightarrow> length xs = length ys \<and> (\<forall>i < length xs. length xs \<le> i + m \<longrightarrow> xs ! i = ys ! i)"

lemma agree_refl [simp]: "agree m xs xs"
  by (simp add: agree_def)

lemma agree_mono: "agree n xs ys \<Longrightarrow> m \<le> n \<Longrightarrow> agree m xs ys"
  by (auto simp: agree_def)

lemma agree_map: "agree m xs ys \<Longrightarrow> agree m (map f xs) (map f ys)"
  by (simp add: agree_def)

lemma agree_last: "agree (Suc m) xs ys \<Longrightarrow> xs \<noteq> [] \<Longrightarrow> last xs = last ys"
proof -
  assume a: "agree (Suc m) xs ys" and n: "xs \<noteq> []"
  then have "ys \<noteq> []" by (auto simp: agree_def)
  with a n show ?thesis by (auto simp: agree_def last_conv_nth)
qed

lemma agree_zip: "agree m xs ys \<Longrightarrow> agree m us vs \<Longrightarrow> length xs = length us \<Longrightarrow> agree m (zip xs us) (zip ys vs)"
  by (simp add: agree_def)

lemma window_at_agree:
  assumes "agree (m + w) xs ys" "i < length xs" "length xs \<le> i + m" "j \<le> w"
  shows "xs ! (i - j) = ys ! (i - j)"
  using assms by (auto simp: agree_def)

lemma ts_window_agree:
  assumes "agree (m + nat (w - 1)) xs ys"
  shows "agree m (ts_window f xs w) (ts_window f ys w)"
proof -
  have l: "length xs = length ys" "xs = [] \<longleftrightarrow> ys = []" using assms by (auto simp: agree_def)
  have "window_at xs i (nat w) = window_at ys i (nat w)" if "i < length xs" "length xs \<le> i + m" for i
    using window_at_agree [OF assms that] by (auto simp: window_at_def)
  with l show ?thesis by (auto simp: agree_def ts_window_def)
qed

lemma ts_lag_agree:
  assumes "agree (m + nat p) xs ys"
  shows "agree m (ts_lag f xs p) (ts_lag f ys p)"
proof -
  have l: "length xs = length ys" "xs = [] \<longleftrightarrow> ys = []" using assms by (auto simp: agree_def)
  have "xs ! (i - j) = ys ! (i - j)" if "i < length xs" "length xs \<le> i + m" "j \<le> nat p" for i j
    using window_at_agree [OF assms that] .
  from this [of _ 0] this [of _ "nat p"] l show ?thesis by (auto simp: agree_def ts_lag_def)
qed

lemma tsCorr_agree:
  assumes "agree (m + nat (w - 1)) xs ys" "agree (m + nat (w - 1)) us vs"
  shows "agree m (tsCorr xs us w) (tsCorr ys vs w)"
proof (cases "length xs = length us")
  case True
  have l: "length ys = length vs" "length us = length vs" "xs = [] \<longleftrightarrow> ys = []" "us = [] \<longleftrightarrow> vs = []"
    using True assms by (auto simp: agree_def)
  have "window_at (zip xs us) i (nat w) = window_at (zip ys vs) i (nat w)" if "i < length us" "length us \<le> i + m" for i
    using window_at_agree [OF agree_zip [OF assms True], of i] that True by (auto simp: window_at_def)
  with l True show ?thesis by (auto simp: agree_def tsCorr_def)
next
  case False
  then have "length ys \<noteq> length vs" using assms by (auto simp: agree_def)
  with False show ?thesis by (simp add: tsCorr_def)
qed

section \<open>Ranks\<close>

text \<open>What \<open>sort.Slice\<close> promises: the pairs in an order in which no value is below an earlier one.\<close>

definition sorts_pairs :: "((nat \<times> f64) list \<Rightarrow> (nat \<times> f64) list) \<Rightarrow> bool" where
  "sorts_pairs srt \<longleftrightarrow>
     (\<forall>ps. mset (srt ps) = mset ps \<and> sorted_wrt (\<lambda>p q. \<not> flt (snd q) (snd p)) (srt ps))"

fun put_rank :: "(nat \<Rightarrow> f64) \<Rightarrow> f64 list \<Rightarrow> nat \<times> nat \<times> f64 \<Rightarrow> f64 list" where
  "put_rank g result (rnk, idx, v) = result[idx := g rnk]"

lemma length_put_ranks [simp]: "length (foldl (put_rank g) result qs) = length result"
  by (induction qs arbitrary: result) (auto split: prod.split)

lemma put_ranks_other: "x \<notin> fst ` set ps \<Longrightarrow> foldl (put_rank g) result (enumerate k ps) ! x = result ! x"
  by (induction ps arbitrary: result k) (auto simp: nth_list_update)

lemma put_ranks_nth:
  "distinct (map fst ps) \<Longrightarrow> j < length ps \<Longrightarrow> fst (ps ! j) < length result \<Longrightarrow>
   foldl (put_rank g) result (enumerate k ps) ! fst (ps ! j) = g (k + j)"
proof (induction ps arbitrary: result k j)
  case (Cons p ps)
  show ?case
  proof (cases j)
    case 0
    with Cons.prems show ?thesis
      by (cases p) (auto simp: put_ranks_other)
  next
    case (Suc i)
    with Cons.prems show ?thesis
      using Cons.IH [of i "put_rank g result (k, p)" "Suc k"]
      by (cases p) auto
  qed
qed simp

lemma csRank_put: "csRank srt vs =
    foldl (put_rank (\<lambda>rnk. fdiv (fint (int rnk)) (fint (int (length (srt (valid_pairs vs))) - 1))))
      (replicate (length vs) NaN) (enumerate 0 (srt (valid_pairs vs)))"
proof -
  have "(\<lambda>result (rnk, (idx, v)). result[idx := g rnk]) = put_rank g" for g
    by (auto simp: fun_eq_iff)
  then show ?thesis by (simp add: csRank_def Let_def)
qed

lemma set_valid_pairs: "set (valid_pairs vs) = {(i, vs ! i) |i. i < length vs \<and> vs ! i \<noteq> NaN}"
  by (force simp: valid_pairs_def in_set_enumerate_eq)

lemma distinct_valid_pairs: "distinct (map fst (valid_pairs vs))"
proof -
  have "distinct (map fst (enumerate 0 vs))" by simp
  then show ?thesis unfolding valid_pairs_def by (metis distinct_map_filter)
qed

lemma csRank_nth:
  assumes srt: "sorts_pairs srt" and i: "i < length vs" "vs ! i \<noteq> NaN"
  obtains j where "j < length (srt (valid_pairs vs))" "srt (valid_pairs vs) ! j = (i, vs ! i)"
    "csRank srt vs ! i = fdiv (fint (int j)) (fint (int (length (valid_pairs vs)) - 1))"
proof -
  let ?ps = "srt (valid_pairs vs)"
  from srt have m: "mset ?ps = mset (valid_pairs vs)" by (simp add: sorts_pairs_def)
  then have st: "set ?ps = set (valid_pairs vs)" and l: "length ?ps = length (valid_pairs vs)"
    by (metis set_mset_mset, metis size_mset)
  have "distinct (map fst ?ps)"
    using m distinct_valid_pairs [of vs] by (metis mset_map mset_eq_imp_distinct_iff)
  moreover have "(i, vs ! i) \<in> set ?ps" using i st by (auto simp: set_valid_pairs)
  then obtain j where j: "j < length ?ps" "?ps ! j = (i, vs ! i)" unfolding in_set_conv_nth by blast
  ultimately have "csRank srt vs ! i = fdiv (fint (int j)) (fint (int (length ?ps) - 1))"
    using put_ranks_nth [of ?ps j "replicate (length vs) NaN" _ 0] i unfolding csRank_put by simp
  with that j l show ?thesis by simp
qed

lemma csRank_invalid:
  assumes "sorts_pairs srt" "i < length vs" "vs ! i = NaN"
  shows "csRank srt vs ! i = NaN"
proof -
  have "set (srt (valid_pairs vs)) = set (valid_pairs vs)"
    using assms(1) unfolding sorts_pairs_def by (metis set_mset_mset)
  then have "i \<notin> fst ` set (srt (valid_pairs vs))" using assms(3) by (auto simp: set_valid_pairs)
  then show ?thesis using assms(2) by (simp add: csRank_put put_ranks_other)
qed

text \<open>
  A smaller value never gets a larger rank, whatever order the sort leaves among equal values.
\<close>

lemma csRank_mono:
  assumes srt: "sorts_pairs srt" and n: "1 < length (valid_pairs vs)" "length (valid_pairs vs) \<le> 2 ^ 53"
    and i: "i < length vs" "vs ! i \<noteq> NaN" and j: "j < length vs" "vs ! j \<noteq> NaN"
    and less: "flt (vs ! i) (vs ! j)"
  shows "fle (csRank srt vs ! i) (csRank srt vs ! j)"
proof -
  let ?ps = "srt (valid_pairs vs)"
  obtain a where a: "a < length ?ps" "?ps ! a = (i, vs ! i)"
      "csRank srt vs ! i = fdiv (fint (int a)) (fint (int (length (valid_pairs vs)) - 1))"
    by (rule csRank_nth [OF srt i])
  obtain b where b: "b < length ?ps" "?ps ! b = (j, vs ! j)"
      "csRank srt vs ! j = fdiv (fint (int b)) (fint (int (length (valid_pairs vs)) - 1))"
    by (rule csRank_nth [OF srt j])
  have s: "sorted_wrt (\<lambda>p q. \<not> flt (snd q) (snd p)) ?ps" and l: "length ?ps = length (valid_pairs vs)"
    using srt unfolding sorts_pairs_def by (blast, metis size_mset)
  have "\<not> b < a" using sorted_wrt_nth_less [OF s, of b a] a(1,2) b(2) less by auto
  then have "a \<le> b" by simp
  moreover have "int b \<le> 2 ^ 53" "0 \<le> int a" using b(1) l n(2) by auto
  ultimately show ?thesis
    unfolding a(3) b(3) using n l
    by (intro fdiv_mono) (auto simp: fint_exact fle_fin flt_fin)
qed

text \<open>
  The operators differ in what they do with a missing current value: the maximum is missing, the mean
  is that of the other values, and the rank is the lowest.
\<close>

lemma missing_current_value:
  "tsMax [Fin 1, Fin 2, NaN] 3 ! 2 = NaN"
  "tsMean [Fin 1, Fin 3, NaN] 3 ! 2 = Fin 2"
  "tsRank [Fin 1, Fin 2, NaN] 3 ! 2 = Fin 0"
  by code_simp+

end
