(* ===== verification/Expr_Registry.thy ===== *)
theory Expr_Registry
  imports Expr_Syntax Expr_Operators
begin

text \<open>
  The registry of operators and data fields (\<open>pkg/expression/registry.go\<close>), the gate that validates a
  syntax tree against it, and the static derivation of warm-up and lookback (\<open>derive.go\<close>). The
  registry is the table of the source: a name with its category, its number of arguments, the
  arguments that must be constants, the contributions to warm-up and lookback, and the function that
  evaluates it. The metadata of \<open>OperatorSpec\<close> that only documents (signature, initialisation rule,
  NaN policy) is left out.

  The transcendental functions and the order \<open>sort.Slice\<close> leaves among equal values are the fields of
  \<open>MathLib\<close>, an argument wherever they are called.
\<close>

section \<open>The operator table\<close>

record MathLib =
  libLog :: "f64 \<Rightarrow> f64"
  libExp :: "f64 \<Rightarrow> f64"
  libPow :: "f64 \<Rightarrow> f64 \<Rightarrow> f64"
  libSort :: "(nat \<times> f64) list \<Rightarrow> (nat \<times> f64) list"

datatype OpCategory = CatTimeSeries | CatCrossSectional | CatUnary | CatBinary

record OperatorDef =
  odCategory :: OpCategory
  odArity :: nat
  odState :: bool
  odScalarParams :: "nat list"
  odSelfWarmup :: "(MathLib \<Rightarrow> Node list \<Rightarrow> int) option"
  odSelfLookback :: "(Node list \<Rightarrow> int) option"
  odTsEval :: "(MathLib \<Rightarrow> f64 list list \<Rightarrow> indicator_error + f64 list) option"
  odCsEval :: "(MathLib \<Rightarrow> f64 list \<Rightarrow> f64 list option \<Rightarrow> f64 list) option"

definition literalFloatAt :: "Node list \<Rightarrow> nat \<Rightarrow> f64 option" where
  "literalFloatAt args idx =
     (if idx < length args then (case args ! idx of LiteralNode v \<Rightarrow> Some v | _ \<Rightarrow> None) else None)"

definition literalIntAt :: "Node list \<Rightarrow> nat \<Rightarrow> int option" where
  "literalIntAt args idx = map_option go_int (literalFloatAt args idx)"

definition windowSelfWarmupAt :: "Node list \<Rightarrow> nat \<Rightarrow> int" where
  "windowSelfWarmupAt args idx = (case literalIntAt args idx of None \<Rightarrow> 0 | Some n \<Rightarrow> if n < 1 then 0 else n - 1)"

definition windowSelfLookbackAt :: "Node list \<Rightarrow> nat \<Rightarrow> int" where
  "windowSelfLookbackAt args idx = (case literalIntAt args idx of None \<Rightarrow> 0 | Some n \<Rightarrow> if n < 1 then 0 else n - 1)"

definition periodSelfAt :: "Node list \<Rightarrow> nat \<Rightarrow> int" where
  "periodSelfAt args idx = (case literalIntAt args idx of None \<Rightarrow> 0 | Some d \<Rightarrow> if d < 0 then 0 else d)"

definition rmaSelfWarmup :: "MathLib \<Rightarrow> Node list \<Rightarrow> int" where
  "rmaSelfWarmup lib args =
     (case literalIntAt args 1 of
        None \<Rightarrow> 0
      | Some n \<Rightarrow> (case NewRMA n of Inl _ \<Rightarrow> 0 | Inr c \<Rightarrow> rma_Warmup c))"

definition ewmaSelfWarmup :: "MathLib \<Rightarrow> Node list \<Rightarrow> int" where
  "ewmaSelfWarmup lib args =
     (case literalFloatAt args 1 of
        None \<Rightarrow> 0
      | Some alpha \<Rightarrow> (case NewEWMA (libLog lib) alpha of Inl _ \<Rightarrow> 0 | Inr c \<Rightarrow> ewma_Warmup c))"

definition kalmanSelfWarmup :: "MathLib \<Rightarrow> Node list \<Rightarrow> int" where
  "kalmanSelfWarmup lib args = (case NewKalman (Fin 0) (Fin 1) of Inl _ \<Rightarrow> 0 | Inr c \<Rightarrow> kalman_Warmup c)"

definition stateSelfLookback :: "Node list \<Rightarrow> int" where
  "stateSelfLookback args = 0"

text \<open>The first value of a scalar argument.\<close>

definition firstScalar :: "f64 list \<Rightarrow> f64" where
  "firstScalar xs = (case xs of [] \<Rightarrow> NaN | x # _ \<Rightarrow> x)"

text \<open>The entries that share a shape: a window, a lag, a recursion, and the three other categories.\<close>

definition windowOp :: "(f64 list \<Rightarrow> int \<Rightarrow> f64 list) \<Rightarrow> OperatorDef" where
  "windowOp f =
     \<lparr>odCategory = CatTimeSeries, odArity = 2, odState = False, odScalarParams = [1],
      odSelfWarmup = Some (\<lambda>_ args. windowSelfWarmupAt args 1),
      odSelfLookback = Some (\<lambda>args. windowSelfLookbackAt args 1),
      odTsEval = Some (\<lambda>_ args. Inr (f (args ! 0) (go_int (firstScalar (args ! 1))))), odCsEval = None\<rparr>"

definition lagOp :: "(f64 list \<Rightarrow> int \<Rightarrow> f64 list) \<Rightarrow> OperatorDef" where
  "lagOp f =
     \<lparr>odCategory = CatTimeSeries, odArity = 2, odState = False, odScalarParams = [1],
      odSelfWarmup = Some (\<lambda>_ args. periodSelfAt args 1), odSelfLookback = Some (\<lambda>args. periodSelfAt args 1),
      odTsEval = Some (\<lambda>_ args. Inr (f (args ! 0) (go_int (firstScalar (args ! 1))))), odCsEval = None\<rparr>"

definition corrOp :: OperatorDef where
  "corrOp =
     \<lparr>odCategory = CatTimeSeries, odArity = 3, odState = False, odScalarParams = [2],
      odSelfWarmup = Some (\<lambda>_ args. windowSelfWarmupAt args 2),
      odSelfLookback = Some (\<lambda>args. windowSelfLookbackAt args 2),
      odTsEval = Some (\<lambda>_ args. Inr (tsCorr (args ! 0) (args ! 1) (go_int (firstScalar (args ! 2))))),
      odCsEval = None\<rparr>"

definition recursiveOp ::
    "nat list \<Rightarrow> (MathLib \<Rightarrow> Node list \<Rightarrow> int) \<Rightarrow> (MathLib \<Rightarrow> f64 list list \<Rightarrow> indicator_error + f64 list) \<Rightarrow>
     OperatorDef" where
  "recursiveOp scalars warm f =
     \<lparr>odCategory = CatTimeSeries, odArity = Suc (length scalars), odState = True, odScalarParams = scalars,
      odSelfWarmup = Some warm, odSelfLookback = Some stateSelfLookback, odTsEval = Some f, odCsEval = None\<rparr>"

definition crossOp :: "nat \<Rightarrow> (MathLib \<Rightarrow> f64 list \<Rightarrow> f64 list option \<Rightarrow> f64 list) \<Rightarrow> OperatorDef" where
  "crossOp arity f =
     \<lparr>odCategory = CatCrossSectional, odArity = arity, odState = False, odScalarParams = [],
      odSelfWarmup = None, odSelfLookback = None, odTsEval = None, odCsEval = Some f\<rparr>"

definition unaryDef :: OperatorDef where
  "unaryDef =
     \<lparr>odCategory = CatUnary, odArity = 1, odState = False, odScalarParams = [],
      odSelfWarmup = None, odSelfLookback = None, odTsEval = None, odCsEval = None\<rparr>"

definition binaryDef :: OperatorDef where
  "binaryDef =
     \<lparr>odCategory = CatBinary, odArity = 2, odState = False, odScalarParams = [],
      odSelfWarmup = None, odSelfLookback = None, odTsEval = None, odCsEval = None\<rparr>"

definition operatorRegistry :: "(string \<times> OperatorDef) list" where
  "operatorRegistry =
     [(''ts_mean'', windowOp tsMean), (''ts_std'', windowOp tsStd), (''ts_sum'', windowOp tsSum),
      (''ts_max'', windowOp tsMax), (''ts_min'', windowOp tsMin), (''ts_delay'', lagOp tsDelay),
      (''ts_delta'', lagOp tsDelta), (''ts_pct_change'', lagOp tsPctChange), (''ts_corr'', corrOp),
      (''ts_rank'', windowOp tsRank),
      (''ts_rma'', recursiveOp [1] rmaSelfWarmup
         (\<lambda>_ args. RMABatch (args ! 0) (go_int (firstScalar (args ! 1))))),
      (''ts_ewma'', recursiveOp [1] ewmaSelfWarmup
         (\<lambda>lib args. EWMABatch (libLog lib) (args ! 0) (firstScalar (args ! 1)))),
      (''ts_kalman'', recursiveOp [1, 2] kalmanSelfWarmup
         (\<lambda>_ args. KalmanBatch (args ! 0) (firstScalar (args ! 1)) (firstScalar (args ! 2)))),
      (''cs_rank'', crossOp 1 (\<lambda>lib vs _. csRank (libSort lib) vs)),
      (''cs_zscore'', crossOp 1 (\<lambda>_ vs _. csZScore vs)),
      (''cs_percentile'', crossOp 1 (\<lambda>_ vs _. csPercentile vs)),
      (''cs_neutralize'', crossOp 2 (\<lambda>_ vs grp. csNeutralize vs grp)),
      (''neg'', unaryDef), (''abs'', unaryDef), (''log'', unaryDef), (''sqrt'', unaryDef),
      (''sign'', unaryDef), (''exp'', unaryDef), (''NOT'', unaryDef),
      (''+'', binaryDef), (''-'', binaryDef), (''*'', binaryDef), (''/'', binaryDef), (''^'', binaryDef),
      (''>'', binaryDef), (''<'', binaryDef), (''=='', binaryDef), (''>='', binaryDef), (''<='', binaryDef),
      (''AND'', binaryDef), (''OR'', binaryDef)]"

definition operatorDef :: "string \<Rightarrow> OperatorDef option" where
  "operatorDef name = map_of operatorRegistry name"

definition OperatorCategory :: "string \<Rightarrow> OpCategory option" where
  "OperatorCategory name = map_option odCategory (operatorDef name)"

definition OperatorArity :: "string \<Rightarrow> nat" where
  "OperatorArity name = (case operatorDef name of None \<Rightarrow> 0 | Some d \<Rightarrow> odArity d)"

definition IsTimeSeriesOp :: "string \<Rightarrow> bool" where
  "IsTimeSeriesOp name \<longleftrightarrow> OperatorCategory name = Some CatTimeSeries"

definition IsCrossSectionalOp :: "string \<Rightarrow> bool" where
  "IsCrossSectionalOp name \<longleftrightarrow> OperatorCategory name = Some CatCrossSectional"

definition IsMathOp :: "string \<Rightarrow> bool" where
  "IsMathOp name \<longleftrightarrow> OperatorCategory name = Some CatUnary"

definition AvailableOperators :: "string list" where
  "AvailableOperators = sort (map fst operatorRegistry)"

section \<open>The data fields\<close>

datatype FieldSource = FieldSourceMarket | FieldSourceFundamentals | FieldSourceActivity | FieldSourceGroup

record FieldDef =
  fdSource :: FieldSource
  fdDependsOn :: string

definition fieldRegistry :: "(string \<times> FieldDef) list" where
  "fieldRegistry =
     (let fd = (\<lambda>src tbl name. (name, \<lparr>fdSource = src, fdDependsOn = tbl\<rparr>))
      in map (fd FieldSourceMarket ''ohlcv_daily_qfq'')
           [''open'', ''high'', ''low'', ''close'', ''volume'', ''turnover''] @
         map (fd FieldSourceFundamentals ''stock_fundamentals'')
           [''pe'', ''pb'', ''ps'', ''roe'', ''roa'', ''revenue'', ''profit''] @
         map (fd FieldSourceActivity ''market_activity'') [''turnover_rate'', ''turnover_rate_f'', ''volume_ratio''] @
         [fd FieldSourceGroup ''stock_sector_map'' ''sector''])"

definition IsDataField :: "string \<Rightarrow> bool" where
  "IsDataField name \<longleftrightarrow> map_of fieldRegistry name \<noteq> None"

definition fields_where :: "(FieldDef \<Rightarrow> bool) \<Rightarrow> string list" where
  "fields_where P = sort (map fst (filter (P \<circ> snd) fieldRegistry))"

definition AvailableFields :: "string list" where
  "AvailableFields = fields_where (\<lambda>_. True)"

definition AvailableFieldsInSource :: "FieldSource \<Rightarrow> string list" where
  "AvailableFieldsInSource src = fields_where (\<lambda>d. fdSource d = src)"

definition AvailableDataFields :: "string list" where
  "AvailableDataFields = fields_where (\<lambda>d. fdSource d \<noteq> FieldSourceGroup)"

definition FieldSourceOf :: "string \<Rightarrow> FieldSource option" where
  "FieldSourceOf name = map_option fdSource (map_of fieldRegistry name)"

definition FieldsDependingOn :: "string \<Rightarrow> string list" where
  "FieldsDependingOn tbl = fields_where (\<lambda>d. fdDependsOn d = tbl)"

definition AvailableDataFieldsWith :: "bool dict option \<Rightarrow> string list" where
  "AvailableDataFieldsWith avail =
     (case avail of
        None \<Rightarrow> AvailableDataFields
      | Some m \<Rightarrow> filter (\<lambda>f. fmlookup m f = Some True) AvailableDataFields)"

text \<open>
  \<open>FieldAvailability\<close> visits the registry in the random order of a Go map, \<open>order\<close>, and asks for each
  table once; an error of the probe is the result of the whole call.
\<close>

fun availability_loop :: "(string \<Rightarrow> 'e + bool) \<Rightarrow> (string \<times> FieldDef) list \<Rightarrow> bool dict \<Rightarrow> bool dict \<Rightarrow> 'e + bool dict" where
  "availability_loop probe [] tableOK out = Inr out"
| "availability_loop probe ((field, d) # order) tableOK out =
     (if fdDependsOn d = [] then availability_loop probe order tableOK (fmupd field True out)
      else case fmlookup tableOK (fdDependsOn d) of
             Some ok \<Rightarrow> availability_loop probe order tableOK (fmupd field ok out)
           | None \<Rightarrow>
               (case probe (fdDependsOn d) of
                  Inl e \<Rightarrow> Inl e
                | Inr ok \<Rightarrow>
                    availability_loop probe order (fmupd (fdDependsOn d) ok tableOK) (fmupd field ok out)))"

definition FieldAvailability :: "(string \<Rightarrow> 'e + bool) \<Rightarrow> (string \<times> FieldDef) list \<Rightarrow> 'e + bool dict" where
  "FieldAvailability probe order = availability_loop probe order fmempty fmempty"

text \<open>The fields that an error message offers, by source.\<close>

definition fieldsBySource :: "(FieldSource \<times> string list) list" where
  "fieldsBySource =
     filter (\<lambda>(_, fields). fields \<noteq> [])
       (map (\<lambda>src. (src, AvailableFieldsInSource src)) [FieldSourceMarket, FieldSourceFundamentals, FieldSourceGroup])"

section \<open>The gate\<close>

fun isConstantExpr :: "Node \<Rightarrow> bool" where
  "isConstantExpr (LiteralNode v) = True"
| "isConstantExpr (UnaryOpNode oper x) = isConstantExpr x"
| "isConstantExpr (BinaryOpNode oper l r) = (isConstantExpr l \<and> isConstantExpr r)"
| "isConstantExpr (FunctionNode name args) = (IsMathOp name \<and> list_all isConstantExpr args)"
| "isConstantExpr _ = False"

datatype validate_error =
    UnknownField string string
  | UnknownUnary string string
  | UnknownBinary string string
  | UnknownFunction string string
  | UnknownCrossSectional string string
  | WrongArity string string nat nat
  | ScalarParamsOutOfRange string string nat
  | NotScalar string string nat

text \<open>The first scalar position that the registry misdeclares or the call fills with a series.\<close>

fun check_scalars :: "string \<Rightarrow> string \<Rightarrow> Node list \<Rightarrow> nat list \<Rightarrow> validate_error option" where
  "check_scalars path name args [] = None"
| "check_scalars path name args (i # is) =
     (if length args \<le> i then Some (ScalarParamsOutOfRange path name i)
      else if \<not> isConstantExpr (args ! i) then Some (NotScalar path name i)
      else check_scalars path name args is)"

fun validateNode :: "Node \<Rightarrow> string \<Rightarrow> validate_error option"
  and validate_args :: "Node list \<Rightarrow> string \<Rightarrow> nat \<Rightarrow> validate_error option" where
  "validateNode (LiteralNode v) path = None"
| "validateNode (IdentifierNode name) path = (if IsDataField name then None else Some (UnknownField path name))"
| "validateNode (UnaryOpNode oper x) path =
     (if OperatorCategory oper \<noteq> Some CatUnary then Some (UnknownUnary path oper)
      else validateNode x (path @ ''.expr''))"
| "validateNode (BinaryOpNode oper l r) path =
     (if OperatorCategory oper \<noteq> Some CatBinary then Some (UnknownBinary path oper)
      else case validateNode l (path @ ''.left'') of
             Some e \<Rightarrow> Some e
           | None \<Rightarrow> validateNode r (path @ ''.right''))"
| "validateNode (FunctionNode name args) path =
     (case operatorDef name of
        None \<Rightarrow> Some (UnknownFunction path name)
      | Some d \<Rightarrow>
          if odCategory d \<noteq> CatTimeSeries \<and> odCategory d \<noteq> CatUnary then Some (UnknownFunction path name)
          else if length args \<noteq> odArity d then Some (WrongArity path name (odArity d) (length args))
          else case check_scalars path name args (odScalarParams d) of
                 Some e \<Rightarrow> Some e
               | None \<Rightarrow> validate_args args path 0)"
| "validateNode (CrossSectionalNode oper x grp) path =
     (case operatorDef oper of
        None \<Rightarrow> Some (UnknownCrossSectional path oper)
      | Some d \<Rightarrow>
          if odCategory d \<noteq> CatCrossSectional then Some (UnknownCrossSectional path oper)
          else let argc = (case grp of None \<Rightarrow> 1 | Some _ \<Rightarrow> 2)
               in if argc \<noteq> odArity d then Some (WrongArity path oper (odArity d) argc)
                  else case validateNode x (path @ ''.expr'') of
                         Some e \<Rightarrow> Some e
                       | None \<Rightarrow> (case grp of None \<Rightarrow> None | Some g \<Rightarrow> validateNode g (path @ ''.group'')))"
| "validate_args [] path i = None"
| "validate_args (arg # args) path i =
     (case validateNode arg (path @ ''.arg['' @ itoa i @ '']'') of
        Some e \<Rightarrow> Some e
      | None \<Rightarrow> validate_args args path (i + 1))"

section \<open>Warm-up and lookback\<close>

definition functionSelfWarmup :: "MathLib \<Rightarrow> string \<Rightarrow> Node list \<Rightarrow> int" where
  "functionSelfWarmup lib name args =
     (case operatorDef name of
        None \<Rightarrow> 0
      | Some d \<Rightarrow>
          (case odSelfWarmup d of
             None \<Rightarrow> 0
           | Some f \<Rightarrow> if length args \<noteq> odArity d then 0 else f lib args))"

definition running_max :: "int list \<Rightarrow> int" where
  "running_max ws = foldl (\<lambda>inner w. if inner < w then w else inner) 0 ws"

fun DeriveWarmup :: "MathLib \<Rightarrow> Node \<Rightarrow> int" where
  "DeriveWarmup lib (LiteralNode v) = 0"
| "DeriveWarmup lib (IdentifierNode name) = 0"
| "DeriveWarmup lib (UnaryOpNode oper x) = DeriveWarmup lib x"
| "DeriveWarmup lib (BinaryOpNode oper l r) = max (DeriveWarmup lib l) (DeriveWarmup lib r)"
| "DeriveWarmup lib (FunctionNode name args) =
     running_max (map (DeriveWarmup lib) args) + functionSelfWarmup lib name args"
| "DeriveWarmup lib (CrossSectionalNode oper x grp) =
     (let w = DeriveWarmup lib x
      in case grp of None \<Rightarrow> w | Some g \<Rightarrow> (let gw = DeriveWarmup lib g in if w < gw then gw else w))"

fun DeriveLookback :: "Node \<Rightarrow> int \<times> bool" where
  "DeriveLookback (LiteralNode v) = (0, False)"
| "DeriveLookback (IdentifierNode name) = (0, False)"
| "DeriveLookback (UnaryOpNode oper x) = DeriveLookback x"
| "DeriveLookback (BinaryOpNode oper l r) =
     (let (lb, li) = DeriveLookback l; (rb, ri) = DeriveLookback r in (max lb rb, li \<or> ri))"
| "DeriveLookback (FunctionNode name args) =
     (let ds = map DeriveLookback args;
          bars = running_max (map fst ds);
          infinite = list_ex snd ds
      in case operatorDef name of
           None \<Rightarrow> (bars, infinite)
         | Some d \<Rightarrow>
             (case odSelfLookback d of
                None \<Rightarrow> bars
              | Some f \<Rightarrow> if length args = odArity d then bars + f args else bars,
              infinite \<or> odState d))"
| "DeriveLookback (CrossSectionalNode oper x grp) =
     (let (bars, infinite) = DeriveLookback x
      in case grp of
           None \<Rightarrow> (bars, infinite)
         | Some g \<Rightarrow> (let (gb, gi) = DeriveLookback g in (if bars < gb then gb else bars, infinite \<or> gi)))"

section \<open>Facts about the tables\<close>

lemma registry_all: "list_all (\<lambda>(n, d). P n d) operatorRegistry \<Longrightarrow> operatorDef n = Some d \<Longrightarrow> P n d"
  unfolding operatorDef_def list_all_iff by (blast dest: map_of_SomeD)

lemma operator_names_distinct: "distinct (map fst operatorRegistry)"
  by code_simp

lemma running_max_Max: "running_max ws = Max (set (0 # ws))"
proof -
  have "(\<lambda>inner w. if inner < w then w else inner) = (\<lambda>x y. max y x :: int)" by (auto simp: fun_eq_iff max_def)
  then show ?thesis unfolding running_max_def Max.set_eq_fold by (simp add: foldl_conv_fold)
qed

lemma running_max_upper: "w \<in> set ws \<Longrightarrow> w \<le> running_max ws" "0 \<le> running_max ws"
  by (simp_all add: running_max_Max)

text \<open>
  The gate accepts any constant expression as a window, the derivations read literals only: with the
  window written as a sum they give 0, as if the operator looked at one bar.
\<close>

lemma constant_window_not_derived:
  fixes lib :: MathLib
  defines "e \<equiv> FunctionNode ''ts_mean'' [IdentifierNode ''close'',
      BinaryOpNode ''+'' (LiteralNode (Fin 10)) (LiteralNode (Fin 10))]"
  shows "validateNode e ''root'' = None" "DeriveLookback e = (0, False)" "DeriveWarmup lib e = 0"
proof -
  have d: "operatorDef ''ts_mean'' = Some (windowOp tsMean)" by (simp add: operatorDef_def operatorRegistry_def)
  show "validateNode e ''root'' = None" "DeriveLookback e = (0, False)" unfolding e_def by code_simp+
  show "DeriveWarmup lib e = 0"
    by (simp add: e_def functionSelfWarmup_def d windowOp_def windowSelfWarmupAt_def literalIntAt_def
        literalFloatAt_def running_max_def)
qed

text \<open>The message that lists the fields leaves out those of the third data source.\<close>

lemma activity_fields_not_offered:
  "''turnover_rate'' \<in> set AvailableFields" "''turnover_rate'' \<notin> set (concat (map snd fieldsBySource))"
  by code_simp+

end
