(* ===== verification/Expr_Parser.thy ===== *)
theory Expr_Parser
  imports Expr_Registry
begin

text \<open>
  The recursive-descent parser of \<open>pkg/expression/parser.go\<close>. The state of the code is the token slice
  and a position; here it is the list of the tokens from the position on. \<open>advance\<close> never passes the
  end token, so the list of the code is never empty.

  The functions of the code call each other and loop while tokens match. The parsers take a bound on
  the number of nested calls and of iterations, and are \<open>None\<close> when it runs out; a parser that
  contains another takes it as an argument, which ties the recursion in \<open>parseExpression\<close>. The number
  of tokens is enough for every formula, and the results are exactly the trees of the grammar given by
  the relation \<open>gram\<close>; \<open>Expr_Grammar\<close> proves both.
\<close>

section \<open>The token stream\<close>

datatype parse_error =
    UnexpectedToken string
  | InvalidNumberToken string
  | ExpectedRParen
  | ExpectedLParen
  | WrongArgumentCount string nat nat

type_synonym 'a parsed = "(parse_error + ('a \<times> token list)) option"

fun current :: "token list \<Rightarrow> token" where
  "current [] = tok tokenEOF []"
| "current (t # _) = t"

definition isAtEnd :: "token list \<Rightarrow> bool" where
  "isAtEnd ts \<longleftrightarrow> tokTyp (current ts) = tokenEOF"

definition check_tok :: "tokenType \<Rightarrow> token list \<Rightarrow> bool" where
  "check_tok t ts \<longleftrightarrow> \<not> isAtEnd ts \<and> tokTyp (current ts) = t"

text \<open>\<open>match\<close> advances over one of the given tokens; \<open>previous()\<close> is then the token it passed.\<close>

definition match_tok :: "tokenType list \<Rightarrow> token list \<Rightarrow> (token \<times> token list) option" where
  "match_tok ttypes ts = (if \<exists>t \<in> set ttypes. check_tok t ts then Some (current ts, tl ts) else None)"

definition pbind :: "'a parsed \<Rightarrow> ('a \<Rightarrow> token list \<Rightarrow> 'b parsed) \<Rightarrow> 'b parsed" where
  "pbind p f = (case p of None \<Rightarrow> None | Some (Inl e) \<Rightarrow> Some (Inl e) | Some (Inr (a, ts)) \<Rightarrow> f a ts)"

section \<open>The parsers\<close>

text \<open>The loop that the six binary levels share: while an operator matches, parse another operand.\<close>

primrec binaryLoop ::
    "nat \<Rightarrow> tokenType list \<Rightarrow> (token list \<Rightarrow> Node parsed) \<Rightarrow> Node \<Rightarrow> token list \<Rightarrow> Node parsed" where
  "binaryLoop 0 ttypes operand left ts = None"
| "binaryLoop (Suc n) ttypes operand left ts =
     (case match_tok ttypes ts of
        None \<Rightarrow> Some (Inr (left, ts))
      | Some (t, ts') \<Rightarrow>
          pbind (operand ts') (\<lambda>right. binaryLoop n ttypes operand (BinaryOpNode (tokVal t) left right)))"

definition binaryLevel :: "nat \<Rightarrow> tokenType list \<Rightarrow> (token list \<Rightarrow> Node parsed) \<Rightarrow> token list \<Rightarrow> Node parsed" where
  "binaryLevel n ttypes operand ts = pbind (operand ts) (binaryLoop n ttypes operand)"

primrec parse_args :: "nat \<Rightarrow> (token list \<Rightarrow> Node parsed) \<Rightarrow> token list \<Rightarrow> Node list parsed" where
  "parse_args 0 expr ts = None"
| "parse_args (Suc n) expr ts =
     pbind (expr ts) (\<lambda>arg ts'.
       case match_tok [tokenComma] ts' of
         None \<Rightarrow> Some (Inr ([arg], ts'))
       | Some (_, ts'') \<Rightarrow> pbind (parse_args n expr ts'') (\<lambda>args rest. Some (Inr (arg # args, rest))))"

text \<open>The node of a call; the number of arguments of a cross-sectional operator is checked here.\<close>

definition call_node :: "string \<Rightarrow> Node list \<Rightarrow> parse_error + Node" where
  "call_node name args =
     (if IsCrossSectionalOp name
      then let arity = OperatorArity name
           in if length args \<noteq> arity then Inl (WrongArgumentCount name arity (length args))
              else Inr (CrossSectionalNode name (args ! 0) (if arity = 2 then Some (args ! 1) else None))
      else Inr (FunctionNode name args))"

definition parseFunctionCall :: "nat \<Rightarrow> (token list \<Rightarrow> Node parsed) \<Rightarrow> string \<Rightarrow> token list \<Rightarrow> Node parsed" where
  "parseFunctionCall n expr name ts =
     (case match_tok [tokenLParen] ts of
        None \<Rightarrow> Some (Inl ExpectedLParen)
      | Some (_, ts') \<Rightarrow>
          pbind (if check_tok tokenRParen ts' then Some (Inr ([], ts')) else parse_args n expr ts') (\<lambda>args ts''.
            case match_tok [tokenRParen] ts'' of
              None \<Rightarrow> Some (Inl ExpectedRParen)
            | Some (_, rest) \<Rightarrow>
                (case call_node name args of
                   Inl e \<Rightarrow> Some (Inl e)
                 | Inr node \<Rightarrow> Some (Inr (node, rest)))))"

definition parsePrimary :: "nat \<Rightarrow> (token list \<Rightarrow> Node parsed) \<Rightarrow> token list \<Rightarrow> Node parsed" where
  "parsePrimary n expr ts =
     (case match_tok [tokenNumber] ts of
        Some (t, ts') \<Rightarrow>
          (case ParseFloat (tokVal t) of
             None \<Rightarrow> Some (Inl (InvalidNumberToken (tokVal t)))
           | Some v \<Rightarrow> Some (Inr (LiteralNode v, ts')))
      | None \<Rightarrow>
     (case match_tok [tokenIdentifier] ts of
        Some (t, ts') \<Rightarrow>
          (if check_tok tokenLParen ts' then parseFunctionCall n expr (tokVal t) ts'
           else Some (Inr (IdentifierNode (tokVal t), ts')))
      | None \<Rightarrow>
     (case match_tok [tokenLParen] ts of
        Some (_, ts') \<Rightarrow>
          pbind (expr ts') (\<lambda>e ts''.
            case match_tok [tokenRParen] ts'' of
              None \<Rightarrow> Some (Inl ExpectedRParen)
            | Some (_, rest) \<Rightarrow> Some (Inr (e, rest)))
      | None \<Rightarrow> Some (Inl (UnexpectedToken (tokVal (current ts)))))))"

primrec parseUnary :: "nat \<Rightarrow> (token list \<Rightarrow> Node parsed) \<Rightarrow> token list \<Rightarrow> Node parsed" where
  "parseUnary 0 expr ts = None"
| "parseUnary (Suc n) expr ts =
     (case match_tok [tokenMinus] ts of
        Some (_, ts') \<Rightarrow> pbind (parseUnary n expr ts') (\<lambda>e rest. Some (Inr (UnaryOpNode ''neg'' e, rest)))
      | None \<Rightarrow> parsePrimary (Suc n) expr ts)"

definition parsePower :: "nat \<Rightarrow> (token list \<Rightarrow> Node parsed) \<Rightarrow> token list \<Rightarrow> Node parsed" where
  "parsePower n expr = binaryLevel n [tokenPow] (parseUnary n expr)"

definition parseMultiplicative :: "nat \<Rightarrow> (token list \<Rightarrow> Node parsed) \<Rightarrow> token list \<Rightarrow> Node parsed" where
  "parseMultiplicative n expr = binaryLevel n [tokenMul, tokenDiv] (parsePower n expr)"

definition parseAdditive :: "nat \<Rightarrow> (token list \<Rightarrow> Node parsed) \<Rightarrow> token list \<Rightarrow> Node parsed" where
  "parseAdditive n expr = binaryLevel n [tokenPlus, tokenMinus] (parseMultiplicative n expr)"

definition parseComparison :: "nat \<Rightarrow> (token list \<Rightarrow> Node parsed) \<Rightarrow> token list \<Rightarrow> Node parsed" where
  "parseComparison n expr = binaryLevel n [tokenGT, tokenLT, tokenEQ, tokenGE, tokenLE] (parseAdditive n expr)"

primrec parseNot :: "nat \<Rightarrow> nat \<Rightarrow> (token list \<Rightarrow> Node parsed) \<Rightarrow> token list \<Rightarrow> Node parsed" where
  "parseNot 0 m expr ts = None"
| "parseNot (Suc n) m expr ts =
     (case match_tok [tokenNOT] ts of
        Some (_, ts') \<Rightarrow> pbind (parseNot n m expr ts') (\<lambda>e rest. Some (Inr (UnaryOpNode ''NOT'' e, rest)))
      | None \<Rightarrow> parseComparison m expr ts)"

definition parseAnd :: "nat \<Rightarrow> (token list \<Rightarrow> Node parsed) \<Rightarrow> token list \<Rightarrow> Node parsed" where
  "parseAnd n expr = binaryLevel n [tokenAND] (parseNot n n expr)"

definition parseOr :: "nat \<Rightarrow> (token list \<Rightarrow> Node parsed) \<Rightarrow> token list \<Rightarrow> Node parsed" where
  "parseOr n expr = binaryLevel n [tokenOR] (parseAnd n expr)"

primrec parseExpression :: "nat \<Rightarrow> token list \<Rightarrow> Node parsed" where
  "parseExpression 0 ts = None"
| "parseExpression (Suc n) ts = parseOr (Suc n) (parseExpression n) ts"

section \<open>Formulas\<close>

record Expression =
  exFormula :: string
  exAST :: Node
  exInputs :: "string set"

datatype formula_error =
    EmptyFormula
  | TokenizationFailed token_error
  | ParseFailed parse_error
  | TrailingToken string

definition Parse :: "string \<Rightarrow> (formula_error + Expression) option" where
  "Parse formula =
     (if list_all IsSpace formula then Some (Inl EmptyFormula)
      else case tokenize formula of
             Inl e \<Rightarrow> Some (Inl (TokenizationFailed e))
           | Inr tokens \<Rightarrow>
               (case parseExpression (Suc (length tokens)) tokens of
                  None \<Rightarrow> None
                | Some (Inl e) \<Rightarrow> Some (Inl (ParseFailed e))
                | Some (Inr (ast, rest)) \<Rightarrow>
                    if \<not> isAtEnd rest then Some (Inl (TrailingToken (tokVal (current rest))))
                    else Some (Inr \<lparr>exFormula = formula, exAST = ast, exInputs = ExtractInputs ast\<rparr>)))"

text \<open>\<open>Expression.Validate\<close>\<close>

definition Validate_expr :: "Expression \<Rightarrow> validate_error option" where
  "Validate_expr e = validateNode (exAST e) ''root''"

section \<open>The grammar\<close>

text \<open>
  The levels of the grammar from the loosest to the tightest, the operators of each, and the trees of
  each level: a binary operator takes a tree of its own level on the left and one of the next level on
  the right.
\<close>

datatype level = LOr | LAnd | LNot | LCmp | LAdd | LMul | LPow | LUnary | LPrim

fun level_ops :: "level \<Rightarrow> tokenType list" where
  "level_ops LOr = [tokenOR]"
| "level_ops LAnd = [tokenAND]"
| "level_ops LCmp = [tokenGT, tokenLT, tokenEQ, tokenGE, tokenLE]"
| "level_ops LAdd = [tokenPlus, tokenMinus]"
| "level_ops LMul = [tokenMul, tokenDiv]"
| "level_ops LPow = [tokenPow]"
| "level_ops _ = []"

fun tighter :: "level \<Rightarrow> level" where
  "tighter LOr = LAnd"
| "tighter LAnd = LNot"
| "tighter LNot = LCmp"
| "tighter LCmp = LAdd"
| "tighter LAdd = LMul"
| "tighter LMul = LPow"
| "tighter LPow = LUnary"
| "tighter _ = LPrim"

inductive gram :: "level \<Rightarrow> token list \<Rightarrow> Node \<Rightarrow> bool"
  and gram_args :: "token list \<Rightarrow> Node list \<Rightarrow> bool" where
  g_tighter: "gram (tighter c) ts n \<Longrightarrow> c \<noteq> LPrim \<Longrightarrow> gram c ts n"
| g_binary: "gram c ts l \<Longrightarrow> tokTyp t \<in> set (level_ops c) \<Longrightarrow> gram (tighter c) us r \<Longrightarrow>
    gram c (ts @ t # us) (BinaryOpNode (tokVal t) l r)"
| g_not: "tokTyp t = tokenNOT \<Longrightarrow> gram LNot ts n \<Longrightarrow> gram LNot (t # ts) (UnaryOpNode ''NOT'' n)"
| g_neg: "tokTyp t = tokenMinus \<Longrightarrow> gram LUnary ts n \<Longrightarrow> gram LUnary (t # ts) (UnaryOpNode ''neg'' n)"
| g_number: "tokTyp t = tokenNumber \<Longrightarrow> ParseFloat (tokVal t) = Some v \<Longrightarrow> gram LPrim [t] (LiteralNode v)"
| g_ident: "tokTyp t = tokenIdentifier \<Longrightarrow> gram LPrim [t] (IdentifierNode (tokVal t))"
| g_paren: "tokTyp l = tokenLParen \<Longrightarrow> gram LOr ts n \<Longrightarrow> tokTyp r = tokenRParen \<Longrightarrow> gram LPrim (l # ts @ [r]) n"
| g_call0: "tokTyp t = tokenIdentifier \<Longrightarrow> tokTyp l = tokenLParen \<Longrightarrow> tokTyp r = tokenRParen \<Longrightarrow>
    call_node (tokVal t) [] = Inr n \<Longrightarrow> gram LPrim [t, l, r] n"
| g_call: "tokTyp t = tokenIdentifier \<Longrightarrow> tokTyp l = tokenLParen \<Longrightarrow> gram_args ts args \<Longrightarrow> tokTyp r = tokenRParen \<Longrightarrow>
    call_node (tokVal t) args = Inr n \<Longrightarrow> gram LPrim (t # l # ts @ [r]) n"
| g_arg: "gram LOr ts n \<Longrightarrow> gram_args ts [n]"
| g_arg_more: "gram LOr ts n \<Longrightarrow> tokTyp t = tokenComma \<Longrightarrow> gram_args us ns \<Longrightarrow> gram_args (ts @ t # us) (n # ns)"

end
