(* ===== verification/Expr_Grammar.thy ===== *)
theory Expr_Grammar
  imports Expr_Parser
begin

text \<open>
  The parser of \<open>Expr_Parser\<close> against the grammar: a larger bound never changes a result
  (\<open>parseExpression_mono\<close>), what is parsed is in the grammar (\<open>parse_sound\<close>), the number of tokens is
  bound enough (\<open>parseExpression_total\<close>), and every tree of the grammar is parsed (\<open>parse_complete\<close>).
\<close>

section \<open>The token stream\<close>

lemma match_tok_Some: "match_tok ttypes ts = Some (t, ts') \<longleftrightarrow> ts = t # ts' \<and> tokTyp t \<in> set ttypes \<and> tokTyp t \<noteq> tokenEOF"
  by (cases ts) (auto simp: match_tok_def check_tok_def isAtEnd_def tok_def)

lemma match_tok_None: "match_tok ttypes ts = None \<longleftrightarrow> tokTyp (current ts) \<notin> set ttypes \<or> tokTyp (current ts) = tokenEOF"
  by (auto simp: match_tok_def check_tok_def isAtEnd_def)

lemma match_tok_Cons [simp]:
  "match_tok ttypes (t # ts) = (if tokTyp t \<in> set ttypes \<and> tokTyp t \<noteq> tokenEOF then Some (t, ts) else None)"
  by (auto simp: match_tok_def check_tok_def isAtEnd_def)

lemma check_tok_Cons [simp]: "check_tok k (t # ts) \<longleftrightarrow> tokTyp t \<noteq> tokenEOF \<and> tokTyp t = k"
  by (auto simp: check_tok_def isAtEnd_def)

lemma pbind_Some: "pbind p f = Some r \<longleftrightarrow> (\<exists>e. p = Some (Inl e) \<and> r = Inl e) \<or> (\<exists>a ts. p = Some (Inr (a, ts)) \<and> f a ts = Some r)"
  by (auto simp: pbind_def split: option.splits sum.splits)

lemma pbind_Inr [simp]: "pbind (Some (Inr (a, ts))) f = f a ts" "pbind (Some (Inl e)) f = Some (Inl e)"
  by (simp_all add: pbind_def)

lemma pbind_None: "pbind p f = None \<longleftrightarrow> p = None \<or> (\<exists>a ts. p = Some (Inr (a, ts)) \<and> f a ts = None)"
  by (auto simp: pbind_def split: option.splits sum.splits)

lemma pbind_returns: "(\<And>a ts. y = Inr (a, ts) \<Longrightarrow> \<exists>z. f a ts = Some z) \<Longrightarrow> \<exists>z. pbind (Some y) f = Some z"
  by (cases y) auto

section \<open>A larger bound\<close>

text \<open>\<open>p\<close> returns only what \<open>q\<close> returns.\<close>

definition below :: "(token list \<Rightarrow> 'a parsed) \<Rightarrow> (token list \<Rightarrow> 'a parsed) \<Rightarrow> bool" where
  "below p q \<longleftrightarrow> (\<forall>ts r. p ts = Some r \<longrightarrow> q ts = Some r)"

lemma belowD: "below p q \<Longrightarrow> p ts = Some r \<Longrightarrow> q ts = Some r"
  by (simp add: below_def)

lemma below_refl [simp]: "below p p"
  by (simp add: below_def)

lemma pbind_mono:
  assumes "pbind p f = Some r" "\<And>r. p = Some r \<Longrightarrow> q = Some r" "\<And>a ts r. f a ts = Some r \<Longrightarrow> g a ts = Some r"
  shows "pbind q g = Some r"
  using assms by (auto simp: pbind_Some)

lemma binaryLoop_mono:
  "below p q \<Longrightarrow> binaryLoop n ttypes p l ts = Some r \<Longrightarrow> n \<le> m \<Longrightarrow> binaryLoop m ttypes q l ts = Some r"
proof (induction n arbitrary: m l ts r)
  case (Suc n)
  then obtain m' where m: "m = Suc m'" "n \<le> m'" by (cases m) auto
  show ?case
  proof (cases "match_tok ttypes ts")
    case (Some a)
    then obtain t ts' where a: "match_tok ttypes ts = Some (t, ts')" by (cases a) auto
    with Suc.prems(2) have "pbind (p ts') (\<lambda>right. binaryLoop n ttypes p (BinaryOpNode (tokVal t) l right)) = Some r" by simp
    then have "pbind (q ts') (\<lambda>right. binaryLoop m' ttypes q (BinaryOpNode (tokVal t) l right)) = Some r"
      by (rule pbind_mono) (use Suc.prems(1) m(2) in \<open>auto intro: Suc.IH dest: belowD\<close>)
    with a m show ?thesis by simp
  qed (use Suc.prems m in simp)
qed simp

lemma binaryLevel_mono: "below p q \<Longrightarrow> n \<le> m \<Longrightarrow> below (binaryLevel n ttypes p) (binaryLevel m ttypes q)"
  unfolding below_def binaryLevel_def by (auto elim!: pbind_mono intro: binaryLoop_mono simp: below_def)

lemma parse_args_mono:
  "below p q \<Longrightarrow> parse_args n p ts = Some r \<Longrightarrow> n \<le> m \<Longrightarrow> parse_args m q ts = Some r"
proof (induction n arbitrary: m ts r)
  case (Suc n)
  then obtain m' where m: "m = Suc m'" "n \<le> m'" by (cases m) auto
  have "pbind (parse_args m' q us) f = Some r" if "pbind (parse_args n p us) f = Some r" for us r and f :: "Node list \<Rightarrow> token list \<Rightarrow> Node list parsed"
    using that by (rule pbind_mono) (use Suc.prems(1) m(2) in \<open>auto intro: Suc.IH\<close>)
  note more = this
  from Suc.prems(2) show ?case
    unfolding m(1) parse_args.simps
    by (rule pbind_mono) (use Suc.prems(1) in \<open>auto split: option.splits intro: more dest: belowD\<close>)
qed simp

lemma parsePrimary_mono: "below p q \<Longrightarrow> n \<le> m \<Longrightarrow> below (parsePrimary n p) (parsePrimary m q)"
proof -
  assume b: "below p q" and nm: "n \<le> m"
  have c: "parseFunctionCall m q name ts = Some r" if "parseFunctionCall n p name ts = Some r" for name ts r
    using that unfolding parseFunctionCall_def
    by (auto split: option.splits prod.splits if_splits elim!: pbind_mono intro: parse_args_mono [OF b _ nm])
  show ?thesis
    unfolding below_def parsePrimary_def
    by (auto split: option.splits prod.splits if_splits elim!: pbind_mono intro: c belowD [OF b])
qed

lemma parseUnary_mono: "below p q \<Longrightarrow> parseUnary n p ts = Some r \<Longrightarrow> n \<le> m \<Longrightarrow> parseUnary m q ts = Some r"
proof (induction n arbitrary: m ts r)
  case (Suc n)
  then obtain m' where m: "m = Suc m'" "n \<le> m'" by (cases m) auto
  show ?case
    using Suc.prems(2) belowD [OF parsePrimary_mono [OF Suc.prems(1), of "Suc n" "Suc m'"]] m
    by (auto split: option.splits elim!: pbind_mono intro: Suc.IH [OF Suc.prems(1)])
qed simp

lemma parseComparison_mono: "below p q \<Longrightarrow> n \<le> m \<Longrightarrow> below (parseComparison n p) (parseComparison m q)"
  unfolding parseComparison_def parseAdditive_def parseMultiplicative_def parsePower_def
  by (intro binaryLevel_mono) (auto simp: below_def intro: parseUnary_mono)

lemma parseNot_mono:
  "below p q \<Longrightarrow> parseNot n k p ts = Some r \<Longrightarrow> n \<le> m \<Longrightarrow> k \<le> j \<Longrightarrow> parseNot m j q ts = Some r"
proof (induction n arbitrary: m ts r)
  case (Suc n)
  then obtain m' where m: "m = Suc m'" "n \<le> m'" by (cases m) auto
  show ?case
    using Suc.prems(2) belowD [OF parseComparison_mono [OF Suc.prems(1,4)]] m
    by (auto split: option.splits elim!: pbind_mono intro: Suc.IH [OF Suc.prems(1) _ _ Suc.prems(4)])
qed simp

lemma parseOr_mono: "below p q \<Longrightarrow> n \<le> m \<Longrightarrow> below (parseOr n p) (parseOr m q)"
  unfolding parseOr_def parseAnd_def
  by (intro binaryLevel_mono) (auto simp: below_def intro: parseNot_mono)

lemma parseExpression_mono: "n \<le> m \<Longrightarrow> below (parseExpression n) (parseExpression m)"
proof (induction n arbitrary: m)
  case (Suc n)
  then obtain m' where m: "m = Suc m'" "n \<le> m'" by (cases m) auto
  from parseOr_mono [OF Suc.IH [OF m(2)], of "Suc n" "Suc m'"] m show ?case
    by (simp add: below_def)
qed (simp add: below_def)

section \<open>The levels\<close>

fun level_parser :: "level \<Rightarrow> nat \<Rightarrow> (token list \<Rightarrow> Node parsed) \<Rightarrow> token list \<Rightarrow> Node parsed" where
  "level_parser LOr n e = parseOr n e"
| "level_parser LAnd n e = parseAnd n e"
| "level_parser LNot n e = parseNot n n e"
| "level_parser LCmp n e = parseComparison n e"
| "level_parser LAdd n e = parseAdditive n e"
| "level_parser LMul n e = parseMultiplicative n e"
| "level_parser LPow n e = parsePower n e"
| "level_parser LUnary n e = parseUnary n e"
| "level_parser LPrim n e = parsePrimary n e"

lemma level_parser_binary:
  "level_ops c \<noteq> [] \<Longrightarrow> level_parser c n e = binaryLevel n (level_ops c) (level_parser (tighter c) n e)"
  by (cases c) (simp_all add: parseOr_def parseAnd_def parseComparison_def parseAdditive_def
      parseMultiplicative_def parsePower_def)

lemma level_induct [case_names binary LNot LUnary LPrim]:
  assumes "\<And>c. level_ops c \<noteq> [] \<Longrightarrow> P (tighter c) \<Longrightarrow> P c" "P LCmp \<Longrightarrow> P LNot" "P LPrim \<Longrightarrow> P LUnary" "P LPrim"
  shows "P c"
proof -
  have u: "P LUnary" using assms(3,4) by blast
  have p: "P LPow" "P LMul" "P LAdd" "P LCmp"
    using assms(1) [of LPow] assms(1) [of LMul] assms(1) [of LAdd] assms(1) [of LCmp] u by simp_all
  have "P LNot" using assms(2) p(4) by blast
  then have "P LAnd" "P LOr" using assms(1) [of LAnd] assms(1) [of LOr] by simp_all
  with p u assms(4) \<open>P LNot\<close> show ?thesis by (cases c) simp_all
qed

lemma level_parser_mono: "below p q \<Longrightarrow> n \<le> m \<Longrightarrow> below (level_parser c n p) (level_parser c m q)"
proof (induction c rule: level_induct)
  case (binary c)
  then show ?case by (simp add: level_parser_binary binaryLevel_mono)
qed (auto simp: below_def parseNot_mono [unfolded below_def] parseUnary_mono [unfolded below_def]
    parsePrimary_mono [unfolded below_def])

section \<open>What is parsed is in the grammar\<close>

definition sound :: "level \<Rightarrow> (token list \<Rightarrow> Node parsed) \<Rightarrow> bool" where
  "sound c p \<longleftrightarrow> (\<forall>ts a rest. p ts = Some (Inr (a, rest)) \<longrightarrow> (\<exists>us. ts = us @ rest \<and> gram c us a))"

lemma soundD: "sound c p \<Longrightarrow> p ts = Some (Inr (a, rest)) \<Longrightarrow> \<exists>us. ts = us @ rest \<and> gram c us a"
  by (simp add: sound_def)

lemma binaryLoop_sound:
  "sound (tighter c) p \<Longrightarrow> binaryLoop n (level_ops c) p l ts = Some (Inr (a, rest)) \<Longrightarrow> gram c us l \<Longrightarrow>
   \<exists>vs. ts = vs @ rest \<and> gram c (us @ vs) a"
proof (induction n arbitrary: l ts us)
  case (Suc n)
  show ?case
  proof (cases "match_tok (level_ops c) ts")
    case None
    with Suc.prems show ?thesis by auto
  next
    case (Some x)
    then obtain t ts' where t: "match_tok (level_ops c) ts = Some (t, ts')" by (cases x) auto
    with Suc.prems(2) obtain right ts'' where r: "p ts' = Some (Inr (right, ts''))"
      "binaryLoop n (level_ops c) p (BinaryOpNode (tokVal t) l right) ts'' = Some (Inr (a, rest))"
      by (auto simp: pbind_Some)
    from soundD [OF Suc.prems(1) r(1)] obtain ws where ws: "ts' = ws @ ts''" "gram (tighter c) ws right" by blast
    from t have tt: "ts = t # ts'" "tokTyp t \<in> set (level_ops c)" by (auto simp: match_tok_Some)
    have "gram c (us @ t # ws) (BinaryOpNode (tokVal t) l right)"
      by (rule g_binary [OF Suc.prems(3) tt(2) ws(2)])
    from Suc.IH [OF Suc.prems(1) r(2) this] obtain vs where "ts'' = vs @ rest" "gram c ((us @ t # ws) @ vs) a" by blast
    with ws tt(1) show ?thesis by (intro exI [of _ "t # ws @ vs"]) simp
  qed
qed simp

lemma binaryLevel_sound: "level_ops c \<noteq> [] \<Longrightarrow> sound (tighter c) p \<Longrightarrow> sound c (binaryLevel n (level_ops c) p)"
proof -
  assume c: "level_ops c \<noteq> []" and p: "sound (tighter c) p"
  have "\<exists>us. ts = us @ rest \<and> gram c us a" if "binaryLevel n (level_ops c) p ts = Some (Inr (a, rest))" for ts a rest
  proof -
    from that obtain l ts' where l: "p ts = Some (Inr (l, ts'))" "binaryLoop n (level_ops c) p l ts' = Some (Inr (a, rest))"
      by (auto simp: binaryLevel_def pbind_Some)
    from soundD [OF p l(1)] obtain us where us: "ts = us @ ts'" "gram (tighter c) us l" by blast
    from c have "gram c us l" by (auto intro: g_tighter [OF us(2)])
    from binaryLoop_sound [OF p l(2) this] obtain vs where "ts' = vs @ rest" "gram c (us @ vs) a" by blast
    with us(1) show ?thesis by (intro exI [of _ "us @ vs"]) simp
  qed
  then show ?thesis by (simp add: sound_def)
qed

lemma parse_args_sound:
  "sound LOr e \<Longrightarrow> parse_args n e ts = Some (Inr (args, rest)) \<Longrightarrow> \<exists>us. ts = us @ rest \<and> gram_args us args"
proof (induction n arbitrary: ts args)
  case (Suc n)
  then obtain arg ts' where arg: "e ts = Some (Inr (arg, ts'))"
    and k: "(case match_tok [tokenComma] ts' of None \<Rightarrow> Some (Inr ([arg], ts'))
       | Some (_, ts'') \<Rightarrow> pbind (parse_args n e ts'') (\<lambda>args rest. Some (Inr (arg # args, rest)))) = Some (Inr (args, rest))"
    by (auto simp: pbind_Some)
  from soundD [OF Suc.prems(1) arg] obtain us where us: "ts = us @ ts'" "gram LOr us arg" by blast
  show ?case
  proof (cases "match_tok [tokenComma] ts'")
    case None
    with k us show ?thesis by (auto intro: g_arg)
  next
    case (Some x)
    then obtain t ts'' where t: "match_tok [tokenComma] ts' = Some (t, ts'')" by (cases x) auto
    with k obtain args' where a: "parse_args n e ts'' = Some (Inr (args', rest))" "args = arg # args'"
      by (auto simp: pbind_Some)
    from Suc.IH [OF Suc.prems(1) a(1)] obtain vs where vs: "ts'' = vs @ rest" "gram_args vs args'" by blast
    from t have "ts' = t # ts''" "tokTyp t = tokenComma" by (auto simp: match_tok_Some)
    with us vs a(2) show ?thesis
      by (intro exI [of _ "us @ t # vs"]) (auto intro: g_arg_more)
  qed
qed simp

lemma parseFunctionCall_sound:
  assumes e: "sound LOr e" and t: "tokTyp t = tokenIdentifier"
    and p: "parseFunctionCall n e (tokVal t) ts = Some (Inr (a, rest))"
  shows "\<exists>us. t # ts = us @ rest \<and> gram LPrim us a"
proof -
  from p obtain l ts' where l: "match_tok [tokenLParen] ts = Some (l, ts')"
    by (auto simp: parseFunctionCall_def split: option.splits)
  with p obtain args ts'' where
    args: "(if check_tok tokenRParen ts' then Some (Inr ([], ts')) else parse_args n e ts') = Some (Inr (args, ts''))"
    and k: "(case match_tok [tokenRParen] ts'' of None \<Rightarrow> Some (Inl ExpectedRParen) | Some (_, rest) \<Rightarrow>
       (case call_node (tokVal t) args of Inl e \<Rightarrow> Some (Inl e) | Inr node \<Rightarrow> Some (Inr (node, rest)))) = Some (Inr (a, rest))"
    unfolding parseFunctionCall_def by (auto simp only: pbind_Some option.case prod.case)
  from k obtain r where r: "match_tok [tokenRParen] ts'' = Some (r, rest)" and a: "call_node (tokVal t) args = Inr a"
    by (cases "match_tok [tokenRParen] ts''"; cases "call_node (tokVal t) args") auto
  from l r have lr: "ts = l # ts'" "tokTyp l = tokenLParen" "ts'' = r # rest" "tokTyp r = tokenRParen"
    by (auto simp: match_tok_Some)
  show ?thesis
  proof (cases "check_tok tokenRParen ts'")
    case True
    with args lr t a show ?thesis by (intro exI [of _ "[t, l, r]"]) (auto intro: g_call0)
  next
    case False
    with args parse_args_sound [OF e] obtain us where "ts' = us @ ts''" "gram_args us args" by fastforce
    with lr t a show ?thesis by (intro exI [of _ "t # l # us @ [r]"]) (auto intro: g_call)
  qed
qed

lemma parsePrimary_sound: "sound LOr e \<Longrightarrow> sound LPrim (parsePrimary n e)"
proof -
  assume e: "sound LOr e"
  have "\<exists>us. ts = us @ rest \<and> gram LPrim us a" if p: "parsePrimary n e ts = Some (Inr (a, rest))" for ts a rest
  proof (cases ts)
    case Nil
    with p show ?thesis by (simp add: parsePrimary_def match_tok_def check_tok_def isAtEnd_def tok_def)
  next
    case (Cons t ts')
    consider "tokTyp t = tokenNumber" | "tokTyp t = tokenIdentifier" | "tokTyp t = tokenLParen"
      using p Cons by (cases "tokTyp t") (auto simp: parsePrimary_def)
    then show ?thesis
    proof cases
      case 1
      with p Cons show ?thesis
        by (intro exI [of _ "[t]"]) (auto simp: parsePrimary_def intro: g_number split: option.splits)
    next
      case 2
      show ?thesis
      proof (cases "check_tok tokenLParen ts'")
        case True
        with 2 p Cons have "parseFunctionCall n e (tokVal t) ts' = Some (Inr (a, rest))" by (simp add: parsePrimary_def)
        from parseFunctionCall_sound [OF e 2 this] Cons show ?thesis by simp
      next
        case False
        with 2 p Cons show ?thesis by (intro exI [of _ "[t]"]) (auto simp: parsePrimary_def intro: g_ident)
      qed
    next
      case 3
      with p Cons obtain r ts'' where ts'': "e ts' = Some (Inr (a, ts''))" "match_tok [tokenRParen] ts'' = Some (r, rest)"
        by (auto simp: parsePrimary_def pbind_Some split: option.splits)
      from soundD [OF e ts''(1)] obtain us where "ts' = us @ ts''" "gram LOr us a" by blast
      with ts''(2) 3 Cons show ?thesis
        by (intro exI [of _ "t # us @ [r]"]) (auto simp: match_tok_Some intro: g_paren)
    qed
  qed
  then show ?thesis by (simp add: sound_def)
qed

lemma prefix_sound:
  assumes c: "c = LNot \<and> k = tokenNOT \<and> name = ''NOT'' \<or> c = LUnary \<and> k = tokenMinus \<and> name = ''neg''"
    and step: "\<And>n ts. p (Suc n) ts = (case match_tok [k] ts of
        Some (_, ts') \<Rightarrow> pbind (p n ts') (\<lambda>e rest. Some (Inr (UnaryOpNode name e, rest))) | None \<Rightarrow> q n ts)"
    and zero: "\<And>ts. p 0 ts = None" and q: "\<And>n. sound (tighter c) (q n)"
  shows "sound c (p n)"
proof (induction n)
  case (Suc n)
  have "\<exists>us. ts = us @ rest \<and> gram c us a" if pr: "p (Suc n) ts = Some (Inr (a, rest))" for ts a rest
  proof (cases "match_tok [k] ts")
    case None
    with pr soundD [OF q] have "\<exists>us. ts = us @ rest \<and> gram (tighter c) us a" by (simp add: step)
    then obtain us where us: "ts = us @ rest" "gram (tighter c) us a" by blast
    from c have "c \<noteq> LPrim" by auto
    from us(1) g_tighter [OF us(2) this] show ?thesis by blast
  next
    case (Some x)
    then obtain t ts' where t: "match_tok [k] ts = Some (t, ts')" by (cases x) auto
    with pr obtain b where b: "p n ts' = Some (Inr (b, rest))" "a = UnaryOpNode name b"
      by (auto simp: step pbind_Some)
    from soundD [OF Suc.IH b(1)] obtain us where us: "ts' = us @ rest" "gram c us b" by blast
    from t have "ts = t # ts'" "tokTyp t = k" by (auto simp: match_tok_Some)
    with c us b show ?thesis by (intro exI [of _ "t # us"]) (auto intro: g_not g_neg)
  qed
  then show ?case by (simp add: sound_def)
qed (simp add: sound_def zero)

lemma level_parser_sound: "sound LOr e \<Longrightarrow> sound c (level_parser c n e)"
proof (induction c arbitrary: n rule: level_induct)
  case (binary c)
  then show ?case by (simp add: level_parser_binary binaryLevel_sound)
next
  case LNot
  show ?case unfolding level_parser.simps
    by (rule prefix_sound [where k = tokenNOT and name = "''NOT''" and q = "\<lambda>_. parseComparison n e"])
      (use LNot in auto)
next
  case LUnary
  show ?case unfolding level_parser.simps
    by (rule prefix_sound [where k = tokenMinus and name = "''neg''" and q = "\<lambda>n. parsePrimary (Suc n) e"])
      (use LUnary in \<open>auto simp: parsePrimary_sound\<close>)
qed (simp add: parsePrimary_sound)

lemma parse_sound: "sound LOr (parseExpression n)"
proof (induction n)
  case (Suc n)
  from level_parser_sound [OF Suc, of LOr "Suc n"] show ?case by (simp add: sound_def)
qed (simp add: sound_def)

section \<open>The first token\<close>

definition first :: "level \<Rightarrow> tokenType set" where
  "first c =
     {tokenNumber, tokenIdentifier, tokenLParen} \<union> (if c = LPrim then {} else {tokenMinus}) \<union>
     (if c \<in> {LOr, LAnd, LNot} then {tokenNOT} else {})"

lemma first_tighter: "first (tighter c) \<subseteq> first c"
  by (cases c) (auto simp: first_def)

lemma gram_first:
  shows "gram c ts n \<Longrightarrow> ts \<noteq> [] \<and> tokTyp (hd ts) \<in> first c"
    and "gram_args ts ns \<Longrightarrow> ts \<noteq> [] \<and> tokTyp (hd ts) \<in> first LOr"
proof (induction rule: gram_gram_args.inducts)
  case (g_tighter c ts n)
  then show ?case using first_tighter by blast
qed (auto simp: first_def)

lemma sound_shorter: "sound c p \<Longrightarrow> p ts = Some (Inr (a, rest)) \<Longrightarrow> length rest < length ts"
  using gram_first(1) by (fastforce dest: soundD)

section \<open>The number of tokens is enough\<close>

definition total_below :: "nat \<Rightarrow> (token list \<Rightarrow> 'a parsed) \<Rightarrow> bool" where
  "total_below k p \<longleftrightarrow> (\<forall>ts. length ts < k \<longrightarrow> p ts \<noteq> None)"

lemma binaryLoop_total:
  "sound c p \<Longrightarrow> total_below k p \<Longrightarrow> length ts \<le> k \<Longrightarrow> length ts < n \<Longrightarrow> binaryLoop n ttypes p l ts \<noteq> None"
proof (induction n arbitrary: l ts)
  case (Suc n)
  have "pbind (p ts') (\<lambda>right. binaryLoop n ttypes p (BinaryOpNode (tokVal t) l right)) \<noteq> None"
    if t: "match_tok ttypes ts = Some (t, ts')" for t ts'
  proof -
    from t have ts: "ts = t # ts'" by (simp add: match_tok_Some)
    have "binaryLoop n ttypes p l' ts'' \<noteq> None" if "p ts' = Some (Inr (r, ts''))" for r ts'' l'
      using Suc.IH [OF Suc.prems(1,2), of ts''] sound_shorter [OF Suc.prems(1) that] Suc.prems(3,4) ts by simp
    moreover have "p ts' \<noteq> None" using Suc.prems(2,3) ts by (simp add: total_below_def)
    ultimately show ?thesis by (auto simp: pbind_None)
  qed
  then show ?case by (auto split: option.split)
qed simp

lemma binaryLevel_total:
  "sound c p \<Longrightarrow> total_below k p \<Longrightarrow> k \<le> n \<Longrightarrow> total_below k (binaryLevel n ttypes p)"
proof -
  assume p: "sound c p" "total_below k p" and n: "k \<le> n"
  have "binaryLoop n ttypes p l rest \<noteq> None" if "p ts = Some (Inr (l, rest))" "length ts < k" for ts l rest
    using sound_shorter [OF p(1) that(1)] that(2) n by (intro binaryLoop_total [OF p]) auto
  with p(2) show ?thesis by (auto simp: total_below_def binaryLevel_def pbind_None)
qed

lemma parse_args_total:
  "sound LOr e \<Longrightarrow> total_below k e \<Longrightarrow> length ts < k \<Longrightarrow> length ts < n \<Longrightarrow> parse_args n e ts \<noteq> None"
proof (induction n arbitrary: ts)
  case (Suc n)
  have "parse_args n e ts'' \<noteq> None" if "e ts = Some (Inr (a, ts'))" "match_tok [tokenComma] ts' = Some (t, ts'')" for a ts' t ts''
    using Suc.IH [OF Suc.prems(1,2), of ts''] sound_shorter [OF Suc.prems(1) that(1)] that(2) Suc.prems(3,4)
    by (simp add: match_tok_Some)
  moreover have "e ts \<noteq> None" using Suc.prems(2,3) by (simp add: total_below_def)
  ultimately show ?case
    unfolding parse_args.simps
    by (fastforce split: option.split intro!: pbind_returns)
qed simp

lemma parsePrimary_total:
  assumes e: "sound LOr e" "total_below k e" and k: "length ts \<le> k" "length ts < n"
  shows "parsePrimary n e ts \<noteq> None"
proof (cases ts)
  case (Cons t ts')
  have "parseFunctionCall n e name ts' \<noteq> None" for name
  proof (cases ts')
    case Nil
    then show ?thesis by (simp add: parseFunctionCall_def match_tok_def check_tok_def isAtEnd_def tok_def)
  next
    case (Cons l ts'')
    with k \<open>ts = t # ts'\<close> have "parse_args n e ts'' \<noteq> None" by (intro parse_args_total [OF e]) auto
    then show ?thesis
      unfolding Cons parseFunctionCall_def
      by (auto split: option.split sum.split intro!: pbind_returns)
  qed
  moreover have "e ts' \<noteq> None" using e(2) k(1) Cons by (simp add: total_below_def)
  ultimately show ?thesis
    unfolding Cons parsePrimary_def
    by (auto split: option.split intro!: pbind_returns)
qed (simp add: parsePrimary_def match_tok_def check_tok_def isAtEnd_def tok_def)

lemma prefix_total:
  assumes step: "\<And>n ts. p (Suc n) ts = (case match_tok [k] ts of
        Some (_, ts') \<Rightarrow> pbind (p n ts') (\<lambda>e rest. Some (Inr (UnaryOpNode name e, rest))) | None \<Rightarrow> q n ts)"
    and q: "\<And>n ts. length ts \<le> n \<Longrightarrow> length ts < b \<Longrightarrow> q n ts \<noteq> None"
  shows "length ts < n \<Longrightarrow> length ts < b \<Longrightarrow> p n ts \<noteq> None"
proof (induction n arbitrary: ts)
  case (Suc n)
  then have "p n ts' \<noteq> None" if "match_tok [k] ts = Some (t, ts')" for t ts'
    using that by (simp add: match_tok_Some)
  with Suc.prems q [of ts n] show ?case
    unfolding step by (auto split: option.split intro!: pbind_returns)
qed simp

lemma level_parser_total:
  "sound LOr e \<Longrightarrow> total_below k e \<Longrightarrow> Suc k \<le> n \<Longrightarrow> total_below (Suc k) (level_parser c n e)"
proof (induction c rule: level_induct)
  case (binary c)
  then show ?case
    by (auto simp: level_parser_binary intro: binaryLevel_total [OF level_parser_sound])
next
  case LNot
  show ?case
    unfolding total_below_def level_parser.simps
    by (intro allI impI prefix_total [where p = "\<lambda>m. parseNot m n e" and q = "\<lambda>_. parseComparison n e" and b = "Suc k"
          and k = tokenNOT and name = "''NOT''"]) (use LNot in \<open>auto simp: total_below_def\<close>)
next
  case LUnary
  show ?case
    unfolding total_below_def level_parser.simps
    by (intro allI impI prefix_total [where p = "\<lambda>m. parseUnary m e" and q = "\<lambda>m. parsePrimary (Suc m) e" and b = "Suc k"
          and k = tokenMinus and name = "''neg''"]) (use LUnary parsePrimary_total [of e k] in \<open>auto simp: less_Suc_eq_le\<close>)
next
  case LPrim
  with parsePrimary_total [of e k] show ?case by (auto simp: total_below_def less_Suc_eq_le)
qed

lemma parseExpression_total: "total_below n (parseExpression n)"
proof (induction n)
  case (Suc n)
  from level_parser_total [OF parse_sound Suc, of "Suc n" LOr] show ?case by (simp add: total_below_def)
qed (simp add: total_below_def)

section \<open>Every tree of the grammar is parsed\<close>

text \<open>The parser of a level with the expression parser the bound leaves it.\<close>

definition level_at :: "level \<Rightarrow> nat \<Rightarrow> token list \<Rightarrow> Node parsed" where
  "level_at c n = level_parser c n (parseExpression (n - 1))"

lemma parseExpression_level: "0 < n \<Longrightarrow> parseExpression n ts = level_at LOr n ts"
  by (cases n) (simp_all add: level_at_def)

lemma level_at_sound: "sound c (level_at c n)"
  by (simp add: level_at_def level_parser_sound parse_sound)

lemma level_at_total: "total_below n (level_at c n)"
proof (cases n)
  case (Suc m)
  then show ?thesis using level_parser_total [OF parse_sound parseExpression_total, of m n c] by (simp add: level_at_def)
qed (simp add: total_below_def)

lemma same_result:
  assumes "p ts \<noteq> None" "below p q"
  shows "p ts = q ts"
  using assms by (cases "p ts") (auto dest: belowD)

lemma level_at_bound: "length ts < n \<Longrightarrow> length ts < m \<Longrightarrow> level_at c n ts = level_at c m ts"
proof (induction n m rule: linorder_wlog)
  case (le n m)
  have "below (level_at c n) (level_at c m)"
    unfolding level_at_def using le(1) by (intro level_parser_mono parseExpression_mono) auto
  with le level_at_total [of n c] show ?case by (intro same_result) (auto simp: total_below_def)
qed simp

lemma parse_bound: "length ts < n \<Longrightarrow> length ts < m \<Longrightarrow> parseExpression n ts = parseExpression m ts"
  using level_at_bound [of ts n m LOr] by (simp add: parseExpression_level)

text \<open>The tokens that continue a tree of a level: a parenthesis, its operators and the tighter ones.\<close>

definition continues :: "level \<Rightarrow> tokenType set" where
  "continues c = {tokenLParen} \<union>
     (if c \<in> {LUnary, LPrim} then {} else {tokenPow}) \<union>
     (if c \<in> {LPow, LUnary, LPrim} then {} else {tokenMul, tokenDiv}) \<union>
     (if c \<in> {LMul, LPow, LUnary, LPrim} then {} else {tokenPlus, tokenMinus}) \<union>
     (if c \<in> {LOr, LAnd, LNot, LCmp} then {tokenGT, tokenLT, tokenEQ, tokenGE, tokenLE} else {}) \<union>
     (if c \<in> {LOr, LAnd} then {tokenAND} else {}) \<union> (if c = LOr then {tokenOR} else {})"

definition stops :: "level \<Rightarrow> token list \<Rightarrow> bool" where
  "stops c rest \<longleftrightarrow> tokTyp (current rest) \<notin> continues c"

lemma continues_ops: "continues c = set (level_ops c) \<union> continues (tighter c)"
  by (cases c) (auto simp: continues_def)

lemma operator_stops: "tokTyp t \<in> set (level_ops c) \<Longrightarrow> stops (tighter c) (t # ts)"
  by (cases c) (auto simp: stops_def continues_def)

lemma stops_tighter: "stops c rest \<Longrightarrow> stops (tighter c) rest"
  by (simp add: stops_def continues_ops [of c])

lemma end_stops: "tokTyp (current rest) \<in> {tokenRParen, tokenComma, tokenEOF} \<Longrightarrow> stops c rest"
  by (cases c) (auto simp: stops_def continues_def)

text \<open>What the parser of a level does after the tree \<open>n\<close>: the binary levels go on with their loop.\<close>

definition resume :: "level \<Rightarrow> nat \<Rightarrow> Node \<Rightarrow> token list \<Rightarrow> Node parsed" where
  "resume c k n rest =
     (if level_ops c = [] then Some (Inr (n, rest))
      else binaryLoop k (level_ops c) (level_at (tighter c) k) n rest)"

lemma resume_stops: "stops c rest \<Longrightarrow> 0 < k \<Longrightarrow> resume c k n rest = Some (Inr (n, rest))"
proof -
  assume s: "stops c rest" and k: "0 < k"
  have "match_tok (level_ops c) rest = None"
    using s by (auto simp: match_tok_None stops_def continues_ops [of c])
  with k show ?thesis by (cases k) (auto simp: resume_def)
qed

lemma level_ops_LPrim: "level_ops c \<noteq> [] \<Longrightarrow> c \<noteq> LPrim"
  by auto

lemma level_at_binary:
  "level_ops c \<noteq> [] \<Longrightarrow> level_at c k ts = pbind (level_at (tighter c) k ts) (binaryLoop k (level_ops c) (level_at (tighter c) k))"
  by (simp add: level_at_def level_parser_binary binaryLevel_def)

definition parsed_at :: "level \<Rightarrow> token list \<Rightarrow> Node \<Rightarrow> bool" where
  "parsed_at c ts n \<longleftrightarrow>
     (\<forall>k rest. length (ts @ rest) < k \<longrightarrow> stops (tighter c) rest \<longrightarrow> level_at c k (ts @ rest) = resume c k n rest)"

lemma parsed_at_stops:
  "parsed_at c ts n \<Longrightarrow> length (ts @ rest) < k \<Longrightarrow> stops c rest \<Longrightarrow> level_at c k (ts @ rest) = Some (Inr (n, rest))"
  using stops_tighter resume_stops by (fastforce simp: parsed_at_def)

lemma parsed_at_tighter:
  assumes g: "gram (tighter c) ts n" and p: "parsed_at (tighter c) ts n" and c: "c \<noteq> LPrim"
  shows "parsed_at c ts n"
  unfolding parsed_at_def
proof (intro allI impI)
  fix k rest
  assume k: "length (ts @ rest) < k" and s: "stops (tighter c) rest"
  have t: "level_at (tighter c) k (ts @ rest) = Some (Inr (n, rest))" by (rule parsed_at_stops [OF p k s])
  show "level_at c k (ts @ rest) = resume c k n rest"
  proof (cases "level_ops c = []")
    case False
    with t show ?thesis by (simp add: level_at_binary resume_def)
  next
    case True
    obtain m where m: "k = Suc m" using k by (cases k) auto
    from gram_first(1) [OF g] obtain t ts' where ts: "ts = t # ts'" "tokTyp t \<in> first (tighter c)" by (cases ts) auto
    from True c have "c = LNot \<or> c = LUnary" by (cases c) auto
    then show ?thesis using t ts m by (auto simp: level_at_def resume_def first_def)
  qed
qed

lemma parsed_at_binary:
  assumes l: "parsed_at c ts l" and t: "tokTyp t \<in> set (level_ops c)" and r: "parsed_at (tighter c) us r"
  shows "parsed_at c (ts @ t # us) (BinaryOpNode (tokVal t) l r)"
  unfolding parsed_at_def
proof (intro allI impI)
  fix k rest
  assume k: "length ((ts @ t # us) @ rest) < k" and s: "stops (tighter c) rest"
  let ?p = "level_at (tighter c) k" and ?b = "BinaryOpNode (tokVal t) l r"
  have ne: "level_ops c \<noteq> []" using t by auto
  have eof: "tokTyp t \<noteq> tokenEOF" using t by (cases c) auto
  obtain m where m: "k = Suc m" using k by (cases k) auto
  have "level_at c k ((ts @ t # us) @ rest) = binaryLoop k (level_ops c) ?p l (t # us @ rest)"
    using l operator_stops [OF t] k ne by (simp add: parsed_at_def resume_def)
  also have "\<dots> = pbind (?p (us @ rest)) (\<lambda>right. binaryLoop m (level_ops c) ?p (BinaryOpNode (tokVal t) l right))"
    using t eof m by simp
  also have "\<dots> = binaryLoop m (level_ops c) ?p ?b rest"
    using parsed_at_stops [OF r _ s, of k] k by simp
  also have "\<dots> = binaryLoop k (level_ops c) ?p ?b rest"
  proof (rule same_result [where p = "binaryLoop m (level_ops c) ?p ?b"])
    show "binaryLoop m (level_ops c) ?p ?b rest \<noteq> None"
      by (rule binaryLoop_total [OF level_at_sound level_at_total]) (use k m in auto)
    show "below (binaryLoop m (level_ops c) ?p ?b) (binaryLoop k (level_ops c) ?p ?b)"
      unfolding below_def using m by (intro allI impI, elim binaryLoop_mono [OF below_refl]) simp
  qed
  finally show "level_at c k ((ts @ t # us) @ rest) = resume c k ?b rest" using ne by (simp add: resume_def)
qed

lemma prefix_bound:
  assumes n: "length ts < n" "n \<le> k"
  shows "parseUnary n (parseExpression (k - 1)) ts = level_at LUnary k ts"
    and "parseNot n k (parseExpression (k - 1)) ts = level_at LNot k ts"
proof -
  have b: "below (parseExpression (n - 1)) (parseExpression (k - 1))" using n(2) by (intro parseExpression_mono) simp
  have "level_at LUnary n ts \<noteq> None" "level_at LNot n ts \<noteq> None" using level_at_total n(1) by (auto simp: total_below_def)
  then obtain r q where r: "parseUnary n (parseExpression (n - 1)) ts = Some r"
    and q: "parseNot n n (parseExpression (n - 1)) ts = Some q" by (auto simp: level_at_def)
  show "parseUnary n (parseExpression (k - 1)) ts = level_at LUnary k ts"
    using parseUnary_mono [OF b r] n(2) by (simp add: level_at_def)
  show "parseNot n k (parseExpression (k - 1)) ts = level_at LNot k ts"
    using parseNot_mono [OF b q] n(2) by (simp add: level_at_def)
qed

lemma parsed_at_prefix:
  "tokTyp t = tokenNOT \<Longrightarrow> parsed_at LNot ts n \<Longrightarrow> parsed_at LNot (t # ts) (UnaryOpNode ''NOT'' n)"
  "tokTyp t = tokenMinus \<Longrightarrow> parsed_at LUnary ts n \<Longrightarrow> parsed_at LUnary (t # ts) (UnaryOpNode ''neg'' n)"
proof -
  have "level_at LNot k (t # ts @ rest) = Some (Inr (UnaryOpNode ''NOT'' n, rest))"
    if t: "tokTyp t = tokenNOT" and p: "parsed_at LNot ts n" and k: "length (t # ts @ rest) < k" "stops LNot rest" for k rest
  proof -
    obtain m where m: "k = Suc m" using k by (cases k) auto
    have "parseNot m k (parseExpression (k - 1)) (ts @ rest) = Some (Inr (n, rest))"
      using prefix_bound(2) [of "ts @ rest" m k] parsed_at_stops [OF p, of rest k] k m by simp
    with t m show ?thesis by (simp add: level_at_def)
  qed
  moreover have "level_at LUnary k (t # ts @ rest) = Some (Inr (UnaryOpNode ''neg'' n, rest))"
    if t: "tokTyp t = tokenMinus" and p: "parsed_at LUnary ts n" and k: "length (t # ts @ rest) < k" "stops LUnary rest" for k rest
  proof -
    obtain m where m: "k = Suc m" using k by (cases k) auto
    have "parseUnary m (parseExpression (k - 1)) (ts @ rest) = Some (Inr (n, rest))"
      using prefix_bound(1) [of "ts @ rest" m k] parsed_at_stops [OF p, of rest k] k m by simp
    with t m show ?thesis by (simp add: level_at_def)
  qed
  moreover have "stops LCmp rest \<Longrightarrow> stops LNot rest" "stops LPrim rest \<Longrightarrow> stops LUnary rest" for rest
    by (auto simp: stops_def continues_def)
  ultimately show
    "tokTyp t = tokenNOT \<Longrightarrow> parsed_at LNot ts n \<Longrightarrow> parsed_at LNot (t # ts) (UnaryOpNode ''NOT'' n)"
    "tokTyp t = tokenMinus \<Longrightarrow> parsed_at LUnary ts n \<Longrightarrow> parsed_at LUnary (t # ts) (UnaryOpNode ''neg'' n)"
    unfolding parsed_at_def [of LNot "t # ts"] parsed_at_def [of LUnary "t # ts"] by (simp_all add: resume_def)
qed

definition args_parsed :: "token list \<Rightarrow> Node list \<Rightarrow> bool" where
  "args_parsed ts args \<longleftrightarrow>
     (\<forall>n k rest. length (ts @ rest) < n \<longrightarrow> length (ts @ rest) < k \<longrightarrow> tokTyp (current rest) = tokenRParen \<longrightarrow>
        parse_args n (parseExpression k) (ts @ rest) = Some (Inr (args, rest)))"

lemma expression_parsed:
  assumes "parsed_at LOr ts n" "length (ts @ rest) < k" "tokTyp (current rest) \<in> {tokenRParen, tokenComma, tokenEOF}"
  shows "parseExpression k (ts @ rest) = Some (Inr (n, rest))"
proof -
  have "0 < k" using assms(2) by simp
  then show ?thesis
    using parsed_at_stops [OF assms(1,2) end_stops [OF assms(3)]] by (simp only: parseExpression_level)
qed

lemma args_parsed_one: "parsed_at LOr ts n \<Longrightarrow> args_parsed ts [n]"
  unfolding args_parsed_def
proof (intro allI impI)
  fix j k rest
  assume p: "parsed_at LOr ts n" and l: "length (ts @ rest) < j" "length (ts @ rest) < k" "tokTyp (current rest) = tokenRParen"
  from expression_parsed [OF p l(2)] l(3) have "parseExpression k (ts @ rest) = Some (Inr (n, rest))" by simp
  moreover have "match_tok [tokenComma] rest = None" using l(3) by (simp add: match_tok_None)
  ultimately show "parse_args j (parseExpression k) (ts @ rest) = Some (Inr ([n], rest))" using l(1) by (cases j) auto
qed

lemma args_parsed_more:
  assumes n: "parsed_at LOr ts n" and t: "tokTyp t = tokenComma" and ns: "args_parsed us ns"
  shows "args_parsed (ts @ t # us) (n # ns)"
  unfolding args_parsed_def
proof (intro allI impI)
  fix j k rest
  assume l: "length ((ts @ t # us) @ rest) < j" "length ((ts @ t # us) @ rest) < k" "tokTyp (current rest) = tokenRParen"
  obtain i where i: "j = Suc i" using l(1) by (cases j) auto
  have "parseExpression k (ts @ t # us @ rest) = Some (Inr (n, t # us @ rest))"
    by (rule expression_parsed [OF n]) (use l(2) t in auto)
  moreover have "parse_args i (parseExpression k) (us @ rest) = Some (Inr (ns, rest))"
    using ns l i by (simp add: args_parsed_def)
  ultimately show "parse_args j (parseExpression k) ((ts @ t # us) @ rest) = Some (Inr (n # ns, rest))"
    using t i by simp
qed

text \<open>The forms of a primary; the bound is one more than what is left to the inner expressions.\<close>

lemma parsed_at_primary:
  assumes "\<And>k rest. length (ts @ rest) \<le> k \<Longrightarrow> tokTyp (current rest) \<noteq> tokenLParen \<Longrightarrow>
    parsePrimary (Suc k) (parseExpression k) (ts @ rest) = Some (Inr (n, rest))"
  shows "parsed_at LPrim ts n"
  unfolding parsed_at_def
proof (intro allI impI)
  fix k rest
  assume k: "length (ts @ rest) < k" and s: "stops (tighter LPrim) rest"
  obtain m where "k = Suc m" using k by (cases k) auto
  with assms [of rest m] k s show "level_at LPrim k (ts @ rest) = resume LPrim k n rest"
    by (simp add: level_at_def resume_def stops_def continues_def)
qed

lemma parsed_at_call:
  assumes t: "tokTyp t = tokenIdentifier" "tokTyp l = tokenLParen" "tokTyp r = tokenRParen"
    and n: "call_node (tokVal t) args = Inr n" and a: "ts = [] \<and> args = [] \<or> gram_args ts args \<and> args_parsed ts args"
  shows "parsed_at LPrim (t # l # ts @ [r]) n"
proof (rule parsed_at_primary)
  fix k rest
  assume k: "length ((t # l # ts @ [r]) @ rest) \<le> k"
  have "(if check_tok tokenRParen (ts @ r # rest) then Some (Inr ([], ts @ r # rest))
      else parse_args (Suc k) (parseExpression k) (ts @ r # rest)) = Some (Inr (args, r # rest))"
    using a
  proof
    assume g: "gram_args ts args \<and> args_parsed ts args"
    then have "\<not> check_tok tokenRParen (ts @ r # rest)"
      using gram_first(2) [of ts args] by (cases ts) (auto simp: first_def)
    with g t(3) k show ?thesis by (simp add: args_parsed_def del: parse_args.simps)
  qed (use t(3) in simp)
  then show "parsePrimary (Suc k) (parseExpression k) ((t # l # ts @ [r]) @ rest) = Some (Inr (n, rest))"
    using t n by (simp add: parsePrimary_def parseFunctionCall_def del: parse_args.simps)
qed

lemma gram_parsed:
  shows "gram c ts n \<Longrightarrow> parsed_at c ts n" and "gram_args ts args \<Longrightarrow> args_parsed ts args"
proof (induction rule: gram_gram_args.inducts)
  case (g_paren l ts n r)
  show ?case
  proof (rule parsed_at_primary)
    fix k rest
    assume "length ((l # ts @ [r]) @ rest) \<le> k"
    then have "parseExpression k (ts @ r # rest) = Some (Inr (n, r # rest))"
      using g_paren by (intro expression_parsed) auto
    with g_paren show "parsePrimary (Suc k) (parseExpression k) ((l # ts @ [r]) @ rest) = Some (Inr (n, rest))"
      by (simp add: parsePrimary_def)
  qed
next
  case (g_ident t)
  then show ?case
    by (intro parsed_at_primary) (auto simp: parsePrimary_def check_tok_def)
next
  case (g_number t v)
  then show ?case by (intro parsed_at_primary) (simp add: parsePrimary_def)
next
  case (g_call0 t l r n)
  from parsed_at_call [OF g_call0, of "[]"] show ?case by simp
next
  case (g_call t l ts args r n)
  then show ?case by (intro parsed_at_call [where args = args]) blast+
qed (auto intro: parsed_at_tighter parsed_at_binary parsed_at_prefix args_parsed_one args_parsed_more)

lemma parse_complete:
  "gram LOr ts n \<Longrightarrow> tokTyp eof = tokenEOF \<Longrightarrow> length ts + 1 < k \<Longrightarrow> parseExpression k (ts @ [eof]) = Some (Inr (n, [eof]))"
  by (intro expression_parsed gram_parsed) auto

section \<open>Formulas\<close>

lemma word_token_not_EOF: "tokTyp (word_token w) \<noteq> tokenEOF"
  by (simp add: word_token_def Let_def tok_def)

lemma punct_not_EOF: "punct r rest = Some (t, n) \<Longrightarrow> tokTyp t \<noteq> tokenEOF"
  by (auto simp: punct_def Let_def tok_def split: if_splits)

text \<open>The end token closes the list and occurs nowhere else.\<close>

lemma tokenize_loop_EOF:
  "tokenize_loop i s = Inr tokens \<Longrightarrow>
   \<exists>ts. tokens = ts @ [tok tokenEOF []] \<and> (\<forall>t \<in> set ts. tokTyp t \<noteq> tokenEOF)"
proof (induction i s arbitrary: tokens rule: tokenize_loop.induct)
  case (2 i r rest)
  have step: "\<exists>ts. t # us = ts @ [tok tokenEOF []] \<and> (\<forall>t \<in> set ts. tokTyp t \<noteq> tokenEOF)"
    if "\<exists>ts. us = ts @ [tok tokenEOF []] \<and> (\<forall>t \<in> set ts. tokTyp t \<noteq> tokenEOF)" "tokTyp t \<noteq> tokenEOF" for t us
  proof -
    from that obtain ts where "us = ts @ [tok tokenEOF []]" "\<forall>t \<in> set ts. tokTyp t \<noteq> tokenEOF" by blast
    with that(2) show ?thesis by (intro exI [of _ "t # ts"]) simp
  qed
  from 2 show ?case
    by (auto simp del: tokenize_loop.simps simp: tokenize_loop.simps(2) Let_def word_token_not_EOF tok_def [of tokenNumber]
        split: if_splits sum.splits option.splits prod.splits intro!: step dest: punct_not_EOF)
qed (auto simp: tok_def)

lemma gram_no_EOF:
  shows "gram c ts n \<Longrightarrow> \<forall>t \<in> set ts. tokTyp t \<noteq> tokenEOF"
    and "gram_args ts ns \<Longrightarrow> \<forall>t \<in> set ts. tokTyp t \<noteq> tokenEOF"
proof (induction rule: gram_gram_args.inducts)
  case (g_binary c ts l t us r)
  have "tokenEOF \<notin> set (level_ops c)" by (cases c) auto
  with g_binary show ?case by auto
qed auto

lemma parse_tokens:
  assumes "\<forall>t \<in> set ts. tokTyp t \<noteq> tokenEOF" and "tokTyp eof = tokenEOF" and k: "length ts + 1 < k"
  shows "(\<exists>rest. parseExpression k (ts @ [eof]) = Some (Inr (n, rest)) \<and> isAtEnd rest) \<longleftrightarrow> gram LOr ts n"
proof
  assume "gram LOr ts n"
  with parse_complete [OF this assms(2) k] assms(2) show "\<exists>rest. parseExpression k (ts @ [eof]) = Some (Inr (n, rest)) \<and> isAtEnd rest"
    by (simp add: isAtEnd_def)
next
  assume "\<exists>rest. parseExpression k (ts @ [eof]) = Some (Inr (n, rest)) \<and> isAtEnd rest"
  then obtain rest where p: "parseExpression k (ts @ [eof]) = Some (Inr (n, rest))" and e: "isAtEnd rest" by blast
  from soundD [OF parse_sound p] obtain us where us: "ts @ [eof] = us @ rest" "gram LOr us n" by blast
  have "rest \<noteq> []" using us gram_no_EOF(1) [OF us(2)] assms(2) by auto
  then obtain ys where ys: "rest = ys @ [eof]" "ts = us @ ys"
    using us(1) by (cases rest rule: rev_cases) auto
  with e assms(1) have "ys = []" by (cases ys) (auto simp: isAtEnd_def)
  with ys have "ts = us" by simp
  with us(2) show "gram LOr ts n" by simp
qed

text \<open>
  C13: The parser terminates on every formula: with the number of tokens as the bound on its nested
  calls and loop iterations it returns a tree or an error, and no larger bound changes the result.
\<close>

theorem parse_terminates:
  "(\<exists>r. Parse formula = Some r) \<and>
   (length tokens < n \<longrightarrow> (\<exists>r. \<forall>m \<ge> n. parseExpression m tokens = Some r))"
proof -
  have t: "\<exists>r. parseExpression n ts = Some r" if "length ts < n" for ts n
    using parseExpression_total [of n] that by (auto simp: total_below_def)
  have "\<exists>r. \<forall>m \<ge> n. parseExpression m tokens = Some r" if n: "length tokens < n"
  proof -
    from t [OF n] obtain r where "parseExpression n tokens = Some r" by blast
    with parse_bound [OF n] n show ?thesis by (intro exI [of _ r]) (metis order_less_le_trans)
  qed
  moreover have "Parse formula \<noteq> None"
  proof (cases "tokenize formula")
    case (Inr ts)
    from t [of ts "Suc (length ts)"] obtain r where "parseExpression (Suc (length ts)) ts = Some r" by blast
    with Inr show ?thesis
      by (auto simp: Parse_def simp del: parseExpression.simps split: sum.split)
  qed (simp add: Parse_def)
  ultimately show ?thesis by auto
qed

definition sample_tokens :: "token list" where
  "sample_tokens =
     [tok tokenMinus ''-'', tok tokenIdentifier ''close'', tok tokenPow ''^'', tok tokenNumber ''2'', tok tokenEOF []]"

theorem parse_terminates_witness:
  "\<exists>r. \<forall>m \<ge> 6. parseExpression m sample_tokens = Some r"
  using parse_terminates [of "[]" sample_tokens 6] by (simp add: sample_tokens_def)

text \<open>The minus sign binds tighter than the power, and the power associates to the left.\<close>

lemma sample_trees:
  "tokenize ''-close ^2'' = Inr sample_tokens"
  "parseExpression 6 sample_tokens =
     Some (Inr (BinaryOpNode ''^'' (UnaryOpNode ''neg'' (IdentifierNode ''close'')) (LiteralNode (Fin 2)),
       [tok tokenEOF []]))"
  by code_simp+

text \<open>
  C12: The parser accepts exactly the grammar. A formula that is not blank yields the tree \<open>n\<close> if and
  only if its tokens are those of \<open>n\<close> in the grammar of the precedence chain: OR, AND, NOT,
  comparisons, sums, products, powers, minus signs, primaries, with every binary operator
  associating to the left.
\<close>

theorem parse_iff_grammar:
  "(\<exists>e. Parse formula = Some (Inr e) \<and> exAST e = n) \<longleftrightarrow>
   \<not> list_all IsSpace formula \<and> (\<exists>ts. tokenize formula = Inr (ts @ [tok tokenEOF []]) \<and> gram LOr ts n)"
proof (cases "list_all IsSpace formula \<or> (\<exists>e. tokenize formula = Inl e)")
  case True
  then show ?thesis by (auto simp: Parse_def)
next
  case False
  then obtain tokens where tokens: "tokenize formula = Inr tokens" by (cases "tokenize formula") auto
  with tokenize_loop_EOF obtain ts where ts: "tokens = ts @ [tok tokenEOF []]" "\<forall>t \<in> set ts. tokTyp t \<noteq> tokenEOF"
    unfolding tokenize_def by blast
  have "(\<exists>e. Parse formula = Some (Inr e) \<and> exAST e = n) \<longleftrightarrow>
      (\<exists>rest. parseExpression (Suc (length tokens)) tokens = Some (Inr (n, rest)) \<and> isAtEnd rest)"
    using False tokens by (auto simp: Parse_def split: option.splits sum.splits if_splits)
  also have "\<dots> \<longleftrightarrow> gram LOr ts n"
    unfolding ts(1) by (rule parse_tokens [OF ts(2)]) (simp_all add: tok_def)
  finally show ?thesis using False tokens ts(1) by auto
qed

end
