(* ===== verification/Expr_Eval.thy ===== *)
theory Expr_Eval
  imports Expr_Parser
begin

text \<open>
  The evaluator of factor expressions (\<open>pkg/expression/evaluator.go\<close>). A provider of market data is the
  record \<open>DataProvider\<close>; an expression is evaluated to one series per symbol. The lemmas are those of the
  result maps, and that an expression which passed the gate fails only for reasons of the data.
\<close>

section \<open>Values\<close>

definition truth :: "bool \<Rightarrow> f64" where
  "truth b = (if b then Fin 1 else Fin 0)"

definition applyBinaryOp :: "MathLib \<Rightarrow> string \<Rightarrow> f64 \<Rightarrow> f64 \<Rightarrow> f64" where
  "applyBinaryOp lib oper a b =
     (if oper = ''+'' then fadd a b
      else if oper = ''-'' then fsub a b
      else if oper = ''*'' then fmul a b
      else if oper = ''/'' then (if feq b (Fin 0) then NaN else fdiv a b)
      else if oper = ''^'' then libPow lib a b
      else if oper = ''>'' then truth (flt b a)
      else if oper = ''<'' then truth (flt a b)
      else if oper = ''=='' then truth (feq a b)
      else if oper = ''>='' then truth (fle b a)
      else if oper = ''<='' then truth (fle a b)
      else if oper = ''AND'' then
        (if a = NaN \<or> b = NaN then NaN else truth (\<not> feq a (Fin 0) \<and> \<not> feq b (Fin 0)))
      else if oper = ''OR'' then
        (if a = NaN \<or> b = NaN then NaN else truth (\<not> feq a (Fin 0) \<or> \<not> feq b (Fin 0)))
      else NaN)"

definition applyUnaryOp :: "MathLib \<Rightarrow> string \<Rightarrow> f64 \<Rightarrow> f64" where
  "applyUnaryOp lib oper v =
     (if oper = ''neg'' then fneg v
      else if oper = ''abs'' then fabs v
      else if oper = ''log'' then (if fle v (Fin 0) then NaN else libLog lib v)
      else if oper = ''sqrt'' then (if flt v (Fin 0) then NaN else math_Sqrt v)
      else if oper = ''sign'' then (if flt (Fin 0) v then Fin 1 else if flt v (Fin 0) then Fin (- 1) else Fin 0)
      else if oper = ''exp'' then libExp lib v
      else if oper = ''NOT'' then (if v = NaN then NaN else truth (feq v (Fin 0)))
      else NaN)"

section \<open>Series\<close>

record DataProvider =
  GetField :: "symbol \<Rightarrow> string \<Rightarrow> int \<Rightarrow> string + f64 list"
  GetSymbols :: "symbol list"

datatype eval_error =
    FieldError string symbol string
  | LengthMismatch symbol nat nat
  | UnknownOperator string
  | ArgumentCount string nat
  | OperatorFailed string symbol indicator_error
  | LeftOperand eval_error
  | RightOperand eval_error
  | ArgError nat eval_error
  | GroupError eval_error

text \<open>Reading a symbol that a result map lacks gives an empty slice.\<close>

definition series :: "f64 list dict \<Rightarrow> symbol \<Rightarrow> f64 list" where
  "series m s = (case fmlookup m s of None \<Rightarrow> [] | Some xs \<Rightarrow> xs)"

text \<open>The loop over the symbols that builds a result map and stops at the first error.\<close>

fun for_symbols :: "(symbol \<Rightarrow> 'e + f64 list) \<Rightarrow> symbol list \<Rightarrow> f64 list dict \<Rightarrow> 'e + f64 list dict" where
  "for_symbols f [] result = Inr result"
| "for_symbols f (s # ss) result =
     (case f s of Inl e \<Rightarrow> Inl e | Inr xs \<Rightarrow> for_symbols f ss (fmupd s xs result))"

definition broadcast :: "f64 list \<Rightarrow> nat \<Rightarrow> f64 list" where
  "broadcast xs n = (if length xs = 1 \<and> 1 < n then replicate n (hd xs) else xs)"

definition binary_series :: "MathLib \<Rightarrow> string \<Rightarrow> symbol \<Rightarrow> f64 list \<Rightarrow> f64 list \<Rightarrow> eval_error + f64 list" where
  "binary_series lib oper s left right =
     (let maxLen = max (length left) (length right);
          l = broadcast left maxLen; r = broadcast right maxLen
      in if length l \<noteq> length r then Inl (LengthMismatch s (length l) (length r))
         else Inr (map2 (applyBinaryOp lib oper) l r))"

definition applyTimeSeriesOp :: "MathLib \<Rightarrow> string \<Rightarrow> symbol \<Rightarrow> f64 list list \<Rightarrow> eval_error + f64 list" where
  "applyTimeSeriesOp lib name s args =
     (case operatorDef name of
        None \<Rightarrow> Inl (UnknownOperator name)
      | Some d \<Rightarrow>
          if odCategory d \<noteq> CatTimeSeries then Inl (UnknownOperator name)
          else case odTsEval d of
                 None \<Rightarrow> Inl (UnknownOperator name)
               | Some f \<Rightarrow>
                   if length args \<noteq> odArity d then Inl (ArgumentCount name (length args))
                   else case f lib args of Inl e \<Rightarrow> Inl (OperatorFailed name s e) | Inr out \<Rightarrow> Inr out)"

definition applyCrossSectionalOp :: "MathLib \<Rightarrow> string \<Rightarrow> f64 list \<Rightarrow> f64 list option \<Rightarrow> eval_error + f64 list" where
  "applyCrossSectionalOp lib name vs grp =
     (case operatorDef name of
        None \<Rightarrow> Inl (UnknownOperator name)
      | Some d \<Rightarrow>
          if odCategory d \<noteq> CatCrossSectional then Inl (UnknownOperator name)
          else case odCsEval d of None \<Rightarrow> Inl (UnknownOperator name) | Some f \<Rightarrow> Inr (f lib vs grp))"

text \<open>The last value of a series; a symbol without values counts as 0.\<close>

definition latest :: "f64 list \<Rightarrow> f64" where
  "latest xs = (if xs = [] then Fin 0 else last xs)"

definition cross_result :: "symbol list \<Rightarrow> f64 list \<Rightarrow> f64 list dict" where
  "cross_result ss vs = fold (\<lambda>(s, v). fmupd s [v]) (zip ss vs) fmempty"

definition evaluateLiteral :: "DataProvider \<Rightarrow> f64 \<Rightarrow> f64 list dict" where
  "evaluateLiteral p v = fold (\<lambda>s. fmupd s [v]) (GetSymbols p) fmempty"

definition evaluateIdentifier :: "DataProvider \<Rightarrow> int \<Rightarrow> string \<Rightarrow> eval_error + f64 list dict" where
  "evaluateIdentifier p lookback name =
     for_symbols (\<lambda>s. case GetField p s name lookback of Inl e \<Rightarrow> Inl (FieldError name s e) | Inr xs \<Rightarrow> Inr xs)
       (GetSymbols p) fmempty"

section \<open>Evaluation\<close>

fun Evaluate :: "MathLib \<Rightarrow> DataProvider \<Rightarrow> int \<Rightarrow> Node \<Rightarrow> eval_error + f64 list dict"
  and evaluate_args :: "MathLib \<Rightarrow> DataProvider \<Rightarrow> int \<Rightarrow> nat \<Rightarrow> Node list \<Rightarrow> eval_error + f64 list dict list" where
  "Evaluate lib p lookback (LiteralNode v) = Inr (evaluateLiteral p v)"
| "Evaluate lib p lookback (IdentifierNode name) = evaluateIdentifier p lookback name"
| "Evaluate lib p lookback (BinaryOpNode oper l r) =
     (case Evaluate lib p lookback l of
        Inl e \<Rightarrow> Inl (LeftOperand e)
      | Inr left \<Rightarrow>
          (case Evaluate lib p lookback r of
             Inl e \<Rightarrow> Inl (RightOperand e)
           | Inr right \<Rightarrow>
               for_symbols (\<lambda>s. binary_series lib oper s (series left s) (series right s)) (GetSymbols p) fmempty))"
| "Evaluate lib p lookback (UnaryOpNode oper x) =
     (case Evaluate lib p lookback x of
        Inl e \<Rightarrow> Inl e
      | Inr vals \<Rightarrow>
          Inr (fold (\<lambda>s. fmupd s (map (applyUnaryOp lib oper) (series vals s))) (GetSymbols p) fmempty))"
| "Evaluate lib p lookback (FunctionNode name args) =
     (if OperatorCategory name \<noteq> Some CatTimeSeries \<and> OperatorCategory name \<noteq> Some CatUnary
      then Inl (UnknownOperator name)
      else case evaluate_args lib p lookback 0 args of
             Inl e \<Rightarrow> Inl e
           | Inr results \<Rightarrow>
               if OperatorCategory name = Some CatUnary
               then (if length results \<noteq> 1 then Inl (ArgumentCount name (length results))
                     else Inr (fmmap (map (applyUnaryOp lib name)) (hd results)))
               else for_symbols (\<lambda>s. applyTimeSeriesOp lib name s (map (\<lambda>m. series m s) results))
                      (GetSymbols p) fmempty)"
| "Evaluate lib p lookback (CrossSectionalNode oper x grp) =
     (case Evaluate lib p lookback x of
        Inl e \<Rightarrow> Inl e
      | Inr vals \<Rightarrow>
          (let values = map (\<lambda>s. latest (series vals s)) (GetSymbols p);
               finish = (\<lambda>labels. map_sum id (cross_result (GetSymbols p)) (applyCrossSectionalOp lib oper values labels))
           in case grp of
                None \<Rightarrow> finish None
              | Some g \<Rightarrow>
                  (case Evaluate lib p lookback g of
                     Inl e \<Rightarrow> Inl (GroupError e)
                   | Inr gs \<Rightarrow> finish (Some (map (\<lambda>s. latest (series gs s)) (GetSymbols p))))))"
| "evaluate_args lib p lookback i [] = Inr []"
| "evaluate_args lib p lookback i (arg # args) =
     (case Evaluate lib p lookback arg of
        Inl e \<Rightarrow> Inl (ArgError i e)
      | Inr r \<Rightarrow>
          (case evaluate_args lib p lookback (i + 1) args of Inl e \<Rightarrow> Inl e | Inr rs \<Rightarrow> Inr (r # rs)))"

section \<open>Result maps\<close>

lemma for_symbols_Inr:
  "for_symbols f ss m = Inr r \<longleftrightarrow>
   (\<forall>s \<in> set ss. \<exists>xs. f s = Inr xs) \<and> r = fold (\<lambda>s. fmupd s (projr (f s))) ss m"
  by (induction ss arbitrary: m) (auto split: sum.splits)

lemma for_symbols_Inl: "for_symbols f ss m = Inl e \<Longrightarrow> \<exists>s \<in> set ss. f s = Inl e"
  by (induction ss arbitrary: m) (auto split: sum.splits)

lemma fmlookup_fold: "fmlookup (fold (\<lambda>s. fmupd s (g s)) ss m) s = (if s \<in> set ss then Some (g s) else fmlookup m s)"
  by (induction ss arbitrary: m) auto

lemma fmdom_fold [simp]: "fset (fmdom (fold (\<lambda>s. fmupd s (g s)) ss m)) = set ss \<union> fset (fmdom m)"
  by (induction ss arbitrary: m) auto

lemma for_symbols_dom: "for_symbols f ss fmempty = Inr r \<Longrightarrow> fset (fmdom r) = set ss"
  by (simp add: for_symbols_Inr)

lemma for_symbols_series: "for_symbols f ss fmempty = Inr r \<Longrightarrow> s \<in> set ss \<Longrightarrow> f s = Inr (series r s)"
  by (force simp: for_symbols_Inr series_def fmlookup_fold)

lemma cross_result_dom: "length vs = length ss \<Longrightarrow> fset (fmdom (cross_result ss vs)) = set ss"
proof -
  have "length vs = length ss \<Longrightarrow> fset (fmdom (fold (\<lambda>(s, v). fmupd s [v]) (zip ss vs) m)) = set ss \<union> fset (fmdom m)" for m
    by (induction ss vs arbitrary: m rule: list_induct2') auto
  then show "length vs = length ss \<Longrightarrow> ?thesis" by (simp add: cross_result_def)
qed


lemma fmrel_series: "fmrel R m m' \<Longrightarrow> R [] [] \<Longrightarrow> R (series m s) (series m' s)"
  by (auto simp: series_def fmrel_iff rel_option_iff split: option.splits dest!: spec [of _ s])

lemma for_symbols_rel:
  "(\<And>s. s \<in> set ss \<Longrightarrow> rel_sum E R (f s) (g s)) \<Longrightarrow> fmrel R m m' \<Longrightarrow>
   rel_sum E (fmrel R) (for_symbols f ss m) (for_symbols g ss m')"
proof (induction ss arbitrary: m m')
  case (Cons s ss)
  have ih: "rel_sum E (fmrel R) (for_symbols f ss (fmupd s xs m)) (for_symbols g ss (fmupd s ys m'))" if "R xs ys" for xs ys
    by (intro Cons.IH Cons.prems(1) fmrel_upd Cons.prems(2) that) simp
  from Cons.prems(1) [of s] have "rel_sum E R (f s) (g s)" by simp
  then show ?case by cases (simp_all add: ih)
qed simp

lemma fmmap_fmupd [simp]: "fmmap h (fmupd s xs m) = fmupd s (h xs) (fmmap h m)"
  by (rule fmap_ext) simp

lemma for_symbols_map:
  "(\<And>s xs. s \<in> set ss \<Longrightarrow> f s = Inr xs \<Longrightarrow> g s = Inr (h xs)) \<Longrightarrow> for_symbols f ss m = Inr r \<Longrightarrow>
   for_symbols g ss (fmmap h m) = Inr (fmmap h r)"
proof (induction ss arbitrary: m)
  case (Cons s ss)
  from Cons.prems(2) obtain xs where xs: "f s = Inr xs" "for_symbols f ss (fmupd s xs m) = Inr r"
    by (auto split: sum.splits)
  then show ?case using Cons.IH [OF Cons.prems(1) xs(2)] Cons.prems(1) [OF _ xs(1)] by simp
qed simp

section \<open>An expression that passed the gate\<close>

text \<open>The reasons of a failure that lie in the data or in the value of a parameter.\<close>

fun data_cause :: "eval_error \<Rightarrow> bool" where
  "data_cause (FieldError name s e) = True"
| "data_cause (LengthMismatch s m n) = True"
| "data_cause (OperatorFailed name s e) = True"
| "data_cause (UnknownOperator name) = False"
| "data_cause (ArgumentCount name n) = False"
| "data_cause (LeftOperand e) = data_cause e"
| "data_cause (RightOperand e) = data_cause e"
| "data_cause (ArgError i e) = data_cause e"
| "data_cause (GroupError e) = data_cause e"

definition evaluates_or_data :: "DataProvider \<Rightarrow> eval_error + f64 list dict \<Rightarrow> bool" where
  "evaluates_or_data p out \<longleftrightarrow>
     (case out of Inr res \<Rightarrow> fset (fmdom res) = set (GetSymbols p) | Inl e \<Rightarrow> data_cause e)"

lemma evaluates_or_data_simps [simp]:
  "evaluates_or_data p (Inl e) = data_cause e"
  "evaluates_or_data p (Inr res) \<longleftrightarrow> fset (fmdom res) = set (GetSymbols p)"
  by (simp_all add: evaluates_or_data_def)

lemma for_symbols_evaluates:
  "(\<And>s e. s \<in> set (GetSymbols p) \<Longrightarrow> f s = Inl e \<Longrightarrow> data_cause e) \<Longrightarrow>
   evaluates_or_data p (for_symbols f (GetSymbols p) fmempty)"
  by (cases "for_symbols f (GetSymbols p) fmempty")
     (auto dest: for_symbols_Inl for_symbols_dom)

lemma ts_entry:
  assumes "operatorDef name = Some d" "odCategory d = CatTimeSeries"
  obtains f where "odTsEval d = Some f"
proof -
  have "odCategory d = CatTimeSeries \<longrightarrow> odTsEval d \<noteq> None"
    by (rule registry_all [OF _ assms(1)])
       (simp add: operatorRegistry_def windowOp_def lagOp_def corrOp_def recursiveOp_def crossOp_def unaryDef_def binaryDef_def)
  with assms(2) that show ?thesis by auto
qed

lemma unary_entry: "operatorDef name = Some d \<Longrightarrow> odCategory d = CatUnary \<Longrightarrow> odArity d = 1"
proof -
  assume d: "operatorDef name = Some d" and c: "odCategory d = CatUnary"
  have "odCategory d = CatUnary \<longrightarrow> odArity d = 1"
    by (rule registry_all [OF _ d])
       (simp add: operatorRegistry_def windowOp_def lagOp_def corrOp_def recursiveOp_def crossOp_def unaryDef_def binaryDef_def)
  with c show ?thesis by simp
qed

lemma length_csRank: "length (csRank srt vs) = length vs"
  by (simp add: csRank_put)

lemma cs_entry:
  assumes "operatorDef name = Some d" "odCategory d = CatCrossSectional"
  shows "\<exists>f. odCsEval d = Some f \<and> (\<forall>lib vs grp. length (f lib vs grp) = length vs)"
proof -
  have l: "length (csZScore vs) = length vs" "length (csPercentile vs) = length vs"
      "length (globalDemean vs) = length vs" "length (csNeutralize vs grp) = length vs" for vs grp
    by (auto simp: csZScore_def csPercentile_def globalDemean_def csNeutralize_def Let_def split: prod.split option.split)
  have "odCategory d = CatCrossSectional \<longrightarrow>
      (\<exists>f. odCsEval d = Some f \<and> (\<forall>lib vs grp. length (f lib vs grp) = length vs))"
    by (rule registry_all [OF _ assms(1)])
       (simp add: operatorRegistry_def windowOp_def lagOp_def corrOp_def recursiveOp_def crossOp_def unaryDef_def binaryDef_def
         l length_csRank)
  with assms(2) show ?thesis by simp
qed

lemma validated_evaluation:
  "validateNode n path = None \<Longrightarrow> evaluates_or_data p (Evaluate lib p lb n)"
  "validate_args args path i = None \<Longrightarrow>
   (case evaluate_args lib p lb j args of
      Inr rs \<Rightarrow> length rs = length args \<and> (\<forall>r \<in> set rs. fset (fmdom r) = set (GetSymbols p))
    | Inl e \<Rightarrow> data_cause e)"
proof (induction lib p lb n and lib p lb j args arbitrary: path and path i rule: Evaluate_evaluate_args.induct)
  case (1 lib p lookback v)
  then show ?case by (simp add: evaluateLiteral_def)
next
  case (2 lib p lookback name)
  then show ?case
    by (auto simp: evaluateIdentifier_def intro!: for_symbols_evaluates split: sum.splits)
next
  case (3 lib p lookback oper l r)
  from "3.prems" have v: "validateNode l (path @ ''.left'') = None" "validateNode r (path @ ''.right'') = None"
    by (auto split: if_splits option.splits)
  show ?case
  proof (cases "Evaluate lib p lookback l")
    case (Inr left)
    with "3.IH"(2) [OF Inr v(2)] show ?thesis
      by (auto simp: binary_series_def Let_def intro!: for_symbols_evaluates split: sum.split if_splits)
  qed (use "3.IH"(1) [OF v(1)] in auto)
next
  case (4 lib p lookback oper x)
  from "4.prems" have "validateNode x (path @ ''.expr'') = None" by (auto split: if_splits)
  from "4.IH" [OF this] show ?case by (auto split: sum.split)
next
  case (5 lib p lookback name args)
  then obtain d where d: "operatorDef name = Some d" "odCategory d = CatTimeSeries \<or> odCategory d = CatUnary"
      "length args = odArity d" "validate_args args path 0 = None"
    by (auto split: option.splits if_splits)
  then have c: "OperatorCategory name = Some (odCategory d)" by (simp add: OperatorCategory_def)
  with d(2) have "\<not> (OperatorCategory name \<noteq> Some CatTimeSeries \<and> OperatorCategory name \<noteq> Some CatUnary)" by auto
  note ih = "5.IH" [OF this d(4)]
  show ?case
  proof (cases "odCategory d = CatUnary")
    case True
    have hd: "length rs = Suc 0 \<Longrightarrow> hd rs \<in> set rs" for rs :: "f64 list dict list" by (cases rs) auto
    from True unary_entry [OF d(1)] c d(3) ih show ?thesis
      by (cases "evaluate_args lib p lookback 0 args") (simp_all add: hd)
  next
    case False
    with d(2) have ts: "odCategory d = CatTimeSeries" by simp
    then obtain f where "odTsEval d = Some f" by (rule ts_entry [OF d(1)])
    with d ts c ih show ?thesis
      by (auto simp: applyTimeSeriesOp_def intro!: for_symbols_evaluates split: sum.splits)
  qed
next
  case (6 lib p lookback oper x grp)
  then obtain d where d: "operatorDef oper = Some d" "odCategory d = CatCrossSectional"
      "validateNode x (path @ ''.expr'') = None" "\<And>g. grp = Some g \<Longrightarrow> validateNode g (path @ ''.group'') = None"
    by (auto split: option.splits if_splits simp: Let_def)
  then obtain f where f: "odCsEval d = Some f" "\<forall>lib vs grp. length (f lib vs grp) = length vs"
    using cs_entry by blast
  show ?case
  proof (cases "Evaluate lib p lookback x")
    case (Inr vals)
    with d f "6.IH"(2) [OF Inr refl refl _ d(4)] show ?thesis
      by (auto simp: applyCrossSectionalOp_def Let_def cross_result_dom split: option.splits sum.splits)
  qed (use "6.IH"(1) [OF d(3)] in auto)
next
  case (8 lib p lookback j arg args)
  from "8.prems" have v: "validateNode arg (path @ ''.arg['' @ itoa i @ '']'') = None" "validate_args args path (i + 1) = None"
    by (auto split: option.splits)
  show ?case
  proof (cases "Evaluate lib p lookback arg")
    case (Inr r)
    with "8.IH"(1) [OF v(1)] "8.IH"(2) [OF Inr v(2)] show ?thesis by (auto split: sum.splits)
  qed (use "8.IH"(1) [OF v(1)] in auto)
qed simp

end
