(* ===== verification/Expr_Causal.thy ===== *)
theory Expr_Causal
  imports Expr_Eval
begin

text \<open>
  Properties of the evaluator. An entry of the operator table is causal (\<open>ts_causal\<close>) when a series cut
  after \<open>k\<close> entries gives the result cut there, and local (\<open>ts_local\<close>) when its own lookback is enough;
  every entry of the registry is the first, every entry without state the second. By induction over
  the syntax tree the evaluator has no look-ahead, and needs no more history than \<open>DeriveLookback\<close>
  says.
\<close>

section \<open>No later bar\<close>

text \<open>The provider whose series end after \<open>k\<close> entries.\<close>

definition truncated :: "nat \<Rightarrow> DataProvider \<Rightarrow> DataProvider" where
  "truncated k p = p\<lparr>GetField := \<lambda>s field lookback. map_sum id (take k) (GetField p s field lookback)\<rparr>"

definition even_history :: "DataProvider \<Rightarrow> int \<Rightarrow> (symbol \<Rightarrow> nat) \<Rightarrow> bool" where
  "even_history p lookback L \<longleftrightarrow>
     (\<forall>s \<in> set (GetSymbols p). \<forall>field xs. GetField p s field lookback = Inr xs \<longrightarrow> length xs = L s)"

fun no_cross :: "Node \<Rightarrow> bool" where
  "no_cross (LiteralNode v) = True"
| "no_cross (IdentifierNode name) = True"
| "no_cross (BinaryOpNode oper l r) = (no_cross l \<and> no_cross r)"
| "no_cross (UnaryOpNode oper x) = no_cross x"
| "no_cross (FunctionNode name args) = list_all no_cross args"
| "no_cross (CrossSectionalNode oper x grp) = False"

text \<open>What an entry of the table keeps: a series cut after \<open>k\<close> entries gives the result cut there.\<close>

definition ts_causal :: "OperatorDef \<Rightarrow> bool" where
  "ts_causal d \<longleftrightarrow>
     (\<forall>f lib args out L k. odTsEval d = Some f \<longrightarrow> length args = odArity d \<longrightarrow>
        (\<forall>xs \<in> set args. length xs \<in> {0, 1, L}) \<longrightarrow> 2 \<le> k \<longrightarrow> f lib args = Inr out \<longrightarrow>
        f lib (map (take k) args) = Inr (take k out) \<and>
        (length out = 0 \<or> (\<exists>xs \<in> set args. length out = length xs)))"

lemma firstScalar_take: "2 \<le> k \<Longrightarrow> firstScalar (take k xs) = firstScalar xs"
  by (cases xs; cases k) (auto simp: firstScalar_def)

lemma args2: "length args = 2 \<Longrightarrow> \<exists>a b. args = [a, b]"
  by (auto simp: numeral_2_eq_2 length_Suc_conv)

lemma args3: "length args = 3 \<Longrightarrow> \<exists>a b c. args = [a, b, c]"
  by (auto simp: numeral_3_eq_3 length_Suc_conv)

lemma length_ts_window: "length (ts_window f xs w) \<noteq> length xs \<Longrightarrow> ts_window f xs w = []"
  by (simp add: ts_window_def split: if_splits)

lemma length_ts_lag: "length (ts_lag f xs w) \<noteq> length xs \<Longrightarrow> ts_lag f xs w = []"
  by (simp add: ts_lag_def split: if_splits)

lemma length_tsCorr: "length (tsCorr xs ys w) \<noteq> length xs \<Longrightarrow> tsCorr xs ys w = []"
  by (simp add: tsCorr_def split: if_splits)

lemma batch_length:
  "RMABatch xs n = Inr out \<Longrightarrow> length out = length xs"
  "EWMABatch lg xs a = Inr out \<Longrightarrow> length out = length xs"
  "KalmanBatch xs q r = Inr out \<Longrightarrow> length out = length xs"
  by (auto simp: RMABatch_def EWMABatch_def KalmanBatch_def rma.loop_Inr ewma.loop_Inr kalman.loop_Inr split: if_splits)

lemma tsCorr_cut:
  assumes "length xs \<in> {0, 1, L}" "length ys \<in> {0, 1, L}" "2 \<le> k"
  shows "tsCorr (take k xs) (take k ys) w = take k (tsCorr xs ys w)"
proof (cases "length xs = length ys")
  case False
  then have "length (take k xs) \<noteq> length (take k ys)" using assms by (auto simp: min_def)
  with False show ?thesis unfolding tsCorr_def by simp
qed (rule tsCorr_take)

lemma binary_causal:
  assumes "odArity d = 2" "odTsEval d = Some f"
    "\<And>lib a b out. f lib [a, b] = Inr out \<Longrightarrow> length out = 0 \<or> length out = length a"
    "\<And>lib a b out k. f lib [a, b] = Inr out \<Longrightarrow> 2 \<le> k \<Longrightarrow> f lib [take k a, take k b] = Inr (take k out)"
  shows "ts_causal d"
proof -
  have "f lib (map (take k) args) = Inr (take k out) \<and> (length out = 0 \<or> (\<exists>xs \<in> set args. length out = length xs))"
    if "length args = 2" "2 \<le> k" "f lib args = Inr out" for lib args out k
  proof -
    from that(1) obtain a b where "args = [a, b]" by (auto dest!: args2)
    with that assms(3) [of lib a b out] assms(4) [of lib a b out k] show ?thesis by auto
  qed
  then show ?thesis unfolding ts_causal_def assms(1,2) by blast
qed

lemma ternary_causal:
  assumes "odArity d = 3" "odTsEval d = Some f"
    "\<And>lib a b c out. f lib [a, b, c] = Inr out \<Longrightarrow> length out = 0 \<or> length out = length a"
    "\<And>lib a b c out k L. f lib [a, b, c] = Inr out \<Longrightarrow> 2 \<le> k \<Longrightarrow> length a \<in> {0, 1, L} \<Longrightarrow> length b \<in> {0, 1, L} \<Longrightarrow>
       f lib [take k a, take k b, take k c] = Inr (take k out)"
  shows "ts_causal d"
proof -
  have "f lib (map (take k) args) = Inr (take k out) \<and> (length out = 0 \<or> (\<exists>xs \<in> set args. length out = length xs))"
    if "length args = 3" "\<forall>xs \<in> set args. length xs \<in> {0, 1, L}" "2 \<le> k" "f lib args = Inr out" for lib args out L k
  proof -
    from that(1) obtain a b c where "args = [a, b, c]" by (auto dest!: args3)
    with that assms(3) [of lib a b c out] assms(4) [of lib a b c out k L] show ?thesis by auto
  qed
  then show ?thesis unfolding ts_causal_def assms(1,2) by blast
qed

lemma windowOp_causal: "ts_causal (windowOp (ts_window g))"
  by (rule binary_causal)
     (auto simp: windowOp_def ts_window_take firstScalar_take intro: length_ts_window)

lemma lagOp_causal: "ts_causal (lagOp (ts_lag g))"
  by (rule binary_causal)
     (auto simp: lagOp_def ts_lag_take firstScalar_take intro: length_ts_lag)

lemma corrOp_causal: "ts_causal corrOp"
proof (rule ternary_causal)
  let ?f = "\<lambda>_ args. Inr (tsCorr (args ! 0) (args ! 1) (go_int (firstScalar (args ! 2))))"
  show "odArity corrOp = 3" "odTsEval corrOp = Some ?f" by (simp_all add: corrOp_def)
  show "length out = 0 \<or> length out = length a" if "?f lib [a, b, c] = Inr out" for lib :: MathLib and a b c out
    using that by (auto intro: length_tsCorr)
  show "?f lib [take k a, take k b, take k c] = Inr (take k out)"
    if "?f lib [a, b, c] = Inr out" "2 \<le> k" "length a \<in> {0, 1, L}" "length b \<in> {0, 1, L}" for lib :: MathLib and a b c out k L
    using that(1) tsCorr_cut [OF that(3,4,2)] firstScalar_take [OF that(2)] by simp
qed

lemma recursiveOp_causal:
  "ts_causal (recursiveOp [1] rmaSelfWarmup (\<lambda>_ args. RMABatch (args ! 0) (go_int (firstScalar (args ! 1)))))"
  "ts_causal (recursiveOp [1] ewmaSelfWarmup (\<lambda>lib args. EWMABatch (libLog lib) (args ! 0) (firstScalar (args ! 1))))"
  "ts_causal (recursiveOp [1, 2] kalmanSelfWarmup
     (\<lambda>_ args. KalmanBatch (args ! 0) (firstScalar (args ! 1)) (firstScalar (args ! 2))))"
  subgoal by (rule binary_causal) (auto simp: recursiveOp_def firstScalar_take RMABatch_take dest: batch_length)
  subgoal by (rule binary_causal) (auto simp: recursiveOp_def firstScalar_take EWMABatch_take dest: batch_length)
  subgoal
  proof (rule ternary_causal)
    let ?f = "\<lambda>_ args. KalmanBatch (args ! 0) (firstScalar (args ! 1)) (firstScalar (args ! 2))"
    show "?f lib [take k a, take k b, take k c] = Inr (take k out)"
      if "?f lib [a, b, c] = Inr out" "2 \<le> k" for lib :: MathLib and a b c out k
      using that by (simp add: firstScalar_take KalmanBatch_take)
  qed (auto simp: recursiveOp_def dest: batch_length)
  done

lemma other_causal: "ts_causal (crossOp a f)" "ts_causal unaryDef" "ts_causal binaryDef"
  by (simp_all add: ts_causal_def crossOp_def unaryDef_def binaryDef_def)

lemma registry_causal: "operatorDef name = Some d \<Longrightarrow> ts_causal d"
  by (rule registry_all [of "\<lambda>_ d. ts_causal d"])
     (simp add: operatorRegistry_def tsMean_def tsStd_def tsSum_def tsMax_def tsMin_def tsRank_def tsDelay_def tsDelta_def
       tsPctChange_def windowOp_causal lagOp_causal corrOp_causal recursiveOp_causal [simplified] other_causal)

lemma series_fmmap: "series (fmmap (take k) m) s = take k (series m s)"
  by (simp add: series_def split: option.split)

definition shaped :: "DataProvider \<Rightarrow> (symbol \<Rightarrow> nat) \<Rightarrow> f64 list dict \<Rightarrow> bool" where
  "shaped p L m \<longleftrightarrow> (\<forall>s \<in> set (GetSymbols p). length (series m s) \<in> {0, 1, L s})"

lemma shaped_for_symbols:
  "for_symbols f (GetSymbols p) fmempty = Inr r \<Longrightarrow>
   (\<And>s xs. s \<in> set (GetSymbols p) \<Longrightarrow> f s = Inr xs \<Longrightarrow> length xs \<in> {0, 1, L s}) \<Longrightarrow> shaped p L r"
  unfolding shaped_def by (blast dest: for_symbols_series)

lemma broadcast_take:
  assumes "2 \<le> k" "length xs \<le> n"
  shows "broadcast (take k xs) (min k n) = take k (broadcast xs n)"
proof (cases "length xs = 1")
  case True
  then obtain x where "xs = [x]" by (auto simp: length_Suc_conv)
  with assms show ?thesis by (auto simp: broadcast_def take_Cons' min_def)
next
  case False
  then have "length (take k xs) \<noteq> 1" using assms(1) by simp
  with False show ?thesis unfolding broadcast_def by auto
qed

lemma length_broadcast: "length xs \<le> n \<Longrightarrow> length (broadcast xs n) = (if length xs = 1 then max n 1 else length xs)"
  by (auto simp: broadcast_def)

lemma binary_series_take:
  assumes "binary_series lib oper s l r = Inr out" "length l \<in> {0, 1, L}" "length r \<in> {0, 1, L}" "2 \<le> k"
  shows "binary_series lib oper s (take k l) (take k r) = Inr (take k out)" "length out \<in> {0, 1, L}"
proof -
  let ?n = "max (length l) (length r)"
  have n: "max (min (length l) k) (min (length r) k) = min k ?n" by (simp add: min_def max_def)
  have b: "broadcast (take k l) (min k ?n) = take k (broadcast l ?n)" "broadcast (take k r) (min k ?n) = take k (broadcast r ?n)"
    using assms(4) by (simp_all add: broadcast_take)
  have len: "length (broadcast l ?n) = length (broadcast r ?n)"
      and out: "out = map2 (applyBinaryOp lib oper) (broadcast l ?n) (broadcast r ?n)"
    using assms(1) by (simp_all add: binary_series_def Let_def split: if_splits)
  show "binary_series lib oper s (take k l) (take k r) = Inr (take k out)"
    by (simp add: binary_series_def Let_def n b len out take_map take_zip)
  show "length out \<in> {0, 1, L}"
    using assms(2,3) len by (auto simp: out length_broadcast max_def split: if_splits)
qed

lemma truncated_symbols [simp]: "GetSymbols (truncated k p) = GetSymbols p"
  by (simp add: truncated_def)

lemma fmmap_fold:
  "fmmap h (fold (\<lambda>s. fmupd s (g s)) ss m) = fold (\<lambda>s. fmupd s (h (g s))) ss (fmmap h m)"
  by (induction ss arbitrary: m) simp_all

lemma fold_cong_series:
  "(\<And>s. s \<in> set ss \<Longrightarrow> g s = g' s) \<Longrightarrow> fold (\<lambda>s. fmupd s (g s)) ss m = fold (\<lambda>s. fmupd s (g' s)) ss m"
  by (rule fold_cong) auto

lemma applyTimeSeriesOp_take:
  assumes "applyTimeSeriesOp lib name s args = Inr out" "\<forall>xs \<in> set args. length xs \<in> {0, 1, L}" "2 \<le> k"
  shows "applyTimeSeriesOp lib name s (map (take k) args) = Inr (take k out)" "length out \<in> {0, 1, L}"
proof -
  from assms(1) obtain d f where d: "operatorDef name = Some d" "odCategory d = CatTimeSeries" "odTsEval d = Some f"
      "length args = odArity d" "f lib args = Inr out"
    by (auto simp: applyTimeSeriesOp_def split: option.splits if_splits sum.splits)
  with registry_causal [OF d(1)] assms(2,3)
  have c: "f lib (map (take k) args) = Inr (take k out)" "length out = 0 \<or> (\<exists>xs \<in> set args. length out = length xs)"
    unfolding ts_causal_def by blast+
  from d c(1) show "applyTimeSeriesOp lib name s (map (take k) args) = Inr (take k out)" by (simp add: applyTimeSeriesOp_def)
  from c(2) assms(2) show "length out \<in> {0, 1, L}" by auto
qed

lemma binary_cut:
  assumes e: "for_symbols (\<lambda>s. binary_series lib oper s (series left s) (series right s)) (GetSymbols p) fmempty = Inr res"
    and sh: "shaped p L left" "shaped p L right" and k: "2 \<le> k"
  shows "for_symbols (\<lambda>s. binary_series lib oper s (series (fmmap (take k) left) s) (series (fmmap (take k) right) s))
      (GetSymbols p) fmempty = Inr (fmmap (take k) res)" "shaped p L res"
proof -
  have b: "binary_series lib oper s (take k (series left s)) (take k (series right s)) = Inr (take k xs)"
      "length xs \<in> {0, 1, L s}"
    if "s \<in> set (GetSymbols p)" "binary_series lib oper s (series left s) (series right s) = Inr xs" for s xs
    using binary_series_take [OF that(2) _ _ k, of "L s"] sh that(1) unfolding shaped_def by blast+
  have "for_symbols (\<lambda>s. binary_series lib oper s (series (fmmap (take k) left) s) (series (fmmap (take k) right) s))
      (GetSymbols p) (fmmap (take k) fmempty) = Inr (fmmap (take k) res)"
    by (rule for_symbols_map [OF _ e]) (simp add: series_fmmap b)
  then show "for_symbols (\<lambda>s. binary_series lib oper s (series (fmmap (take k) left) s) (series (fmmap (take k) right) s))
      (GetSymbols p) fmempty = Inr (fmmap (take k) res)" by simp
  show "shaped p L res" by (rule shaped_for_symbols [OF e]) (rule b)
qed

lemma unary_cut: "shaped p L m \<Longrightarrow> shaped p L (fmmap (map f) m)"
    "fmmap (map f) (fmmap (take k) m) = fmmap (take k) (fmmap (map f) m)"
proof -
  show "shaped p L m \<Longrightarrow> shaped p L (fmmap (map f) m)" by (auto simp: shaped_def series_def split: option.splits)
  show "fmmap (map f) (fmmap (take k) m) = fmmap (take k) (fmmap (map f) m)"
    by (rule fmap_ext) (simp add: option.map_comp comp_def take_map)
qed

lemma time_series_cut:
  assumes r: "for_symbols (\<lambda>s. applyTimeSeriesOp lib name s (map (\<lambda>m. series m s) results)) (GetSymbols p) fmempty = Inr res"
    and sh: "\<forall>m \<in> set results. shaped p L m" and k: "2 \<le> k"
  shows "for_symbols (\<lambda>s. applyTimeSeriesOp lib name s (map (\<lambda>m. series m s) (map (fmmap (take k)) results)))
        (GetSymbols p) fmempty = Inr (fmmap (take k) res)" "shaped p L res"
proof -
  have b: "applyTimeSeriesOp lib name s (map (take k) (map (\<lambda>m. series m s) results)) = Inr (take k xs)"
      "length xs \<in> {0, 1, L s}"
    if "s \<in> set (GetSymbols p)" "applyTimeSeriesOp lib name s (map (\<lambda>m. series m s) results) = Inr xs" for s xs
    using applyTimeSeriesOp_take [OF that(2) _ k, of "L s"] sh that(1) unfolding shaped_def by auto
  have "for_symbols (\<lambda>s. applyTimeSeriesOp lib name s (map (\<lambda>m. series m s) (map (fmmap (take k)) results)))
      (GetSymbols p) (fmmap (take k) fmempty) = Inr (fmmap (take k) res)"
    by (rule for_symbols_map [OF _ r]) (use b in \<open>simp add: series_fmmap comp_def\<close>)
  then show "for_symbols (\<lambda>s. applyTimeSeriesOp lib name s (map (\<lambda>m. series m s) (map (fmmap (take k)) results)))
      (GetSymbols p) fmempty = Inr (fmmap (take k) res)" by simp
  show "shaped p L res" by (rule shaped_for_symbols [OF r]) (rule b)
qed

lemma evaluate_cut:
  assumes k: "2 \<le> k"
  shows "Evaluate lib p lb n = Inr res \<Longrightarrow> even_history p lb L \<Longrightarrow> no_cross n \<Longrightarrow>
      Evaluate lib (truncated k p) lb n = Inr (fmmap (take k) res) \<and> shaped p L res"
    and "evaluate_args lib p lb j args = Inr rs \<Longrightarrow> even_history p lb L \<Longrightarrow> list_all no_cross args \<Longrightarrow>
      evaluate_args lib (truncated k p) lb j args = Inr (map (fmmap (take k)) rs) \<and> (\<forall>r \<in> set rs. shaped p L r)"
proof (induction lib p lb n and lib p lb j args arbitrary: res and rs rule: Evaluate_evaluate_args.induct)
  case (1 lib p lookback v)
  then show ?case using k
    by (auto simp: evaluateLiteral_def fmmap_fold take_Cons' shaped_def series_def fmlookup_fold)
next
  case (2 lib p lookback name)
  then have r: "for_symbols (\<lambda>s. case GetField p s name lookback of Inl e \<Rightarrow> Inl (FieldError name s e) | Inr xs \<Rightarrow> Inr xs)
       (GetSymbols p) fmempty = Inr res" by (simp add: evaluateIdentifier_def)
  have "shaped p L res"
    by (rule shaped_for_symbols [OF r]) (use 2 in \<open>auto simp: even_history_def split: sum.splits\<close>)
  moreover have "for_symbols (\<lambda>s. case GetField (truncated k p) s name lookback of
          Inl e \<Rightarrow> Inl (FieldError name s e) | Inr xs \<Rightarrow> Inr xs)
       (GetSymbols p) (fmmap (take k) fmempty) = Inr (fmmap (take k) res)"
    by (rule for_symbols_map [OF _ r]) (auto simp: truncated_def split: sum.splits)
  ultimately show ?case by (simp add: evaluateIdentifier_def)
next
  case (3 lib p lookback oper l r)
  from "3.prems" obtain left right where e: "Evaluate lib p lookback l = Inr left" "Evaluate lib p lookback r = Inr right"
      "for_symbols (\<lambda>s. binary_series lib oper s (series left s) (series right s)) (GetSymbols p) fmempty = Inr res"
    by (auto split: sum.splits)
  from "3.prems" have nc: "no_cross l" "no_cross r" by auto
  note l = "3.IH"(1) [OF e(1) "3.prems"(2) nc(1)] and r = "3.IH"(2) [OF e(1,2) "3.prems"(2) nc(2)]
  with binary_cut [OF e(3) _ _ k, of L] show ?case by simp
next
  case (4 lib p lookback oper x)
  from "4.prems" obtain vals where e: "Evaluate lib p lookback x = Inr vals"
      "res = fold (\<lambda>s. fmupd s (map (applyUnaryOp lib oper) (series vals s))) (GetSymbols p) fmempty"
    by (auto split: sum.splits)
  with "4.IH" [OF e(1) "4.prems"(2)] "4.prems"(3) show ?case
    by (auto simp: fmmap_fold series_fmmap take_map shaped_def series_def [of "fold _ _ _"] fmlookup_fold)
next
  case (5 lib p lookback name args)
  from "5.prems" have c: "\<not> (OperatorCategory name \<noteq> Some CatTimeSeries \<and> OperatorCategory name \<noteq> Some CatUnary)"
    by (auto split: if_splits)
  from c "5.prems"(1) obtain results where e: "evaluate_args lib p lookback 0 args = Inr results"
    by (auto split: sum.splits if_splits)
  from "5.prems"(3) have "list_all no_cross args" by simp
  note ih = "5.IH" [OF c e "5.prems"(2) this]
  show ?case
  proof (cases "OperatorCategory name = Some CatUnary")
    case True
    with e "5.prems"(1) have r: "length results = 1" "res = fmmap (map (applyUnaryOp lib name)) (hd results)"
      by (auto split: if_splits)
    then obtain m where "results = [m]" by (auto simp: length_Suc_conv)
    with True ih r show ?thesis by (simp add: unary_cut)
  next
    case False
    with c e "5.prems"(1) time_series_cut [OF _ _ k, of lib name results p res L] ih show ?thesis by simp
  qed
next
  case (8 lib p lookback j arg args)
  from "8.prems" obtain r rs' where e: "Evaluate lib p lookback arg = Inr r" "evaluate_args lib p lookback (j + 1) args = Inr rs'"
      "rs = r # rs'" by (auto split: sum.splits)
  with "8.IH"(1) [OF e(1) "8.prems"(2)] "8.IH"(2) [OF e(1,2) "8.prems"(2)] "8.prems"(3) show ?case by simp
qed simp_all

section \<open>No bar before the lookback\<close>

definition provider_agree :: "nat \<Rightarrow> int \<Rightarrow> DataProvider \<Rightarrow> DataProvider \<Rightarrow> bool" where
  "provider_agree m lookback p q \<longleftrightarrow> GetSymbols p = GetSymbols q \<and>
     (\<forall>s \<in> set (GetSymbols p). \<forall>field. rel_sum (=) (agree m) (GetField p s field lookback) (GetField q s field lookback))"

text \<open>The windows, lags and other parameters are written as literals.\<close>

fun literal_params :: "Node \<Rightarrow> bool" where
  "literal_params (LiteralNode v) = True"
| "literal_params (IdentifierNode name) = True"
| "literal_params (BinaryOpNode oper l r) = (literal_params l \<and> literal_params r)"
| "literal_params (UnaryOpNode oper x) = literal_params x"
| "literal_params (FunctionNode name args) =
     (list_all literal_params args \<and>
      (case operatorDef name of
         None \<Rightarrow> True
       | Some d \<Rightarrow> list_all (\<lambda>i. literalFloatAt args i \<noteq> None) (odScalarParams d)))"
| "literal_params (CrossSectionalNode oper x grp) =
     (literal_params x \<and> (case grp of None \<Rightarrow> True | Some g \<Rightarrow> literal_params g))"

lemma provider_agree_mono: "provider_agree n lb p q \<Longrightarrow> m \<le> n \<Longrightarrow> provider_agree m lb p q"
  unfolding provider_agree_def by (blast intro: agree_mono sum.rel_mono_strong)

text \<open>What an entry of the table without state keeps: its own lookback is enough.\<close>

definition ts_local :: "OperatorDef \<Rightarrow> bool" where
  "ts_local d \<longleftrightarrow> odState d \<or> odCategory d \<noteq> CatTimeSeries \<or>
     (\<exists>f g. odTsEval d = Some f \<and> odSelfLookback d = Some g \<and>
       (\<forall>nodes. 0 \<le> g nodes) \<and>
       (\<forall>lib m nodes args args'. length nodes = odArity d \<longrightarrow>
          list_all2 (agree (m + nat (g nodes))) args args' \<longrightarrow> length args = odArity d \<longrightarrow>
          (\<forall>i \<in> set (odScalarParams d). \<exists>v. literalFloatAt nodes i = Some v \<and> args ! i = [v] \<and> args' ! i = [v]) \<longrightarrow>
          rel_sum (=) (agree m) (f lib args) (f lib args')))"

lemma binary_local:
  assumes "odArity d = 2" "odScalarParams d = [1]" "odTsEval d = Some f" "odSelfLookback d = Some g" "\<And>nodes. 0 \<le> g nodes"
    "\<And>lib m nodes a a' v. literalFloatAt nodes 1 = Some v \<Longrightarrow> agree (m + nat (g nodes)) a a' \<Longrightarrow>
       rel_sum (=) (agree m) (f lib [a, [v]]) (f lib [a', [v]])"
  shows "ts_local d"
proof -
  have "rel_sum (=) (agree m) (f lib args) (f lib args')"
    if "list_all2 (agree (m + nat (g nodes))) args args'" "length args = 2" "literalFloatAt nodes 1 = Some v"
      "args ! 1 = [v]" "args' ! 1 = [v]" for lib m nodes args args' v
  proof -
    from that(2) obtain a b where args: "args = [a, b]" by (auto dest!: args2)
    with that(1) obtain a' b' where "args' = [a', b']" by (auto simp: list_all2_Cons1)
    with args that assms(6) [OF that(3)] show ?thesis by simp
  qed
  then show ?thesis unfolding ts_local_def using assms(1-5) by auto
qed

lemma corr_local:
  assumes "odArity d = 3" "odScalarParams d = [2]" "odTsEval d = Some f" "odSelfLookback d = Some g" "\<And>nodes. 0 \<le> g nodes"
    "\<And>lib m nodes a a' b b' v. literalFloatAt nodes 2 = Some v \<Longrightarrow> agree (m + nat (g nodes)) a a' \<Longrightarrow>
       agree (m + nat (g nodes)) b b' \<Longrightarrow> rel_sum (=) (agree m) (f lib [a, b, [v]]) (f lib [a', b', [v]])"
  shows "ts_local d"
proof -
  have "rel_sum (=) (agree m) (f lib args) (f lib args')"
    if "list_all2 (agree (m + nat (g nodes))) args args'" "length args = 3" "literalFloatAt nodes 2 = Some v"
      "args ! 2 = [v]" "args' ! 2 = [v]" for lib m nodes args args' v
  proof -
    from that(2) obtain a b c where args: "args = [a, b, c]" by (auto dest!: args3)
    with that(1) obtain a' b' c' where "args' = [a', b', c']" by (auto simp: list_all2_Cons1)
    with args that assms(6) [OF that(3)] show ?thesis by simp
  qed
  then show ?thesis unfolding ts_local_def using assms(1-5) by auto
qed

lemma lookback_nonneg: "0 \<le> windowSelfLookbackAt nodes i" "0 \<le> periodSelfAt nodes i"
  by (auto simp: windowSelfLookbackAt_def periodSelfAt_def split: option.split)

lemma window_lookback:
  "literalFloatAt nodes i = Some v \<Longrightarrow> nat (windowSelfLookbackAt nodes i) = nat (go_int v - 1)"
  "literalFloatAt nodes i = Some v \<Longrightarrow> nat (periodSelfAt nodes i) = nat (go_int v)"
  by (simp_all add: windowSelfLookbackAt_def periodSelfAt_def literalIntAt_def)

lemma windowOp_local: "ts_local (windowOp (ts_window h))"
  by (rule binary_local)
     (auto simp: windowOp_def lookback_nonneg window_lookback firstScalar_def intro: ts_window_agree)

lemma lagOp_local: "ts_local (lagOp (ts_lag h))"
  by (rule binary_local)
     (auto simp: lagOp_def lookback_nonneg window_lookback firstScalar_def intro: ts_lag_agree)

lemma corrOp_local: "ts_local corrOp"
  by (rule corr_local)
     (auto simp: corrOp_def lookback_nonneg window_lookback firstScalar_def intro: tsCorr_agree)

lemma other_local: "ts_local (recursiveOp scalars warm f)" "ts_local (crossOp n c)" "ts_local unaryDef" "ts_local binaryDef"
  by (simp_all add: ts_local_def recursiveOp_def crossOp_def unaryDef_def binaryDef_def)

lemma registry_local: "operatorDef name = Some d \<Longrightarrow> ts_local d"
  by (rule registry_all [of "\<lambda>_ d. ts_local d"])
     (simp add: operatorRegistry_def tsMean_def tsStd_def tsSum_def tsMax_def tsMin_def tsRank_def tsDelay_def tsDelta_def
       tsPctChange_def windowOp_local lagOp_local corrOp_local other_local)

lemma agree_one: "agree m xs ys \<Longrightarrow> length xs = 1 \<Longrightarrow> 0 < m \<Longrightarrow> xs = ys"
  by (cases xs; cases ys) (auto simp: agree_def)

lemma broadcast_agree: "agree m xs ys \<Longrightarrow> 0 < m \<Longrightarrow> agree m (broadcast xs n) (broadcast ys n)"
  using agree_one [of m xs ys] by (auto simp: broadcast_def) (auto simp: agree_def)

lemma binary_series_agree:
  assumes "agree m l l'" "agree m r r'" "0 < m"
  shows "rel_sum (=) (agree m) (binary_series lib oper s l r) (binary_series lib oper s l' r')"
proof -
  let ?n = "max (length l) (length r)"
  have n: "max (length l') (length r') = ?n" using assms by (simp add: agree_def)
  have b: "agree m (broadcast l ?n) (broadcast l' ?n)" "agree m (broadcast r ?n) (broadcast r' ?n)"
    using assms by (auto intro: broadcast_agree)
  then have "length (broadcast l ?n) = length (broadcast l' ?n)" "length (broadcast r ?n) = length (broadcast r' ?n)"
    by (simp_all add: agree_def)
  then show ?thesis
    by (auto simp: binary_series_def Let_def n intro!: agree_map agree_zip b)
qed

lemma latest_agree: "agree m xs ys \<Longrightarrow> 0 < m \<Longrightarrow> latest xs = latest ys"
  using agree_last [of "m - 1" xs ys] by (auto simp: latest_def agree_def)

lemma agree_Nil [simp]: "agree m [] []"
  by simp

lemma literal_series: "Evaluate lib p lb (LiteralNode v) = Inr r \<Longrightarrow> s \<in> set (GetSymbols p) \<Longrightarrow> series r s = [v]"
  by (auto simp: evaluateLiteral_def series_def fmlookup_fold)

lemma evaluate_args_nth:
  "evaluate_args lib p lb j args = Inr rs \<Longrightarrow> length rs = length args \<and> (\<forall>i < length args. Evaluate lib p lb (args ! i) = Inr (rs ! i))"
  by (induction args arbitrary: j rs) (auto simp: nth_Cons split: sum.splits nat.splits)

lemma literal_arg_series:
  assumes "evaluate_args lib p lb j args = Inr rs" "literalFloatAt args i = Some v" "s \<in> set (GetSymbols p)"
  shows "i < length rs" "series (rs ! i) s = [v]"
proof -
  from assms(2) have i: "i < length args" "args ! i = LiteralNode v"
    by (auto simp: literalFloatAt_def split: if_splits Node.splits)
  with evaluate_args_nth [OF assms(1)] show "i < length rs" "series (rs ! i) s = [v]"
    using literal_series [of lib p lb v "rs ! i" s] assms(3) by auto
qed

lemma series_agree: "fmrel (agree m) r r' \<Longrightarrow> agree m (series r s) (series r' s)"
  by (rule fmrel_series) simp_all

lemma time_series_agree:
  assumes d: "operatorDef name = Some d" "odCategory d = CatTimeSeries" "\<not> odState d" "odSelfLookback d = Some g"
    and lit: "list_all (\<lambda>i. literalFloatAt args i \<noteq> None) (odScalarParams d)"
    and ev: "evaluate_args lib p lb 0 args = Inr rs" "evaluate_args lib q lb 0 args = Inr rs'"
    and ag: "list_all2 (fmrel (agree (m + (if length args = odArity d then nat (g args) else 0)))) rs rs'"
    and s: "s \<in> set (GetSymbols p)" "GetSymbols p = GetSymbols q"
  shows "rel_sum (=) (agree m) (applyTimeSeriesOp lib name s (map (\<lambda>m. series m s) rs))
           (applyTimeSeriesOp lib name s (map (\<lambda>m. series m s) rs'))"
proof -
  have len: "length rs = length args" "length rs' = length args" using ev by (auto dest: evaluate_args_nth)
  from registry_local [OF d(1)] d obtain f where f: "odTsEval d = Some f"
    "\<And>m args'. length args = odArity d \<Longrightarrow> list_all2 (agree (m + nat (g args))) args' args'' \<Longrightarrow> length args' = odArity d \<Longrightarrow>
       (\<forall>i \<in> set (odScalarParams d). \<exists>v. literalFloatAt args i = Some v \<and> args' ! i = [v] \<and> args'' ! i = [v]) \<Longrightarrow>
       rel_sum (=) (agree m) (f lib args') (f lib args'')" for args''
    unfolding ts_local_def by auto
  show ?thesis
  proof (cases "length args = odArity d")
    case True
    have "rel_sum (=) (agree m) (f lib (map (\<lambda>m. series m s) rs)) (f lib (map (\<lambda>m. series m s) rs'))"
    proof (rule f(2) [OF True])
      show "list_all2 (agree (m + nat (g args))) (map (\<lambda>m. series m s) rs) (map (\<lambda>m. series m s) rs')"
        using ag True by (auto simp: list_all2_map1 list_all2_map2 elim!: list_all2_mono intro: series_agree)
      show "\<forall>i \<in> set (odScalarParams d). \<exists>v. literalFloatAt args i = Some v \<and>
          map (\<lambda>m. series m s) rs ! i = [v] \<and> map (\<lambda>m. series m s) rs' ! i = [v]"
        using lit literal_arg_series [OF ev(1) _ s(1)] literal_arg_series [OF ev(2)] s by (fastforce simp: list_all_iff)
    qed (simp add: len True)
    with d f(1) len True show ?thesis
      by (auto simp: applyTimeSeriesOp_def rel_sum.simps split: sum.split)
  next
    case False
    with d f(1) len show ?thesis by (simp add: applyTimeSeriesOp_def)
  qed
qed

lemma rel_sum_cases:
  assumes "rel_sum (=) R x y"
  obtains e where "x = Inl e" "y = Inl e" | a b where "x = Inr a" "y = Inr b" "R a b"
  using assms by (cases rule: rel_sum.cases) auto

lemma fmrel_fold:
  "(\<And>s. s \<in> set ss \<Longrightarrow> R (g s) (h s)) \<Longrightarrow> fmrel R m m' \<Longrightarrow>
   fmrel R (fold (\<lambda>s. fmupd s (g s)) ss m) (fold (\<lambda>s. fmupd s (h s)) ss m')"
  by (induction ss arbitrary: m m') (simp_all add: fmrel_upd)

lemma fmrel_same: "fmrel (agree m) r r"
  by (rule fmap.rel_refl) simp

text \<open>The lookback of a call: that of its arguments, and its own where it has one.\<close>

lemma self_lookback_nonneg:
  assumes "operatorDef name = Some d" "odSelfLookback d = Some g"
  shows "0 \<le> g args"
proof -
  have "\<forall>g args. odSelfLookback d = Some g \<longrightarrow> 0 \<le> g args"
    by (rule registry_all [OF _ assms(1)])
       (simp add: operatorRegistry_def windowOp_def lagOp_def corrOp_def recursiveOp_def crossOp_def unaryDef_def binaryDef_def
         lookback_nonneg stateSelfLookback_def)
  with assms(2) show ?thesis by blast
qed

lemma call_lookback:
  assumes "operatorDef name = Some d" "nat (fst (DeriveLookback (FunctionNode name args))) + m \<le> N"
    and "\<not> snd (DeriveLookback (FunctionNode name args))"
  defines "k \<equiv> case odSelfLookback d of None \<Rightarrow> 0 | Some g \<Rightarrow> if length args = odArity d then nat (g args) else 0"
  shows "\<not> odState d" "list_all (\<lambda>a. nat (fst (DeriveLookback a)) + (m + k) \<le> N \<and> \<not> snd (DeriveLookback a)) args"
proof -
  have bars: "fst (DeriveLookback a) \<le> running_max (map (fst \<circ> DeriveLookback) args)" if "a \<in> set args" for a
    using that running_max_upper(1) [of "(fst \<circ> DeriveLookback) a" "map (fst \<circ> DeriveLookback) args"] by simp
  show "\<not> odState d" using assms by (simp add: Let_def split: option.splits)
  have "running_max (map (fst \<circ> DeriveLookback) args) + int (m + k) \<le> int N"
    using assms(1,2) running_max_upper(2) [of "map (fst \<circ> DeriveLookback) args"] self_lookback_nonneg [OF assms(1), of _ args]
    by (auto simp: k_def Let_def comp_def split: option.splits if_splits)
  moreover have "\<not> snd (DeriveLookback a)" if "a \<in> set args" for a
    using assms(1,3) that by (auto simp: Let_def list_ex_iff split: option.splits)
  ultimately show "list_all (\<lambda>a. nat (fst (DeriveLookback a)) + (m + k) \<le> N \<and> \<not> snd (DeriveLookback a)) args"
    using bars running_max_upper(2) [of "map (fst \<circ> DeriveLookback) args"] by (fastforce simp: list_all_iff)
qed

lemma unary_agree: "fmrel (agree (m + k)) r r' \<Longrightarrow> fmrel (agree m) (fmmap (map f) r) (fmmap (map f) r')"
proof -
  have "agree (m + k) xs ys \<Longrightarrow> agree m (map f xs) (map f ys)" for xs ys
    by (rule agree_map, rule agree_mono) auto
  then show "fmrel (agree (m + k)) r r' \<Longrightarrow> ?thesis"
    unfolding fmrel_iff fmlookup_map option.rel_map by (blast intro: option.rel_mono_strong)
qed

lemma unary_hd_agree:
  "list_all2 (fmrel (agree (m + k))) rs rs' \<Longrightarrow> length rs = 1 \<Longrightarrow>
   rel_sum (=) (fmrel (agree m)) (Inr (fmmap (map f) (hd rs))) (Inr (fmmap (map f) (hd rs')))"
  by (auto simp: length_Suc_conv list_all2_Cons1 intro!: unary_agree [of m k])

lemma binary_agree:
  assumes "fmrel (agree m) left left'" "fmrel (agree m) right right'" "0 < m"
  shows "rel_sum (=) (fmrel (agree m))
          (for_symbols (\<lambda>s. binary_series lib oper s (series left s) (series right s)) ss fmempty)
          (for_symbols (\<lambda>s. binary_series lib oper s (series left' s) (series right' s)) ss fmempty)"
  by (intro for_symbols_rel binary_series_agree series_agree assms) simp_all

lemma latest_series: "fmrel (agree m) r r' \<Longrightarrow> 0 < m \<Longrightarrow> latest (series r s) = latest (series r' s)"
  by (auto intro: latest_agree series_agree)

lemma same_outcome: "rel_sum (=) (fmrel (agree m)) z z"
  by (cases z) (simp_all add: fmrel_same)

lemma lookback_agree:
  shows "\<not> snd (DeriveLookback n) \<Longrightarrow> nat (fst (DeriveLookback n)) + m \<le> N \<Longrightarrow> literal_params n \<Longrightarrow> 0 < m \<Longrightarrow>
      provider_agree N lb p q \<Longrightarrow> rel_sum (=) (fmrel (agree m)) (Evaluate lib p lb n) (Evaluate lib q lb n)"
    and "list_all (\<lambda>a. nat (fst (DeriveLookback a)) + m \<le> N \<and> \<not> snd (DeriveLookback a)) args \<Longrightarrow>
      list_all literal_params args \<Longrightarrow> 0 < m \<Longrightarrow> provider_agree N lb p q \<Longrightarrow>
      rel_sum (=) (list_all2 (fmrel (agree m))) (evaluate_args lib p lb j args) (evaluate_args lib q lb j args)"
proof (induction lib p lb n and lib p lb j args arbitrary: m and m rule: Evaluate_evaluate_args.induct)
  case (1 lib p lookback v)
  then show ?case by (simp add: evaluateLiteral_def provider_agree_def fmrel_same)
next
  case (2 lib p lookback name)
  have "rel_sum (=) (agree m)
      (case GetField p s name lookback of Inl e \<Rightarrow> Inl (FieldError name s e) | Inr xs \<Rightarrow> Inr xs)
      (case GetField q s name lookback of Inl e \<Rightarrow> Inl (FieldError name s e) | Inr xs \<Rightarrow> Inr xs)"
    if "s \<in> set (GetSymbols p)" for s
  proof -
    from "2.prems" that have "rel_sum (=) (agree N) (GetField p s name lookback) (GetField q s name lookback)"
      by (auto simp: provider_agree_def)
    then show ?thesis by (cases rule: rel_sum_cases) (use "2.prems"(2) in \<open>auto intro: agree_mono\<close>)
  qed
  with "2.prems"(5) show ?case
    unfolding Evaluate.simps evaluateIdentifier_def provider_agree_def by (auto intro!: for_symbols_rel)
next
  case (3 lib p lookback oper l r)
  from "3.prems" have l: "rel_sum (=) (fmrel (agree m)) (Evaluate lib p lookback l) (Evaluate lib q lookback l)"
    by (intro "3.IH"(1)) (auto simp: case_prod_beta Let_def)
  then show ?case
  proof (cases rule: rel_sum_cases)
    case (2 left left')
    from "3.prems" have "rel_sum (=) (fmrel (agree m)) (Evaluate lib p lookback r) (Evaluate lib q lookback r)"
      by (intro "3.IH"(2) [OF 2(1)]) (auto simp: case_prod_beta Let_def)
    then show ?thesis
    proof (cases rule: rel_sum_cases)
      case R: (2 right right')
      from "3.prems" have "GetSymbols q = GetSymbols p" by (simp add: provider_agree_def)
      with 2 R binary_agree [OF 2(3) R(3) "3.prems"(4)] show ?thesis by simp
    qed (use 2 in simp)
  qed simp
next
  case (4 lib p lookback oper x)
  then have "rel_sum (=) (fmrel (agree m)) (Evaluate lib p lookback x) (Evaluate lib q lookback x)" by simp
  moreover from "4.prems" have "GetSymbols q = GetSymbols p" by (simp add: provider_agree_def)
  ultimately show ?case
    by (cases rule: rel_sum_cases) (auto intro!: fmrel_fold agree_map series_agree)
next
  case (5 lib p lookback name args)
  from "5.prems"(5) have sy: "GetSymbols q = GetSymbols p" by (simp add: provider_agree_def)
  show ?case
  proof (cases "OperatorCategory name \<noteq> Some CatTimeSeries \<and> OperatorCategory name \<noteq> Some CatUnary")
    case False
    then obtain d where d: "operatorDef name = Some d" by (auto simp: OperatorCategory_def)
    define k where "k = (case odSelfLookback d of None \<Rightarrow> 0 | Some g \<Rightarrow> if length args = odArity d then nat (g args) else 0)"
    note cl = call_lookback [OF d "5.prems"(2,1), folded k_def]
    have "rel_sum (=) (list_all2 (fmrel (agree (m + k)))) (evaluate_args lib p lookback 0 args) (evaluate_args lib q lookback 0 args)"
      by (rule "5.IH" [OF False cl(2)]) (use "5.prems"(3-5) in auto)
    then show ?thesis
    proof (cases rule: rel_sum_cases)
      case (2 rs rs')
      have ts: "rel_sum (=) (agree m) (applyTimeSeriesOp lib name s (map (\<lambda>m. series m s) rs))
           (applyTimeSeriesOp lib name s (map (\<lambda>m. series m s) rs'))"
        if "odCategory d = CatTimeSeries" "s \<in> set (GetSymbols p)" for s
      proof -
        from registry_local [OF d] that(1) cl(1) obtain g where g: "odSelfLookback d = Some g" by (auto simp: ts_local_def)
        show ?thesis
          by (rule time_series_agree [OF d that(1) cl(1) g _ 2(1,2) _ that(2) sy [symmetric]])
             (use "5.prems"(3) d 2(3) g in \<open>auto simp: k_def\<close>)
      qed
      from False d have "odCategory d = CatTimeSeries \<or> odCategory d = CatUnary" by (auto simp: OperatorCategory_def)
      with 2 d sy unary_hd_agree [OF 2(3)] show ?thesis
        by (auto simp: OperatorCategory_def list_all2_lengthD intro!: for_symbols_rel ts)
    qed (use False in auto)
  qed simp
next
  case (6 lib p lookback oper x grp)
  from "6.prems"(5) have sy: "GetSymbols q = GetSymbols p" by (simp add: provider_agree_def)
  from "6.prems" have "rel_sum (=) (fmrel (agree m)) (Evaluate lib p lookback x) (Evaluate lib q lookback x)"
    by (intro "6.IH"(1)) (auto simp: case_prod_beta Let_def split: option.splits if_splits)
  then show ?case
  proof (cases rule: rel_sum_cases)
    case (2 r r')
    note lat = latest_series [OF _ "6.prems"(4)]
    show ?thesis
    proof (cases grp)
      case None
      with 2 lat [OF 2(3)] sy show ?thesis by (simp add: same_outcome)
    next
      case (Some g)
      from "6.prems" Some have "rel_sum (=) (fmrel (agree m)) (Evaluate lib p lookback g) (Evaluate lib q lookback g)"
        by (intro "6.IH"(2) [OF 2(1) refl refl Some]) (auto simp: case_prod_beta Let_def split: if_splits)
      then show ?thesis
      proof (cases rule: rel_sum_cases)
        case G: (2 gs gs')
        with 2 lat [OF 2(3)] lat [OF G(3)] sy Some show ?thesis by (simp add: same_outcome)
      qed (use 2 Some in simp)
    qed
  qed simp
next
  case (7 lib p lookback j)
  then show ?case by simp
next
  case (8 lib p lookback j arg args)
  then have "rel_sum (=) (fmrel (agree m)) (Evaluate lib p lookback arg) (Evaluate lib q lookback arg)" by simp
  then show ?case
  proof (cases rule: rel_sum_cases)
    case (2 r r')
    with "8.prems" have "rel_sum (=) (list_all2 (fmrel (agree m))) (evaluate_args lib p lookback (j + 1) args) (evaluate_args lib q lookback (j + 1) args)"
      by (intro "8.IH"(2) [OF 2(1)]) auto
    with 2 show ?thesis by (elim rel_sum_cases) auto
  qed simp
qed

section \<open>Properties\<close>

text \<open>A provider with two symbols, four bars each, and the sort that a stable sort gives.\<close>

definition sample_lib :: MathLib where
  "sample_lib = \<lparr>libLog = id, libExp = id, libPow = fmul, libSort = sort_key (\<lambda>(i, v). case v of Fin r \<Rightarrow> r | _ \<Rightarrow> 0)\<rparr>"

definition sample_bars :: "symbol \<Rightarrow> f64 list" where
  "sample_bars s = (if s = ''600000.SH'' then [Fin 1, Fin 2, Fin 4, Fin 8] else [Fin 8, Fin 4, Fin 2, Fin 1])"

definition sample_provider :: DataProvider where
  "sample_provider = \<lparr>GetField = \<lambda>s field lookback. Inr (sample_bars s), GetSymbols = [''600000.SH'', ''000001.SZ'']\<rparr>"

definition sample_expr :: Node where
  "sample_expr = BinaryOpNode ''-'' (IdentifierNode ''close'')
     (FunctionNode ''ts_mean'' [IdentifierNode ''close'', LiteralNode (Fin 2)])"

definition sample_formula :: Expression where
  "sample_formula = \<lparr>exFormula = ''close - ts_mean(close, 2)'', exAST = sample_expr, exInputs = {''close''}\<rparr>"

lemma sample_evaluates: "\<not> isl (Evaluate sample_lib sample_provider 4 sample_expr)"
  by code_simp

text \<open>
  C11: The gate is enough. An expression that \<open>Validate\<close> accepts is evaluated, on every provider, to one
  series for each of its symbols and no other; or the evaluation fails for a reason that lies in the
  data or in the value of a parameter, never because of an unknown operator or a wrong number of
  arguments.
\<close>

theorem validated_evaluates:
  assumes "Validate_expr e = None"
  shows "case Evaluate lib p lookback (exAST e) of
           Inr res \<Rightarrow> fset (fmdom res) = set (GetSymbols p)
         | Inl err \<Rightarrow> data_cause err"
  using validated_evaluation(1) [OF assms [unfolded Validate_expr_def], of p lib lookback]
  by (simp add: evaluates_or_data_def)

theorem validated_evaluates_witness:
  "case Evaluate sample_lib sample_provider 4 (exAST sample_formula) of
     Inr res \<Rightarrow> fset (fmdom res) = set (GetSymbols sample_provider)
   | Inl err \<Rightarrow> data_cause err"
proof -
  have "Validate_expr sample_formula = None" by code_simp
  then show ?thesis by (rule validated_evaluates)
qed

text \<open>
  C9: No look-ahead. For an expression without cross-sectional operators over series of equal length,
  evaluating on the first \<open>k\<close> bars (two or more) gives the first \<open>k\<close> entries of the evaluation on all
  bars: no entry depends on a later bar.
\<close>

theorem evaluate_causal:
  assumes "Evaluate lib p lookback n = Inr res" "no_cross n" "even_history p lookback L" "2 \<le> k"
  shows "Evaluate lib (truncated k p) lookback n = Inr (fmmap (take k) res)"
  using evaluate_cut(1) [OF assms(4,1,3,2)] by simp

theorem evaluate_causal_witness:
  "\<exists>res. Evaluate sample_lib sample_provider 4 sample_expr = Inr res \<and>
     Evaluate sample_lib (truncated 3 sample_provider) 4 sample_expr = Inr (fmmap (take 3) res)"
proof -
  obtain res where res: "Evaluate sample_lib sample_provider 4 sample_expr = Inr res"
    using sample_evaluates by (cases "Evaluate sample_lib sample_provider 4 sample_expr") auto
  have "even_history sample_provider 4 (\<lambda>_. 4)"
    by (simp add: even_history_def sample_provider_def sample_bars_def)
  with res show ?thesis
    using evaluate_causal [of sample_lib sample_provider 4 sample_expr res "\<lambda>_. 4" 3] by (simp add: sample_expr_def)
qed

text \<open>
  C10: The derived lookback is enough. Where \<open>DeriveLookback\<close> gives \<open>bars\<close> and not infinity, and the
  parameters are literals, two providers whose series agree on the last \<open>bars + m\<close> entries give
  results that agree on the last \<open>m\<close>, and the same error when they fail.
\<close>

theorem evaluate_lookback:
  assumes "DeriveLookback n = (bars, False)" "literal_params n" "0 < m" "provider_agree (nat bars + m) lookback p q"
  shows "rel_sum (=) (fmrel (agree m)) (Evaluate lib p lookback n) (Evaluate lib q lookback n)"
  using lookback_agree(1) [of n m "nat bars + m" lookback p q lib] assms by simp

theorem evaluate_lookback_witness:
  "rel_sum (=) (fmrel (agree 2)) (Evaluate sample_lib sample_provider 4 sample_expr)
     (Evaluate sample_lib (sample_provider\<lparr>GetField := \<lambda>s field lookback. Inr (NaN # tl (sample_bars s))\<rparr>) 4 sample_expr)"
proof (rule evaluate_lookback)
  show "DeriveLookback sample_expr = (1, False)" "literal_params sample_expr" by code_simp+
  show "provider_agree (nat 1 + 2) 4 sample_provider
      (sample_provider\<lparr>GetField := \<lambda>s field lookback. Inr (NaN # tl (sample_bars s))\<rparr>)"
    by (auto simp: provider_agree_def sample_provider_def sample_bars_def agree_def nth_Cons split: nat.split)
qed simp

end
