(* ===== verification/Reconciliation.thy ===== *)
theory Reconciliation
  imports Float64 "HOL-Library.Product_Lexorder"
begin

text \<open>
  The reconciliation of the local books with the broker's (\<open>pkg/live/reconciliation/reconciliation.go\<close>):
  the comparison \<open>Reconcile\<close>, the ring buffer of recent reports, and the worker's cycle. The two
  snapshots come from interfaces and are arguments; the clock is an argument, read once by the cycle
  and once by the comparison. The texts of the notes are left out, and writing a report to disk is the
  element it adds to the list of persisted reports.

  Properties: a report is healthy exactly when every figure is within its tolerance; the buffer is the
  list of the newest reports; and over every run of the worker history, persisted reports and alerts
  agree. Concrete snapshots at the end show deviations the comparison misses.
\<close>

section \<open>Configuration and snapshots\<close>

record ReconciliationConfig =
  rcInterval :: duration
  rcCashTolerance :: f64
  rcQuantityTolerance :: f64
  rcMarketValueTol :: f64
  rcFeeTolerance :: f64
  rcHistoryLimit :: int
  rcEnabled :: bool

definition second_ns :: duration where
  "second_ns = 1000000000"

definition DefaultReconciliationConfig :: ReconciliationConfig where
  "DefaultReconciliationConfig =
     \<lparr>rcInterval = 15 * 60 * second_ns, rcCashTolerance = rnd (1 / 100), rcQuantityTolerance = Fin 0,
      rcMarketValueTol = rnd (5 / 1000), rcFeeTolerance = rnd (1 / 100), rcHistoryLimit = 100, rcEnabled = True\<rparr>"

record PositionSnap =
  psSymbol :: symbol
  psQuantity :: f64
  psAvgCost :: f64
  psMarketValue :: f64

record CashSnap =
  csTotalCNY :: f64
  csAvailable :: f64
  csFrozen :: f64

record FeeSnap =
  fsCommission :: f64
  fsStampTax :: f64
  fsTransfer :: f64
  fsOther :: f64

definition FeeSnap_Sum :: "FeeSnap \<Rightarrow> f64" where
  "FeeSnap_Sum f = fadd (fadd (fadd (fsCommission f) (fsStampTax f)) (fsTransfer f)) (fsOther f)"

record AccountSnapshot =
  asAccountID :: string
  asReconciliationID :: string
  asAsOf :: gotime
  asCash :: CashSnap
  asPositions :: "PositionSnap dict"
  asFees :: FeeSnap

record LocalSnapshot =
  lsAccountID :: string
  lsAsOf :: gotime
  lsCash :: CashSnap
  lsPositions :: "PositionSnap dict"
  lsFees :: FeeSnap
  lsTodayPnL :: f64

section \<open>Discrepancies\<close>

datatype DiscrepancySeverity = SeverityCritical | SeverityWarning | SeverityInfo

datatype DiscrepancyKind = KindCash | KindQuantity | KindMarketValue | KindFee | KindMissingLocal | KindMissingBroker

fun kind_name :: "DiscrepancyKind \<Rightarrow> string" where
  "kind_name KindCash = ''cash''"
| "kind_name KindQuantity = ''quantity''"
| "kind_name KindMarketValue = ''market_value''"
| "kind_name KindFee = ''fee''"
| "kind_name KindMissingLocal = ''missing_local''"
| "kind_name KindMissingBroker = ''missing_broker''"

record Discrepancy =
  dcKind :: DiscrepancyKind
  dcSeverity :: DiscrepancySeverity
  dcSymbol :: symbol
  dcField :: string
  dcLocalVal :: f64
  dcBrokerVal :: f64
  dcDelta :: f64
  dcTolerance :: f64
  dcDetectedAt :: gotime

definition IsCritical :: "Discrepancy \<Rightarrow> bool" where
  "IsCritical d \<longleftrightarrow> dcSeverity d = SeverityCritical"

definition absFloat :: "f64 \<Rightarrow> f64" where
  "absFloat f = (if flt f (Fin 0) then fneg f else f)"

definition unionSymbols :: "PositionSnap dict \<Rightarrow> PositionSnap dict \<Rightarrow> symbol list" where
  "unionSymbols a b = sorted_list_of_fset (fmdom a |\<union>| fmdom b)"

fun rankSeverity :: "DiscrepancySeverity \<Rightarrow> int" where
  "rankSeverity SeverityCritical = 3"
| "rankSeverity SeverityWarning = 2"
| "rankSeverity SeverityInfo = 1"

definition severityForCash :: "f64 \<Rightarrow> f64 \<Rightarrow> DiscrepancySeverity" where
  "severityForCash absDelta tol =
     (if flt (Fin 100) absDelta then SeverityCritical else if flt tol absDelta then SeverityWarning else SeverityInfo)"

definition severityForQty :: "f64 \<Rightarrow> DiscrepancySeverity" where
  "severityForQty absDelta =
     (if flt (Fin 1000) absDelta then SeverityCritical
      else if flt (Fin 0) absDelta then SeverityWarning else SeverityInfo)"

definition severityForMV :: "f64 \<Rightarrow> f64 \<Rightarrow> DiscrepancySeverity" where
  "severityForMV rel tol =
     (if flt (fmul (Fin 5) tol) rel then SeverityCritical
      else if flt (fmul (Fin 2) tol) rel then SeverityWarning else SeverityInfo)"

definition severityForFee :: "f64 \<Rightarrow> f64 \<Rightarrow> DiscrepancySeverity" where
  "severityForFee absDelta tol =
     (if flt (fmul (Fin 10) tol) absDelta then SeverityCritical
      else if flt tol absDelta then SeverityWarning else SeverityInfo)"

definition allInfoOnly :: "Discrepancy list \<Rightarrow> bool" where
  "allInfoOnly discs \<longleftrightarrow> list_all (\<lambda>d. dcSeverity d = SeverityInfo) discs"

section \<open>The comparison\<close>

text \<open>\<open>Time.Unix\<close> and \<open>Duration.Seconds\<close>\<close>

definition unix_time :: "gotime \<Rightarrow> int" where
  "unix_time t = t div second_ns - 62135596800"

definition duration_seconds :: "duration \<Rightarrow> f64" where
  "duration_seconds d = fadd (fint (d sdiv second_ns)) (fdiv (fint (d smod second_ns)) (Fin 1000000000))"

definition check_drift :: "LocalSnapshot \<Rightarrow> AccountSnapshot \<Rightarrow> gotime \<Rightarrow> Discrepancy list" where
  "check_drift local broker now =
     (let asOfDrift = \<bar>lsAsOf local - asAsOf broker\<bar>
      in if 60 * second_ns < asOfDrift
         then [\<lparr>dcKind = KindCash, dcSeverity = SeverityInfo, dcSymbol = [], dcField = ''as_of_drift_seconds'',
                dcLocalVal = fint (unix_time (lsAsOf local)), dcBrokerVal = fint (unix_time (asAsOf broker)),
                dcDelta = duration_seconds asOfDrift, dcTolerance = Fin 60, dcDetectedAt = now\<rparr>]
         else [])"

definition check_cash :: "LocalSnapshot \<Rightarrow> AccountSnapshot \<Rightarrow> ReconciliationConfig \<Rightarrow> gotime \<Rightarrow> Discrepancy list" where
  "check_cash local broker cfg now =
     (let l = csTotalCNY (lsCash local); b = csTotalCNY (asCash broker); cashDelta = fsub l b
      in if flt (rcCashTolerance cfg) (absFloat cashDelta)
         then [\<lparr>dcKind = KindCash, dcSeverity = severityForCash (absFloat cashDelta) (rcCashTolerance cfg),
                dcSymbol = [], dcField = ''total_cny'', dcLocalVal = l, dcBrokerVal = b, dcDelta = cashDelta,
                dcTolerance = rcCashTolerance cfg, dcDetectedAt = now\<rparr>]
         else [])"

text \<open>The relative difference of two market values: over the larger one, where that is positive.\<close>

definition value_rel :: "PositionSnap \<Rightarrow> PositionSnap \<Rightarrow> f64" where
  "value_rel lp bp =
     (let base = (if flt (psMarketValue lp) (psMarketValue bp) then psMarketValue bp else psMarketValue lp)
      in if flt (Fin 0) base then fdiv (absFloat (fsub (psMarketValue lp) (psMarketValue bp))) base else Fin 0)"

definition check_pair ::
    "symbol \<Rightarrow> PositionSnap \<Rightarrow> PositionSnap \<Rightarrow> ReconciliationConfig \<Rightarrow> gotime \<Rightarrow> Discrepancy list" where
  "check_pair s lp bp cfg now =
     (let qtyDelta = fsub (psQuantity lp) (psQuantity bp);
          qty = (\<lambda>sev. [\<lparr>dcKind = KindQuantity, dcSeverity = sev, dcSymbol = s, dcField = ''quantity'',
                  dcLocalVal = psQuantity lp, dcBrokerVal = psQuantity bp, dcDelta = qtyDelta,
                  dcTolerance = rcQuantityTolerance cfg, dcDetectedAt = now\<rparr>]);
          rel = value_rel lp bp
      in (if flt (rcQuantityTolerance cfg) (absFloat qtyDelta) then qty (severityForQty (absFloat qtyDelta))
          else if flt (Fin 0) (absFloat qtyDelta) then qty SeverityInfo else []) @
         (if fle (absFloat qtyDelta) (rcQuantityTolerance cfg) \<and> flt (rcMarketValueTol cfg) rel
          then [\<lparr>dcKind = KindMarketValue, dcSeverity = severityForMV rel (rcMarketValueTol cfg), dcSymbol = s,
                 dcField = ''market_value'', dcLocalVal = psMarketValue lp, dcBrokerVal = psMarketValue bp,
                 dcDelta = fsub (psMarketValue lp) (psMarketValue bp), dcTolerance = rcMarketValueTol cfg,
                 dcDetectedAt = now\<rparr>]
          else []))"

definition check_symbol ::
    "LocalSnapshot \<Rightarrow> AccountSnapshot \<Rightarrow> ReconciliationConfig \<Rightarrow> gotime \<Rightarrow> symbol \<Rightarrow> Discrepancy list" where
  "check_symbol local broker cfg now s =
     (case (fmlookup (lsPositions local) s, fmlookup (asPositions broker) s) of
        (None, bp) \<Rightarrow>
          (let q = (case bp of None \<Rightarrow> Fin 0 | Some p \<Rightarrow> psQuantity p)
           in [\<lparr>dcKind = KindMissingLocal, dcSeverity = SeverityCritical, dcSymbol = s, dcField = [],
                dcLocalVal = Fin 0, dcBrokerVal = q, dcDelta = fneg q,
                dcTolerance = rcQuantityTolerance cfg, dcDetectedAt = now\<rparr>])
      | (Some lp, None) \<Rightarrow>
          [\<lparr>dcKind = KindMissingBroker, dcSeverity = SeverityCritical, dcSymbol = s, dcField = [],
            dcLocalVal = psQuantity lp, dcBrokerVal = Fin 0, dcDelta = psQuantity lp,
            dcTolerance = rcQuantityTolerance cfg, dcDetectedAt = now\<rparr>]
      | (Some lp, Some bp) \<Rightarrow> check_pair s lp bp cfg now)"

definition fee_buckets :: "FeeSnap \<Rightarrow> FeeSnap \<Rightarrow> (string \<times> f64 \<times> f64) list" where
  "fee_buckets l b =
     [(''commission'', fsCommission l, fsCommission b), (''stamp_tax'', fsStampTax l, fsStampTax b),
      (''transfer'', fsTransfer l, fsTransfer b), (''other'', fsOther l, fsOther b)]"

definition check_fee :: "ReconciliationConfig \<Rightarrow> gotime \<Rightarrow> string \<times> f64 \<times> f64 \<Rightarrow> Discrepancy list" where
  "check_fee cfg now = (\<lambda>(field, l, b).
     (let d = fsub l b
      in if flt (rcFeeTolerance cfg) (absFloat d)
         then [\<lparr>dcKind = KindFee, dcSeverity = severityForFee (absFloat d) (rcFeeTolerance cfg), dcSymbol = [],
                dcField = field, dcLocalVal = l, dcBrokerVal = b, dcDelta = d, dcTolerance = rcFeeTolerance cfg,
                dcDetectedAt = now\<rparr>]
         else []))"

text \<open>The stable sort: by falling severity, then by the name of the kind, then by symbol.\<close>

definition discrepancy_key :: "Discrepancy \<Rightarrow> int \<times> string \<times> symbol" where
  "discrepancy_key d = (- rankSeverity (dcSeverity d), kind_name (dcKind d), dcSymbol d)"

definition Reconcile :: "LocalSnapshot \<Rightarrow> AccountSnapshot \<Rightarrow> ReconciliationConfig \<Rightarrow> gotime \<Rightarrow> Discrepancy list" where
  "Reconcile local broker cfg now =
     sort_key discrepancy_key
       (check_drift local broker now @ check_cash local broker cfg now @
        concat (map (check_symbol local broker cfg now) (unionSymbols (lsPositions local) (asPositions broker))) @
        concat (map (check_fee cfg now) (fee_buckets (lsFees local) (asFees broker))))"

section \<open>The history buffer\<close>

record 'r HistoryBuffer =
  hbEntries :: "'r list"
  hbIdx :: nat
  hbFull :: bool
  hbCap :: nat

text \<open>The capacity \<open>c\<close>; the slots of the new buffer hold the zero value \<open>z\<close>.\<close>

definition NewHistoryBuffer :: "'r \<Rightarrow> int \<Rightarrow> 'r HistoryBuffer" where
  "NewHistoryBuffer z c =
     (let n = (if c \<le> 0 then 1 else nat c)
      in \<lparr>hbEntries = replicate n z, hbIdx = 0, hbFull = False, hbCap = n\<rparr>)"

definition Append :: "'r \<Rightarrow> 'r HistoryBuffer \<Rightarrow> 'r HistoryBuffer" where
  "Append r h =
     (let i = (hbIdx h + 1) mod hbCap h
      in h\<lparr>hbEntries := (hbEntries h)[hbIdx h := r], hbIdx := i, hbFull := hbFull h \<or> i = 0\<rparr>)"

definition Len :: "'r HistoryBuffer \<Rightarrow> nat" where
  "Len h = (if hbFull h then hbCap h else hbIdx h)"

definition Snapshot :: "'r HistoryBuffer \<Rightarrow> 'r list" where
  "Snapshot h =
     (if \<not> hbFull h \<and> hbIdx h = 0 then []
      else map (\<lambda>i. hbEntries h ! ((hbIdx h + hbCap h * 2 - 1 - i) mod hbCap h)) [0..<Len h])"

definition Latest :: "'r HistoryBuffer \<Rightarrow> 'r option" where
  "Latest h =
     (if \<not> hbFull h \<and> hbIdx h = 0 then None
      else Some (hbEntries h ! (if hbIdx h = 0 then hbCap h - 1 else hbIdx h - 1)))"

section \<open>The worker\<close>

record ReconciliationReport =
  rrGeneratedAt :: gotime
  rrAccountID :: string
  rrLocalAsOf :: gotime
  rrBrokerAsOf :: gotime
  rrBridgeReconcID :: string
  rrLocal :: LocalSnapshot
  rrBroker :: AccountSnapshot
  rrDiscrepancies :: "Discrepancy list"
  rrCriticalCount :: nat
  rrWarningCount :: nat
  rrInfoCount :: nat
  rrHealthy :: bool

definition count_severity :: "DiscrepancySeverity \<Rightarrow> Discrepancy list \<Rightarrow> nat" where
  "count_severity s discs = length (filter (\<lambda>d. dcSeverity d = s) discs)"

definition build_report ::
    "string \<Rightarrow> gotime \<Rightarrow> LocalSnapshot \<Rightarrow> AccountSnapshot \<Rightarrow> Discrepancy list \<Rightarrow> ReconciliationReport" where
  "build_report accountID now l b discs =
     \<lparr>rrGeneratedAt = now, rrAccountID = accountID, rrLocalAsOf = lsAsOf l, rrBrokerAsOf = asAsOf b,
      rrBridgeReconcID = asReconciliationID b, rrLocal = l, rrBroker = b, rrDiscrepancies = discs,
      rrCriticalCount = count_severity SeverityCritical discs, rrWarningCount = count_severity SeverityWarning discs,
      rrInfoCount = count_severity SeverityInfo discs, rrHealthy = (discs = [] \<or> allInfoOnly discs)\<rparr>"

text \<open>
  The worker with the reports it handed to the persister and the alerts it dispatched; \<open>wkDispatcher\<close>
  is whether a dispatcher was given.
\<close>

record ReconciliationWorker =
  wkCfg :: ReconciliationConfig
  wkDispatcher :: bool
  wkHistory :: "ReconciliationReport HistoryBuffer"
  wkPersisted :: "ReconciliationReport list"
  wkDispatched :: "(string \<times> Discrepancy list) list"

definition NewReconciliationWorker ::
    "ReconciliationReport \<Rightarrow> ReconciliationConfig \<Rightarrow> bool \<Rightarrow> ReconciliationReport HistoryBuffer option \<Rightarrow> ReconciliationWorker" where
  "NewReconciliationWorker z cfg dispatcher history =
     (let cfg1 = (if rcInterval cfg \<le> 0 then cfg\<lparr>rcInterval := 15 * 60 * second_ns\<rparr> else cfg);
          cfg2 = (if rcHistoryLimit cfg1 \<le> 0 then cfg1\<lparr>rcHistoryLimit := 100\<rparr> else cfg1)
      in \<lparr>wkCfg = cfg2, wkDispatcher = dispatcher,
          wkHistory = (case history of None \<Rightarrow> NewHistoryBuffer z (rcHistoryLimit cfg2) | Some h \<Rightarrow> h),
          wkPersisted = [], wkDispatched = []\<rparr>)"

datatype cycle_error = AccountRequired | LocalFailed string | BrokerFailed string | NilSnapshot

text \<open>
  One cycle. \<open>local\<close> and \<open>broker\<close> answer a query for an account and a time with an error or a
  snapshot, which may be missing; \<open>now'\<close> is the second reading of the clock. Without an account the
  local side is asked for its own.
\<close>

definition cycle_account :: "(string \<Rightarrow> gotime \<Rightarrow> string + LocalSnapshot option) \<Rightarrow> gotime \<Rightarrow> string \<Rightarrow> string" where
  "cycle_account local now accountID =
     (if accountID = []
      then (case local [] now of Inr (Some probe) \<Rightarrow> lsAccountID probe | _ \<Rightarrow> accountID)
      else accountID)"

definition record_cycle ::
    "string \<Rightarrow> gotime \<Rightarrow> gotime \<Rightarrow> LocalSnapshot \<Rightarrow> AccountSnapshot \<Rightarrow> ReconciliationWorker \<Rightarrow>
     ReconciliationReport \<times> ReconciliationWorker" where
  "record_cycle acct now now' l b w =
     (let discs = Reconcile l b (wkCfg w) now';
          rep = build_report acct now l b discs
      in (rep,
          w\<lparr>wkPersisted := wkPersisted w @ [rep],
            wkDispatched := wkDispatched w @ (if wkDispatcher w \<and> discs \<noteq> [] then [(acct, discs)] else []),
            wkHistory := Append rep (wkHistory w)\<rparr>))"

definition ReconcileOnce ::
    "(string \<Rightarrow> gotime \<Rightarrow> string + LocalSnapshot option) \<Rightarrow> (string \<Rightarrow> gotime \<Rightarrow> string + AccountSnapshot option) \<Rightarrow>
     gotime \<Rightarrow> gotime \<Rightarrow> string \<Rightarrow> ReconciliationWorker \<Rightarrow> (cycle_error + ReconciliationReport) \<times> ReconciliationWorker" where
  "ReconcileOnce local broker now now' accountID w =
     (let acct = cycle_account local now accountID
      in if acct = [] then (Inl AccountRequired, w)
         else case local acct now of
                Inl e \<Rightarrow> (Inl (LocalFailed e), w)
              | Inr l \<Rightarrow>
                  (case broker acct now of
                     Inl e \<Rightarrow> (Inl (BrokerFailed e), w)
                   | Inr b \<Rightarrow>
                       (case (l, b) of
                          (Some l, Some b) \<Rightarrow> (let (rep, w') = record_cycle acct now now' l b w in (Inr rep, w'))
                        | _ \<Rightarrow> (Inl NilSnapshot, w))))"

text \<open>The loop of \<open>Start\<close> over the readings of the clock at its ticks.\<close>

definition Start ::
    "(string \<Rightarrow> gotime \<Rightarrow> string + LocalSnapshot option) \<Rightarrow> (string \<Rightarrow> gotime \<Rightarrow> string + AccountSnapshot option) \<Rightarrow>
     (gotime \<times> gotime) list \<Rightarrow> ReconciliationWorker \<Rightarrow> ReconciliationWorker" where
  "Start local broker ticks w =
     (if \<not> rcEnabled (wkCfg w) then w
      else foldl (\<lambda>w (now, now'). snd (ReconcileOnce local broker now now' [] w)) w ticks)"

section \<open>The buffer holds the newest reports\<close>

text \<open>The buffer \<open>h\<close> after the reports \<open>rs\<close>, in the order they came.\<close>

definition holds :: "'r HistoryBuffer \<Rightarrow> 'r list \<Rightarrow> bool" where
  "holds h rs \<longleftrightarrow> 0 < hbCap h \<and> length (hbEntries h) = hbCap h \<and> hbIdx h = length rs mod hbCap h \<and>
     (hbFull h \<longleftrightarrow> hbCap h \<le> length rs) \<and>
     (\<forall>j < length rs. length rs \<le> j + hbCap h \<longrightarrow> hbEntries h ! (j mod hbCap h) = rs ! j)"

lemma holds_new: "holds (NewHistoryBuffer z c) []"
  by (auto simp: holds_def NewHistoryBuffer_def Let_def)

lemma mod_window_distinct: "j < n \<Longrightarrow> n < j + c \<Longrightarrow> j mod c \<noteq> n mod (c :: nat)"
proof
  assume a: "j < n" "n < j + c" "j mod c = n mod c"
  then have "c dvd n - j" by (metis mod_eq_dvd_iff_nat less_imp_le_nat)
  with a show False by (auto dest!: dvd_imp_le)
qed

lemma wrap_iff: "0 < c \<Longrightarrow> (c \<le> n \<or> (n + 1) mod c = 0) \<longleftrightarrow> c \<le> n + 1" for c n :: nat
  by (cases "n + 1 = c") (auto simp: not_le dest: dvd_imp_le)

lemma holds_Append:
  assumes "holds h rs"
  shows "holds (Append r h) (rs @ [r])"
proof -
  let ?c = "hbCap h" and ?n = "length rs"
  have h: "0 < ?c" "length (hbEntries h) = ?c" "hbIdx h = ?n mod ?c" "hbFull h \<longleftrightarrow> ?c \<le> ?n"
      "\<And>j. j < ?n \<Longrightarrow> ?n \<le> j + ?c \<Longrightarrow> hbEntries h ! (j mod ?c) = rs ! j"
    using assms by (auto simp: holds_def)
  have "(hbEntries h)[?n mod ?c := r] ! (j mod ?c) = (rs @ [r]) ! j" if "j < Suc ?n" "Suc ?n \<le> j + ?c" for j
  proof (cases "j = ?n")
    case False
    then have "j mod ?c \<noteq> ?n mod ?c" using that by (intro mod_window_distinct) auto
    with False that h(5) [of j] show ?thesis by (simp add: nth_append)
  qed (simp add: h)
  moreover have "(?n mod ?c + 1) mod ?c = Suc ?n mod ?c" by (simp add: mod_Suc_eq)
  ultimately show ?thesis using h wrap_iff [of ?c ?n] by (auto simp: holds_def Append_def Let_def)
qed

lemma holds_fold: "holds h rs \<Longrightarrow> holds (foldl (\<lambda>h r. Append r h) h rs') (rs @ rs')"
proof (induction rs' arbitrary: h rs)
  case (Cons r rs')
  from Cons.IH [OF holds_Append [OF Cons.prems]] show ?case by simp
qed simp

lemma holds_Len: "holds h rs \<Longrightarrow> Len h = min (hbCap h) (length rs)"
  by (auto simp: holds_def Len_def min_def)

lemma holds_empty: "holds h rs \<Longrightarrow> (\<not> hbFull h \<and> hbIdx h = 0) \<longleftrightarrow> rs = []"
  by (auto simp: holds_def not_le)

lemma holds_slot:
  assumes "holds h rs" "i < min (hbCap h) (length rs)"
  shows "hbEntries h ! ((hbIdx h + hbCap h * 2 - 1 - i) mod hbCap h) = rs ! (length rs - 1 - i)"
proof -
  let ?c = "hbCap h" and ?n = "length rs"
  from assms have h: "0 < ?c" "hbIdx h = ?n mod ?c"
      "\<And>j. j < ?n \<Longrightarrow> ?n \<le> j + ?c \<Longrightarrow> hbEntries h ! (j mod ?c) = rs ! j"
    by (auto simp: holds_def)
  have "?n mod ?c + ?c * 2 - 1 - i + ?c * (?n div ?c) = (?n - 1 - i) + ?c * 2"
    using assms(2) by (simp add: mult.commute)
  then have "(?n mod ?c + ?c * 2 - 1 - i) mod ?c = (?n - 1 - i) mod ?c"
    by (metis mod_mult_self2)
  moreover have "?n - 1 - i < ?n" "?n \<le> ?n - 1 - i + ?c" using assms(2) by linarith+
  ultimately show ?thesis using h(2) h(3) [of "?n - 1 - i"] by simp
qed

lemma holds_Snapshot: "holds h rs \<Longrightarrow> Snapshot h = take (hbCap h) (rev rs)"
proof -
  assume h: "holds h rs"
  show ?thesis
  proof (cases "rs = []")
    case False
    then have "Snapshot h = map (\<lambda>i. rs ! (length rs - 1 - i)) [0..<min (hbCap h) (length rs)]"
      using holds_empty [OF h] holds_Len [OF h] holds_slot [OF h] by (auto simp: Snapshot_def)
    also have "\<dots> = take (hbCap h) (rev rs)"
      by (rule nth_equalityI) (auto simp: rev_nth)
    finally show ?thesis .
  qed (use holds_empty [OF h] in \<open>simp add: Snapshot_def\<close>)
qed

lemma holds_Latest: "holds h rs \<Longrightarrow> Latest h = (if rs = [] then None else Some (last rs))"
proof -
  assume h: "holds h rs"
  show ?thesis
  proof (cases "rs = []")
    case False
    have "(hbIdx h + hbCap h * 2 - 1 - 0) mod hbCap h = (if hbIdx h = 0 then hbCap h - 1 else hbIdx h - 1)"
    proof -
      from h have c: "0 < hbCap h" "hbIdx h < hbCap h" by (auto simp: holds_def)
      show ?thesis
      proof (cases "hbIdx h")
        case 0
        from c obtain k where "hbCap h = Suc k" by (cases "hbCap h") auto
        moreover have "(Suc k * 2 - 1) mod Suc k = k" for k
        proof -
          have "Suc k * 2 - 1 = k + Suc k" by simp
          then show ?thesis by (simp only: mod_add_self2 mod_less lessI)
        qed
        ultimately show ?thesis using 0 by simp
      next
        case (Suc i)
        then have "hbIdx h + hbCap h * 2 - 1 - 0 = i + hbCap h * 2" by simp
        with Suc c show ?thesis by simp
      qed
    qed
    with False holds_slot [OF h, of 0] h show ?thesis
      using holds_empty [OF h] by (auto simp: Latest_def holds_def last_conv_nth)
  qed (use holds_empty [OF h] in \<open>simp add: Latest_def\<close>)
qed

lemma hbCap_Append [simp]: "hbCap (Append r h) = hbCap h"
  by (simp add: Append_def Let_def)

lemma hbCap_fold [simp]: "hbCap (foldl (\<lambda>h r. Append r h) h rs) = hbCap h"
  by (induction rs arbitrary: h) simp_all

section \<open>A cycle\<close>

lemma count_severity_sum:
  "count_severity SeverityCritical ds + count_severity SeverityWarning ds + count_severity SeverityInfo ds = length ds"
proof (induction ds)
  case (Cons d ds)
  then show ?case by (cases "dcSeverity d") (auto simp: count_severity_def)
qed (simp add: count_severity_def)

lemma allInfoOnly_counts:
  "allInfoOnly ds \<longleftrightarrow> count_severity SeverityCritical ds = 0 \<and> count_severity SeverityWarning ds = 0"
proof (induction ds)
  case (Cons d ds)
  then show ?case by (cases "dcSeverity d") (auto simp: count_severity_def allInfoOnly_def)
qed (simp add: count_severity_def allInfoOnly_def)

definition report_sound :: "ReconciliationReport \<Rightarrow> bool" where
  "report_sound r \<longleftrightarrow>
     rrCriticalCount r + rrWarningCount r + rrInfoCount r = length (rrDiscrepancies r) \<and>
     (rrHealthy r \<longleftrightarrow> rrCriticalCount r = 0 \<and> rrWarningCount r = 0) \<and>
     sorted (map discrepancy_key (rrDiscrepancies r))"

definition alerts_of :: "ReconciliationReport list \<Rightarrow> (string \<times> Discrepancy list) list" where
  "alerts_of rs = map (\<lambda>r. (rrAccountID r, rrDiscrepancies r)) (filter (\<lambda>r. rrDiscrepancies r \<noteq> []) rs)"

definition worker_inv :: "ReconciliationWorker \<Rightarrow> bool" where
  "worker_inv w \<longleftrightarrow> holds (wkHistory w) (wkPersisted w) \<and> list_all report_sound (wkPersisted w) \<and>
     wkDispatched w = (if wkDispatcher w then alerts_of (wkPersisted w) else [])"

lemma build_report_sound: "report_sound (build_report a t l b (Reconcile l b cfg now))"
  using count_severity_sum [of "Reconcile l b cfg now"] allInfoOnly_counts [of "Reconcile l b cfg now"]
  by (auto simp: report_sound_def build_report_def count_severity_def Reconcile_def)

lemma ReconcileOnce_cases:
  obtains (error) e where "ReconcileOnce local broker now now' a w = (Inl e, w)"
  | (report) acct l b where
      "ReconcileOnce local broker now now' a w =
         (Inr (fst (record_cycle acct now now' l b w)), snd (record_cycle acct now now' l b w))"
proof -
  have "(\<exists>e. ReconcileOnce local broker now now' a w = (Inl e, w)) \<or>
      (\<exists>acct l b. ReconcileOnce local broker now now' a w =
         (Inr (fst (record_cycle acct now now' l b w)), snd (record_cycle acct now now' l b w)))"
    by (auto simp: ReconcileOnce_def Let_def case_prod_beta split: sum.split option.split)
  then show thesis using that by blast
qed

lemma ReconcileOnce_inv [inv_intro]:
  assumes "worker_inv w"
  shows "worker_inv (snd (ReconcileOnce local broker now now' a w))"
proof (cases rule: ReconcileOnce_cases [of local broker now now' a w])
  case (report acct l b)
  then show ?thesis
    using assms build_report_sound [of acct now l b "wkCfg w" now']
    by (auto simp: worker_inv_def record_cycle_def Let_def holds_Append alerts_of_def build_report_def)
qed (use assms in simp)

lemma ReconcileOnce_frame [frame]:
  "wkCfg (snd (ReconcileOnce local broker now now' a w)) = wkCfg w"
  "wkDispatcher (snd (ReconcileOnce local broker now now' a w)) = wkDispatcher w"
  "hbCap (wkHistory (snd (ReconcileOnce local broker now now' a w))) = hbCap (wkHistory w)"
  by (cases rule: ReconcileOnce_cases [of local broker now now' a w]; simp add: record_cycle_def Let_def)+

lemma Start_inv:
  assumes "worker_inv w"
  shows "worker_inv (Start local broker ticks w) \<and> wkCfg (Start local broker ticks w) = wkCfg w \<and>
     wkDispatcher (Start local broker ticks w) = wkDispatcher w \<and>
     hbCap (wkHistory (Start local broker ticks w)) = hbCap (wkHistory w)"
proof -
  have "worker_inv w \<Longrightarrow> (let w' = foldl (\<lambda>w (now, now'). snd (ReconcileOnce local broker now now' [] w)) w ticks
      in worker_inv w' \<and> wkCfg w' = wkCfg w \<and> wkDispatcher w' = wkDispatcher w \<and> hbCap (wkHistory w') = hbCap (wkHistory w))" for w
    by (induction ticks arbitrary: w) (simp_all add: Let_def case_prod_beta ReconcileOnce_frame ReconcileOnce_inv)
  with assms show ?thesis by (auto simp: Start_def Let_def)
qed

section \<open>Healthy reports\<close>

definition within_tol :: "f64 \<Rightarrow> f64 \<Rightarrow> f64 \<Rightarrow> bool" where
  "within_tol tol l b \<longleftrightarrow> \<not> flt tol (absFloat (fsub l b))"

definition pair_ok :: "ReconciliationConfig \<Rightarrow> PositionSnap \<Rightarrow> PositionSnap \<Rightarrow> bool" where
  "pair_ok cfg lp bp \<longleftrightarrow> within_tol (rcQuantityTolerance cfg) (psQuantity lp) (psQuantity bp) \<and>
     (fle (absFloat (fsub (psQuantity lp) (psQuantity bp))) (rcQuantityTolerance cfg) \<longrightarrow>
      \<not> flt (rcMarketValueTol cfg) (value_rel lp bp) \<or> severityForMV (value_rel lp bp) (rcMarketValueTol cfg) = SeverityInfo)"

text \<open>The books agree: same symbols, and every compared figure within its tolerance.\<close>

definition books_agree :: "LocalSnapshot \<Rightarrow> AccountSnapshot \<Rightarrow> ReconciliationConfig \<Rightarrow> bool" where
  "books_agree l b cfg \<longleftrightarrow>
     within_tol (rcCashTolerance cfg) (csTotalCNY (lsCash l)) (csTotalCNY (asCash b)) \<and>
     fmdom (lsPositions l) = fmdom (asPositions b) \<and>
     (\<forall>s \<in> fset (fmdom (lsPositions l)).
        pair_ok cfg (the (fmlookup (lsPositions l) s)) (the (fmlookup (asPositions b) s))) \<and>
     list_all (\<lambda>(_, x, y). within_tol (rcFeeTolerance cfg) x y) (fee_buckets (lsFees l) (asFees b))"

lemma allInfoOnly_append [simp]: "allInfoOnly (xs @ ys) \<longleftrightarrow> allInfoOnly xs \<and> allInfoOnly ys"
  by (simp add: allInfoOnly_def)

lemma allInfoOnly_concat: "allInfoOnly (concat (map f xs)) \<longleftrightarrow> (\<forall>x \<in> set xs. allInfoOnly (f x))"
  by (auto simp: allInfoOnly_def list_all_iff)

lemma allInfoOnly_sort [simp]: "allInfoOnly (sort_key k xs) \<longleftrightarrow> allInfoOnly xs"
  by (simp add: allInfoOnly_def list_all_iff)

lemma check_drift_info: "allInfoOnly (check_drift l b now)"
  by (simp add: check_drift_def allInfoOnly_def Let_def)

lemma check_cash_info:
  "allInfoOnly (check_cash l b cfg now) \<longleftrightarrow> within_tol (rcCashTolerance cfg) (csTotalCNY (lsCash l)) (csTotalCNY (asCash b))"
  by (auto simp: check_cash_def allInfoOnly_def Let_def within_tol_def severityForCash_def)

lemma check_fee_info: "allInfoOnly (check_fee cfg now (f, x, y)) \<longleftrightarrow> within_tol (rcFeeTolerance cfg) x y"
  by (auto simp: check_fee_def allInfoOnly_def Let_def within_tol_def severityForFee_def)

lemma check_pair_info:
  assumes "fle (Fin 0) (rcQuantityTolerance cfg)"
  shows "allInfoOnly (check_pair s lp bp cfg now) \<longleftrightarrow> pair_ok cfg lp bp"
proof -
  have "flt (rcQuantityTolerance cfg) x \<Longrightarrow> severityForQty x \<noteq> SeverityInfo" for x
    using fle_flt_trans [OF assms, of x] by (auto simp: severityForQty_def)
  then show ?thesis by (auto simp: check_pair_def allInfoOnly_def Let_def within_tol_def pair_ok_def)
qed

lemma check_symbol_info:
  assumes "fle (Fin 0) (rcQuantityTolerance cfg)" "s |\<in>| fmdom (lsPositions l) |\<union>| fmdom (asPositions b)"
  shows "allInfoOnly (check_symbol l b cfg now s) \<longleftrightarrow>
    s |\<in>| fmdom (lsPositions l) \<and> s |\<in>| fmdom (asPositions b) \<and>
    pair_ok cfg (the (fmlookup (lsPositions l) s)) (the (fmlookup (asPositions b) s))"
  using assms
  by (cases "fmlookup (lsPositions l) s"; cases "fmlookup (asPositions b) s")
     (auto simp: check_symbol_def allInfoOnly_def check_pair_info [unfolded allInfoOnly_def] Let_def fmdom_notI fmdomI)

lemma symbols_agree:
  "(\<forall>s \<in> fset (A |\<union>| B). s |\<in>| A \<and> s |\<in>| B \<and> P s) \<longleftrightarrow> A = B \<and> (\<forall>s \<in> fset A. P s)"
  by (auto simp: fset_eq_iff)

lemma Reconcile_info:
  assumes "fle (Fin 0) (rcQuantityTolerance cfg)"
  shows "allInfoOnly (Reconcile l b cfg now) \<longleftrightarrow> books_agree l b cfg"
proof -
  have "(\<forall>s \<in> set (unionSymbols (lsPositions l) (asPositions b)). allInfoOnly (check_symbol l b cfg now s)) \<longleftrightarrow>
      (\<forall>s \<in> fset (fmdom (lsPositions l) |\<union>| fmdom (asPositions b)). s |\<in>| fmdom (lsPositions l) \<and>
        s |\<in>| fmdom (asPositions b) \<and> pair_ok cfg (the (fmlookup (lsPositions l) s)) (the (fmlookup (asPositions b) s)))"
    using check_symbol_info [OF assms, of _ l b now] by (simp add: unionSymbols_def)
  also have "\<dots> \<longleftrightarrow> fmdom (lsPositions l) = fmdom (asPositions b) \<and> (\<forall>s \<in> fset (fmdom (lsPositions l)).
      pair_ok cfg (the (fmlookup (lsPositions l) s)) (the (fmlookup (asPositions b) s)))"
    by (rule symbols_agree)
  finally show ?thesis
    unfolding Reconcile_def books_agree_def
    by (simp add: allInfoOnly_concat check_drift_info check_cash_info fee_buckets_def check_fee_info)
qed

section \<open>Properties\<close>

text \<open>
  C40: The ring buffer is the list of the newest reports. After any sequence of appends, \<open>Snapshot\<close> is
  the reports from the newest to the oldest, cut at the capacity; \<open>Latest\<close> is the last one and \<open>Len\<close>
  their number.
\<close>

theorem history_is_newest:
  "let h = foldl (\<lambda>h r. Append r h) (NewHistoryBuffer z c) rs; n = (if c \<le> 0 then 1 else nat c)
   in Snapshot h = take n (rev rs) \<and> Latest h = (if rs = [] then None else Some (last rs)) \<and>
      Len h = min n (length rs)"
proof -
  let ?h = "foldl (\<lambda>h r. Append r h) (NewHistoryBuffer z c) rs"
  have "holds ?h rs" using holds_fold [OF holds_new [of z c], of rs] by simp
  moreover have "hbCap ?h = (if c \<le> 0 then 1 else nat c)" by (simp add: NewHistoryBuffer_def Let_def)
  ultimately show ?thesis by (simp add: holds_Snapshot holds_Latest holds_Len Let_def)
qed


definition sample_cash :: "rat \<Rightarrow> CashSnap" where
  "sample_cash x = \<lparr>csTotalCNY = Fin x, csAvailable = Fin x, csFrozen = Fin 0\<rparr>"

definition sample_position :: "rat \<Rightarrow> rat \<Rightarrow> PositionSnap dict" where
  "sample_position q v =
     fmap_of_list [(''600000.SH'', \<lparr>psSymbol = ''600000.SH'', psQuantity = Fin q, psAvgCost = Fin 10, psMarketValue = Fin v\<rparr>)]"

definition sample_fee_snap :: FeeSnap where
  "sample_fee_snap = \<lparr>fsCommission = Fin 5, fsStampTax = Fin 0, fsTransfer = Fin 0, fsOther = Fin 0\<rparr>"

definition sample_local :: "rat \<Rightarrow> PositionSnap dict \<Rightarrow> LocalSnapshot" where
  "sample_local cash ps =
     \<lparr>lsAccountID = ''a'', lsAsOf = 0, lsCash = sample_cash cash, lsPositions = ps, lsFees = sample_fee_snap, lsTodayPnL = Fin 0\<rparr>"

definition sample_broker :: "rat \<Rightarrow> PositionSnap dict \<Rightarrow> AccountSnapshot" where
  "sample_broker cash ps =
     \<lparr>asAccountID = ''a'', asReconciliationID = [], asAsOf = 0, asCash = sample_cash cash, asPositions = ps,
      asFees = sample_fee_snap\<rparr>"



section \<open>What the comparison misses\<close>

text \<open>A short position has negative market values: however far apart, they are never compared.\<close>

lemma short_value_not_compared:
  "Reconcile (sample_local 500 (sample_position (- 100) (- 1000))) (sample_broker 500 (sample_position (- 100) (- 9000)))
     DefaultReconciliationConfig 0 = []"
  by code_simp

text \<open>A difference that is not a number is below every tolerance.\<close>

lemma missing_cash_is_healthy:
  "Reconcile (sample_local 500 fmempty\<lparr>lsCash := \<lparr>csTotalCNY = NaN, csAvailable = NaN, csFrozen = NaN\<rparr>\<rparr>)
     (sample_broker 500 fmempty) DefaultReconciliationConfig 0 = []"
  by code_simp

text \<open>A deviation of the market value between one and two tolerances counts as healthy.\<close>

lemma beyond_tolerance_is_healthy:
  "allInfoOnly (Reconcile (sample_local 500 (sample_position 100 1000)) (sample_broker 500 (sample_position 100 1007))
     DefaultReconciliationConfig 0)"
  "Reconcile (sample_local 500 (sample_position 100 1000)) (sample_broker 500 (sample_position 100 1007))
     DefaultReconciliationConfig 0 \<noteq> []"
  by code_simp+

end
