(* ===== verification/Spec2Isabelle.thy ===== *)
theory Spec2Isabelle
  imports Engine_Rules Mock_Trader Order_Manager Decimal Auction Stock_State Margin
    Expr_Grammar Expr_Causal Reconciliation
begin

text \<open>
  Verification of the trading core of quant-trading, a Go system that backtests and trades A-share
  strategies. Paths are under \<open>src/pkg\<close>.

  \<^bold>\<open>The system.\<close> A strategy produces signals from market data, often as the value of a factor expression.
  The backtest engine turns the signals of a day into orders, prices them with the execution service,
  splits large ones with an execution algorithm, and books the trades in the tracker, which keeps
  cash and positions under the T+1 rule (shares bought today are sold tomorrow at the earliest). Live
  trading has an order manager over a broker, a paper trader, the price rules of the exchange, the
  delisting state machine with its forced liquidation, a margin account, and a worker that reconciles
  the local books with the broker's.

  \<^bold>\<open>Foundations.\<close>
  \<^item> \<open>Prelude\<close>: strings as byte lists, string maps as finite maps, Go's times as nanoseconds since year 1,
    the fact collections \<open>inv_intro\<close> and \<open>frame\<close>.
  \<^item> \<open>Float64\<close>, \<open>Float64_Math\<close>: \<open>float64\<close> as IEEE binary64, executable over the rationals, and the functions
    of Go's \<open>math\<close> package that are correctly rounded. The locale \<open>rounding\<close> has the laws of rounding.
  \<^item> \<open>Decimal\<close> (\<open>decimal/decimal.go\<close>): fixed-point decimals with the wrap-around of \<open>int64\<close>. Printing and
    parsing are inverse, sums and comparisons exact when the values fit, division within half a unit.
  \<^item> \<open>Domain\<close>, \<open>Market\<close>, \<open>Fees\<close>: domain types, board classification and risk-warning names, fee schedule, fees,
    average cost and settlement rules (\<open>domain\<close>, \<open>marketdata\<close>, \<open>fees\<close>, \<open>portfolio\<close>, \<open>settlement\<close>).

  \<^bold>\<open>Backtest.\<close>
  \<^item> \<open>Tracker\<close> (\<open>backtest/tracker\<close>): the record \<open>Tracker\<close> and one definition per method. \<open>Ledger\<close> states the T+1
    contract as the locale \<open>t1_book\<close>; \<open>Tracker_Settlement\<close> interprets it on the tracker's step relation,
    \<open>Tracker_Log\<close> turns it into a statement about the trade log, \<open>Tracker_Rules\<close> has the daily cap on
    risk-warning stocks and concrete runs that show defects.
  \<^item> \<open>Execution\<close> (\<open>execution\<close>, \<open>marketimpact\<close>, \<open>backtest/execution\<close>): slippage models, impact, and pricing of
    orders; no model improves a price.
  \<^item> \<open>Exec_Algo\<close> (\<open>execalgo\<close>): TWAP and VWAP plans and the dispatcher; nothing is lost or handed out twice.
  \<^item> \<open>Price_Limit\<close>, \<open>Engine_Daily\<close>, \<open>Engine_Run\<close>, \<open>Engine_Rules\<close> (\<open>backtest/pricelimit.go\<close>, \<open>engine_daily.go\<close>,
    \<open>exec_algo.go\<close>, the loop of \<open>engine.go\<close>): the market data of a day is independent of the workers'
    schedule; a long-only backtest is a run of the tracker's steps; signals reach their targets and a
    stop loss cancels what would rebuild the position.
  \<^item> \<open>Auction\<close> (\<open>backtest/auction\<close>): the clearing price of the call auction and the fills.

  \<^bold>\<open>Live trading.\<close>
  \<^item> \<open>Mock_Trader\<close>, \<open>Order_Manager\<close>, \<open>Price_Cage\<close> (\<open>live\<close>): the paper trader (it interprets \<open>t1_book\<close> too), the
    order manager over an arbitrary broker (locale \<open>broker_ids\<close>) and over the simulated one, the price cage.
  \<^item> \<open>Stock_State\<close>, \<open>Margin\<close> (\<open>live/stockstate\<close>, \<open>live/margin\<close>): delisting, forced liquidation, margin trading.
  \<^item> \<open>Reconciliation\<close> (\<open>live/reconciliation\<close>): the comparison of the books, the ring buffer of reports, the
    worker's cycle.

  \<^bold>\<open>Factor expressions.\<close>
  \<^item> \<open>Indicator\<close> (\<open>indicator\<close>): recursive indicators; the locale \<open>stream_core\<close> relates batch and streaming.
  \<^item> \<open>Expr_Syntax\<close>, \<open>Expr_Operators\<close>, \<open>Expr_Registry\<close>, \<open>Expr_Parser\<close>, \<open>Expr_Eval\<close> (\<open>expression\<close>): tokens and trees, the
    operators, the operator table with the gate and the derived lookback, the parser, the evaluator.
  \<^item> \<open>Expr_Grammar\<close>: the parser terminates and accepts exactly the grammar. \<open>Expr_Causal\<close>: what the gate
    accepts evaluates, without look-ahead and with no more history than derived.

  \<^bold>\<open>Conventions.\<close> A method of the code is a function from the state to an error or result and the new state;
  a mutex makes it one step, and a method that releases its lock in between is several. Runs are
  inductive step relations. Generated identifiers, the clock, the order in which Go iterates a map, the
  answers of data services and brokers, and \<open>math.Log\<close>, \<open>math.Exp\<close> and \<open>math.Pow\<close> are arguments. Errors are values
  of datatypes with the fields the code fills in; their texts are left out, as is logging.

  \<^bold>\<open>Bounds.\<close> Quantities in the share accounting are whole numbers up to 2^53, where binary64 stops holding
  every integer. The parsers take a bound on nested calls and iterations; one more than the number of
  tokens is always enough. Arithmetic is that of a target without fused multiply-add; a difference of
  two times is exact, where Go saturates it at 292 years; formulas hold code points below 256.

  \<^bold>\<open>Not modelled.\<close> Code that mainly moves data between the process and the outside: database access
  (\<open>storage\<close>, \<open>eventstore\<close>), the vendors' data clients and their synchronisation (\<open>data\<close>, \<open>sync\<close>), the HTTP
  services and their wiring (\<open>cmd\<close>, \<open>httpserver\<close>, \<open>bootstrap\<close>, \<open>auth\<close>, \<open>api\<close>), message bus, alerts and
  observability, the sandboxes that run user code in WebAssembly or containers, and the client of the
  external backtest kernel. Strategy plugins, position sizing, volatility and stop-loss rules (\<open>strategy\<close>,
  \<open>risk\<close>) rest on transcendental functions and configuration and enter the engine as arguments. The
  asynchronous job service is goroutines and contexts around rows of a database. The compliance
  detectors and reports, performance metrics and walk-forward analysis only read what the modelled
  components record and change no account. Concurrency below the level of a method is not modelled.
\<close>

end
